theory Spec2Isabelle
  imports Main "HOL-Library.AList" "HOL-Library.Sublist"
begin

section \<open>Python values\<close>

text \<open>
  The testbench is Python 2. A JSON document, and every value stored in a metadata
  dictionary, is a \<open>json\<close>; a dictionary with string keys is an association list in
  insertion order (\<open>AList.update\<close> replaces in place or appends, \<open>AList.delete\<close> is
  \<open>dict.pop\<close>). Python's \<open>None\<close> is \<open>JNull\<close> where it is a JSON value and \<open>None\<close>
  of an option type where it is the result of \<open>request.args.get\<close> or
  \<open>request.headers.get\<close>. Floats are left out.
\<close>

datatype json =
    JNull
  | JBool bool
  | JInt int
  | JStr string
  | JList "json list"
  | JObj "(string \<times> json) list"

type_synonym 'v dict = "(string \<times> 'v) list"

text \<open>
  The exceptions of the source. \<open>ErrorResponse\<close> carries the message as the source
  writes it (the format string, before \<open>%\<close> is applied) and the HTTP status code;
  the other constructors are the built-in exceptions that escape where the source
  does not guard an operation.
\<close>

datatype error =
    ErrorResponse string nat
  | KeyError
  | ValueError
  | TypeError
  | AttributeError
  | IndexError
  | UnicodeDecodeError

text \<open>
  Modelled from the spec: \<open>error_response.ErrorResponse\<close> is not among the sources;
  its constructor takes "a message and an HTTP-style status code (default 400 when
  unspecified)".
\<close>

definition default_status_code :: nat where
  "default_status_code = 400"

text \<open>\<open>d.get(k)\<close> and \<open>d.get(k, default)\<close>: a missing key reads as \<open>None\<close>.\<close>

definition dget :: "json dict \<Rightarrow> string \<Rightarrow> json" where
  "dget d k = (case map_of d k of None \<Rightarrow> JNull | Some v \<Rightarrow> v)"

definition dget_default :: "json dict \<Rightarrow> string \<Rightarrow> json \<Rightarrow> json" where
  "dget_default d k dflt = (case map_of d k of None \<Rightarrow> dflt | Some v \<Rightarrow> v)"

text \<open>\<open>d.update(d2)\<close>, key by key in the order of \<open>d2\<close>.\<close>

definition dict_update :: "('k \<times> 'v) list \<Rightarrow> ('k \<times> 'v) list \<Rightarrow> ('k \<times> 'v) list" where
  "dict_update d d2 = fold (\<lambda>(k, v). AList.update k v) d2 d"

definition json_of_opt :: "string option \<Rightarrow> json" where
  "json_of_opt v = (case v of None \<Rightarrow> JNull | Some s \<Rightarrow> JStr s)"

text \<open>\<open>x + 1\<close> on a JSON value: integers and booleans add, anything else raises.\<close>

fun py_add_one :: "json \<Rightarrow> error + json" where
  "py_add_one (JInt n) = Inr (JInt (n + 1))"
| "py_add_one (JBool b) = Inr (JInt ((if b then 1 else 0) + 1))"
| "py_add_one _ = Inl TypeError"

text \<open>
  \<open>for e in v\<close>: a list yields its elements, a string its characters, a dictionary
  its keys; nothing else is iterable.
\<close>

fun py_iter :: "json \<Rightarrow> error + json list" where
  "py_iter (JList es) = Inr es"
| "py_iter (JStr s) = Inr (map (\<lambda>c. JStr [c]) s)"
| "py_iter (JObj kvs) = Inr (map (\<lambda>kv. JStr (fst kv)) kvs)"
| "py_iter _ = Inl TypeError"

subsection \<open>Strings\<close>

definition startswith :: "string \<Rightarrow> string \<Rightarrow> bool" where
  "startswith s p = prefix p s"

text \<open>
  \<open>split_first sep s\<close> is \<open>s.partition(sep)\<close>: the text before and after the first
  occurrence of \<open>sep\<close>, or \<open>None\<close> when there is none.
\<close>

fun split_first :: "string \<Rightarrow> string \<Rightarrow> (string \<times> string) option" where
  "split_first sep [] = (if sep = [] then Some ([], []) else None)"
| "split_first sep (c # t) =
     (if prefix sep (c # t) then Some ([], drop (length sep) (c # t))
      else (case split_first sep t of
              None \<Rightarrow> None
            | Some (a, b) \<Rightarrow> Some (c # a, b)))"

text \<open>\<open>s.split(sep, n)\<close>: at most \<open>n\<close> splits, from the left.\<close>

fun split_max :: "nat \<Rightarrow> string \<Rightarrow> string \<Rightarrow> string list" where
  "split_max 0 sep s = [s]"
| "split_max (Suc n) sep s =
     (case split_first sep s of
        None \<Rightarrow> [s]
      | Some (a, b) \<Rightarrow> a # split_max n sep b)"

text \<open>
  \<open>s.split(sep)\<close> for a non-empty separator: a string of length \<open>n\<close> has at most
  \<open>n\<close> occurrences, so the bound never cuts a split short.
\<close>

definition py_split :: "string \<Rightarrow> string \<Rightarrow> string list" where
  "py_split sep s = split_max (length s) sep s"

text \<open>\<open>s.find(sub, start)\<close> with \<open>0 \<le> start\<close>: the lowest index, or \<open>-1\<close>.\<close>

fun find_aux :: "string \<Rightarrow> string \<Rightarrow> nat \<Rightarrow> int" where
  "find_aux sub [] i = (if sub = [] then int i else - 1)"
| "find_aux sub (c # t) i =
     (if prefix sub (c # t) then int i else find_aux sub t (Suc i))"

definition py_find :: "string \<Rightarrow> string \<Rightarrow> int \<Rightarrow> int" where
  "py_find s sub start =
     (let n = int (length s);
          st = (if start < 0 then max 0 (n + start) else start)
      in if n < st then - 1 else find_aux sub (drop (nat st) s) (nat st))"

text \<open>\<open>s[i:j]\<close>: a negative bound counts from the end, and both are clipped.\<close>

definition slice_bound :: "nat \<Rightarrow> int \<Rightarrow> nat" where
  "slice_bound n k = (if k < 0 then nat (max 0 (int n + k)) else min (nat k) n)"

definition py_slice :: "string \<Rightarrow> int \<Rightarrow> int \<Rightarrow> string" where
  "py_slice s i j =
     (let a = slice_bound (length s) i; b = slice_bound (length s) j
      in take (b - a) (drop a s))"

text \<open>\<open>str(n)\<close> for an integer.\<close>

definition digit_char :: "nat \<Rightarrow> char" where
  "digit_char n = char_of (48 + n)"

fun digits10 :: "nat \<Rightarrow> string" where
  "digits10 n = (if n < 10 then [digit_char n] else digits10 (n div 10) @ [digit_char (n mod 10)])"

declare digits10.simps [simp del]

definition str_int :: "int \<Rightarrow> string" where
  "str_int i = (if i < 0 then CHR ''-'' # digits10 (nat (- i)) else digits10 (nat i))"

text \<open>\<open>str(x)\<close> where \<open>x\<close> is an integer or \<open>None\<close>.\<close>

definition str_int_opt :: "int option \<Rightarrow> string" where
  "str_int_opt g = (case g of None \<Rightarrow> ''None'' | Some i \<Rightarrow> str_int i)"

text \<open>
  \<open>int(s)\<close> for a string: surrounding white space is dropped, a sign may lead, and
  the rest must be decimal digits; anything else raises \<open>ValueError\<close> (\<open>None\<close> here).
\<close>

definition is_space :: "char \<Rightarrow> bool" where
  "is_space c = (of_char c \<in> {32, 9, 10, 11, 12, 13 :: nat})"

definition is_digit :: "char \<Rightarrow> bool" where
  "is_digit c = (48 \<le> (of_char c :: nat) \<and> (of_char c :: nat) \<le> 57)"

definition strip :: "string \<Rightarrow> string" where
  "strip s = rev (dropWhile is_space (rev (dropWhile is_space s)))"

definition digits_value :: "string \<Rightarrow> nat" where
  "digits_value ds = fold (\<lambda>c n. 10 * n + (of_char c - 48)) ds 0"

definition unsigned_int :: "string \<Rightarrow> int option" where
  "unsigned_int ds =
     (if ds = [] \<or> \<not> list_all is_digit ds then None else Some (int (digits_value ds)))"

definition py_int :: "string \<Rightarrow> int option" where
  "py_int s =
     (case strip s of
        [] \<Rightarrow> None
      | c # r \<Rightarrow>
          if c = CHR ''-'' then map_option uminus (unsigned_int r)
          else if c = CHR ''+'' then unsigned_int r
          else unsigned_int (c # r))"

text \<open>
  \<open>base64.b64encode\<close>: three bytes \<open>a\<close>, \<open>b\<close>, \<open>c\<close> become the four
  six-bit numbers \<open>a >> 2\<close>, \<open>(a & 3) << 4 | b >> 4\<close>, \<open>(b & 15) << 2 | c >> 6\<close>
  and \<open>c & 63\<close>, each written as a character of the alphabet; a last group of one
  or two bytes is padded with \<open>=\<close>.
\<close>

definition b64_alphabet :: string where
  "b64_alphabet = ''ABCDEFGHIJKLMNOPQRSTUVWXYZabcdefghijklmnopqrstuvwxyz0123456789+/''"

definition b64_char :: "nat \<Rightarrow> char" where
  "b64_char n = b64_alphabet ! (n mod 64)"

fun b64encode :: "string \<Rightarrow> string" where
  "b64encode [] = []"
| "b64encode [a] =
     [b64_char (of_char a div 4), b64_char ((of_char a mod 4) * 16), CHR ''='', CHR ''='']"
| "b64encode [a, b] =
     [b64_char (of_char a div 4), b64_char ((of_char a mod 4) * 16 + of_char b div 16),
      b64_char ((of_char b mod 16) * 4), CHR ''='']"
| "b64encode (a # b # c # rest) =
     [b64_char (of_char a div 4), b64_char ((of_char a mod 4) * 16 + of_char b div 16),
      b64_char ((of_char b mod 16) * 4 + of_char c div 64), b64_char (of_char c mod 64)]
     @ b64encode rest"

text \<open>\<open>'/'.join(parts)\<close>.\<close>

fun join_slash :: "string list \<Rightarrow> string" where
  "join_slash [] = []"
| "join_slash [p] = p"
| "join_slash (p # q # ps) = p @ ''/'' @ join_slash (q # ps)"

section \<open>Requests and collaborators\<close>

text \<open>
  A \<open>flask.Request\<close>: \<open>headers\<close> is \<open>request.headers.get\<close>, \<open>args\<close> is
  \<open>request.args.get\<close> and \<open>data\<close> is the raw body.
\<close>

record request =
  headers :: "string \<Rightarrow> string option"
  args :: "string \<Rightarrow> string option"
  data :: string

text \<open>
  A bucket, as far as this module reads it: \<open>bucket.versioning_enabled()\<close> and
  \<open>bucket.metadata\<close>.
\<close>

record bucket =
  versioning_enabled :: bool
  bucket_metadata :: "json dict"

text \<open>
  What the module takes from outside: the clock (the formatted time stamp), the
  standard library's \<open>hashlib.md5(m).digest()\<close> and \<open>json.loads\<close> (\<open>None\<close> when it
  raises \<open>ValueError\<close>), and the functions of \<open>testbench_utils\<close>, which are not among
  the sources. \<open>validate_customer_encryption_headers\<close> returns the error it raises,
  if any; \<open>csek_error\<close> is what \<open>raise_csek_error()\<close> raises.
\<close>

record env =
  timestamp :: string
  md5_digest :: "string \<Rightarrow> string"
  json_loads :: "string \<Rightarrow> json option"
  corrupt_media :: "string \<Rightarrow> string"
  extract_media :: "request \<Rightarrow> string"
  canonical_entity_name :: "string \<Rightarrow> string"
  lookup_bucket :: "string \<Rightarrow> error + bucket"
  validate_customer_encryption_headers ::
    "string option \<Rightarrow> string option \<Rightarrow> string option \<Rightarrow> error option"
  csek_error :: error

section \<open>GcsObjectVersion\<close>

record gcs_object_version =
  v_gcs_url :: string
  v_bucket_name :: string
  v_name :: string
  v_generation :: int
  object_id :: string
  media :: string
  metadata :: "json dict"

text \<open>The checksum the source recomputes: \<open>base64.b64encode(hashlib.md5(media).digest())\<close>.\<close>

definition md5_hash :: "env \<Rightarrow> string \<Rightarrow> string" where
  "md5_hash e m = b64encode (md5_digest e m)"

definition validate_hashes :: "env \<Rightarrow> gcs_object_version \<Rightarrow> error + unit" where
  "validate_hashes e self =
     (let actual = dget_default (metadata self) ''md5Hash'' (JStr []);
          expected = md5_hash e (media self)
      in if actual \<noteq> JStr expected
         then Inl (ErrorResponse ''Mismatched MD5 hash expected=%s, actual=%s''
                     default_status_code)
         else Inr ())"

text \<open>
  \<open>update_from_metadata\<close>: the result and the revision as the call leaves it. The
  assignment \<open>self.metadata = tmp\<close> comes before \<open>self._validate_hashes()\<close>, so the
  revision returned beside an error of the validation already holds \<open>tmp\<close>.
\<close>

definition update_from_metadata ::
  "env \<Rightarrow> gcs_object_version \<Rightarrow> json dict \<Rightarrow> (error + unit) \<times> gcs_object_version" where
  "update_from_metadata e self md =
     (let tmp = dict_update (metadata self) md;
          tmp = AList.update ''bucket'' (dget_default tmp ''bucket'' (JStr (v_name self))) tmp;
          tmp = AList.update ''name'' (dget_default tmp ''name'' (JStr (v_name self))) tmp;
          tmp = dict_update tmp
                  [(''kind'', JStr ''storage#object''),
                   (''bucket'', JStr (v_bucket_name self)),
                   (''name'', JStr (v_name self)),
                   (''id'', JStr (object_id self)),
                   (''selfLink'', JStr (v_gcs_url self @ v_name self)),
                   (''projectNumber'', JStr ''123456789''),
                   (''updated'', JStr (timestamp e))]
      in case py_add_one (dget_default tmp ''metageneration'' (JInt 0)) of
           Inl err \<Rightarrow> (Inl err, self)
         | Inr mg \<Rightarrow>
             (let self' = self\<lparr>metadata := AList.update ''metageneration'' mg tmp\<rparr>
              in (validate_hashes e self', self')))"

text \<open>The update from a JSON body: \<open>dict.update\<close> of a value that is no dictionary raises.\<close>

definition update_from_json ::
  "env \<Rightarrow> gcs_object_version \<Rightarrow> json \<Rightarrow> (error + unit) \<times> gcs_object_version" where
  "update_from_json e self j =
     (case j of
        JObj md \<Rightarrow> update_from_metadata e self md
      | _ \<Rightarrow> (Inl TypeError, self))"

definition validate_encryption_for_read ::
  "env \<Rightarrow> gcs_object_version \<Rightarrow> request \<Rightarrow> string \<Rightarrow> error + unit" where
  "validate_encryption_for_read e self req pfx =
     (let key_header = pfx @ ''-key'';
          hash_header = pfx @ ''-key-sha256'';
          algo_header = pfx @ ''-algorithm'';
          encryption = dget (metadata self) ''customerEncryption''
      in if encryption = JNull then
           (if headers req key_header = None then Inr () else Inl (csek_error e))
         else
           (case validate_customer_encryption_headers e
                   (headers req key_header) (headers req hash_header) (headers req algo_header) of
              Some err \<Rightarrow> Inl err
            | None \<Rightarrow>
                (case encryption of
                   JObj enc \<Rightarrow>
                     if dget enc ''keySha256'' \<noteq> json_of_opt (headers req hash_header)
                     then Inl (csek_error e) else Inr ()
                 | _ \<Rightarrow> Inl AttributeError)))"

definition capture_customer_encryption ::
  "env \<Rightarrow> gcs_object_version \<Rightarrow> request \<Rightarrow> error + gcs_object_version" where
  "capture_customer_encryption e self req =
     (if headers req ''x-goog-encryption-key'' = None then Inr self
      else
        (let pfx = ''x-goog-encryption'';
             key_header_value = headers req (pfx @ ''-key'');
             hash_header_value = headers req (pfx @ ''-key-sha256'');
             algo_header_value = headers req (pfx @ ''-algorithm'')
         in case validate_customer_encryption_headers e
                   key_header_value hash_header_value algo_header_value of
              Some err \<Rightarrow> Inl err
            | None \<Rightarrow>
                Inr (self\<lparr>metadata := AList.update ''customerEncryption''
                       (JObj [(''encryptionAlgorithm'', json_of_opt algo_header_value),
                              (''keySha256'', json_of_opt hash_header_value)])
                       (metadata self)\<rparr>)))"

subsection \<open>The ACL of a revision\<close>

text \<open>
  Modelled from the spec: \<open>testbench_utils.index_acl\<close> is not among the sources. The
  ACL Index "maintains the unique-by-entity access-control list": the entries of
  the list become a dictionary keyed by each entry's \<open>entity\<close>, a later entry
  replacing an earlier one of the same entity. An entry with no \<open>entity\<close> raises
  \<open>KeyError\<close>; an entry that is no dictionary, or an entity that is no string,
  raises \<open>TypeError\<close>.
\<close>

fun index_acl_entries :: "json list \<Rightarrow> json dict \<Rightarrow> error + json dict" where
  "index_acl_entries [] indexed = Inr indexed"
| "index_acl_entries (JObj kvs # es) indexed =
     (case map_of kvs ''entity'' of
        None \<Rightarrow> Inl KeyError
      | Some (JStr ent) \<Rightarrow> index_acl_entries es (AList.update ent (JObj kvs) indexed)
      | Some _ \<Rightarrow> Inl TypeError)"
| "index_acl_entries (_ # es) indexed = Inl TypeError"

definition index_acl :: "json \<Rightarrow> error + json dict" where
  "index_acl acl =
     (case py_iter acl of
        Inl err \<Rightarrow> Inl err
      | Inr es \<Rightarrow> index_acl_entries es [])"

text \<open>\<open>a + b\<close> where \<open>a\<close> is read from the metadata and \<open>b\<close> is a string.\<close>

fun py_concat :: "json \<Rightarrow> string \<Rightarrow> error + string" where
  "py_concat (JStr a) b = Inr (a @ b)"
| "py_concat _ b = Inl TypeError"

text \<open>
  \<open>insert_acl\<close> returns the new entry and the revision; it assigns
  \<open>self.metadata['acl']\<close> last, so a raise leaves the revision as it was.
\<close>

definition insert_acl ::
  "env \<Rightarrow> gcs_object_version \<Rightarrow> string \<Rightarrow> string \<Rightarrow> (error + json) \<times> gcs_object_version" where
  "insert_acl e self entity0 role =
     (let entity = canonical_entity_name e entity0;
          email = (if startswith entity ''user-'' then entity else [])
      in case index_acl (dget_default (metadata self) ''acl'' (JList [])) of
           Inl err \<Rightarrow> (Inl err, self)
         | Inr indexed \<Rightarrow>
             (case py_concat (dget_default (metadata self) ''id'' (JStr [])) (''/'' @ entity) of
                Inl err \<Rightarrow> (Inl err, self)
              | Inr acl_id \<Rightarrow>
                  (case py_concat (dget (metadata self) ''selfLink'') (''/acl/'' @ entity) of
                     Inl err \<Rightarrow> (Inl err, self)
                   | Inr self_link \<Rightarrow>
                       (let entry = JObj
                              [(''bucket'', JStr (v_bucket_name self)),
                               (''email'', JStr email),
                               (''entity'', JStr entity),
                               (''entity_id'', JStr []),
                               (''etag'', dget_default (metadata self) ''etag'' (JStr ''XYZ='')),
                               (''generation'', JInt (v_generation self)),
                               (''id'', JStr acl_id),
                               (''kind'', JStr ''storage#objectAccessControl''),
                               (''object'', JStr (v_name self)),
                               (''role'', JStr role),
                               (''selfLink'', JStr self_link)];
                            indexed' = AList.update entity entry indexed
                        in (Inr entry,
                            self\<lparr>metadata := AList.update ''acl'' (JList (map snd indexed'))
                                                (metadata self)\<rparr>)))))"

text \<open>
  \<open>delete_acl\<close>: \<open>indexed.pop(entity)\<close> has no default, so a missing entity raises
  \<open>KeyError\<close> before \<open>self.metadata['acl']\<close> is assigned.
\<close>

definition delete_acl ::
  "env \<Rightarrow> gcs_object_version \<Rightarrow> string \<Rightarrow> (error + unit) \<times> gcs_object_version" where
  "delete_acl e self entity0 =
     (let entity = canonical_entity_name e entity0
      in case index_acl (dget_default (metadata self) ''acl'' (JList [])) of
           Inl err \<Rightarrow> (Inl err, self)
         | Inr indexed \<Rightarrow>
             (case map_of indexed entity of
                None \<Rightarrow> (Inl KeyError, self)
              | Some _ \<Rightarrow>
                  (Inr (),
                   self\<lparr>metadata := AList.update ''acl''
                            (JList (map snd (AList.delete entity indexed)))
                            (metadata self)\<rparr>)))"

text \<open>
  The loop of \<open>get_acl\<close>: \<open>acl.get('entity', '')\<close> needs a dictionary; the first
  entry of the entity is returned, and the end of the list is the
  \<open>ErrorResponse\<close> raised after the loop.
\<close>

fun get_acl_loop :: "json list \<Rightarrow> string \<Rightarrow> error + json" where
  "get_acl_loop [] entity =
     Inl (ErrorResponse ''Entity %s not found in object %s'' default_status_code)"
| "get_acl_loop (JObj kvs # es) entity =
     (if dget_default kvs ''entity'' (JStr []) = JStr entity then Inr (JObj kvs)
      else get_acl_loop es entity)"
| "get_acl_loop (_ # es) entity = Inl AttributeError"

definition get_acl :: "env \<Rightarrow> gcs_object_version \<Rightarrow> string \<Rightarrow> error + json" where
  "get_acl e self entity0 =
     (let entity = canonical_entity_name e entity0
      in case py_iter (dget_default (metadata self) ''acl'' (JList [])) of
           Inl err \<Rightarrow> Inl err
         | Inr es \<Rightarrow> get_acl_loop es entity)"

text \<open>A run of \<open>insert_acl\<close> calls, stopping at the first that raises.\<close>

fun insert_acls ::
  "env \<Rightarrow> gcs_object_version \<Rightarrow> (string \<times> string) list \<Rightarrow> (error + unit) \<times> gcs_object_version" where
  "insert_acls e self [] = (Inr (), self)"
| "insert_acls e self ((entity, role) # rest) =
     (case insert_acl e self entity role of
        (Inl err, self') \<Rightarrow> (Inl err, self')
      | (Inr _, self') \<Rightarrow> insert_acls e self' rest)"

text \<open>
  \<open>owner.get('entity')\<close> of the bucket's owner, passed on to \<open>insert_acl\<close>: the
  owner must be a dictionary and the entity a string.
\<close>

definition bucket_owner_entity :: "bucket \<Rightarrow> error + string" where
  "bucket_owner_entity b =
     (case dget (bucket_metadata b) ''owner'' of
        JNull \<Rightarrow> Inr ''project-owners-123456789''
      | JObj owner \<Rightarrow>
          (case dget owner ''entity'' of
             JStr ent \<Rightarrow> Inr ent
           | _ \<Rightarrow> Inl AttributeError)
      | _ \<Rightarrow> Inl AttributeError)"

definition update_predefined_acl ::
  "env \<Rightarrow> gcs_object_version \<Rightarrow> string option \<Rightarrow> (error + unit) \<times> gcs_object_version" where
  "update_predefined_acl e self predefined_acl0 =
     (let predefined_acl = (case predefined_acl0 of None \<Rightarrow> ''projectPrivate'' | Some p \<Rightarrow> p)
      in case insert_acl e self (canonical_entity_name e ''project-owners-123456789'') ''OWNER'' of
           (Inl err, self1) \<Rightarrow> (Inl err, self1)
         | (Inr _, self1) \<Rightarrow>
             (case lookup_bucket e (v_bucket_name self1) of
                Inl err \<Rightarrow> (Inl err, self1)
              | Inr b \<Rightarrow>
                  (case bucket_owner_entity b of
                     Inl err \<Rightarrow> (Inl err, self1)
                   | Inr owner_entity \<Rightarrow>
                       if predefined_acl = ''authenticatedRead'' then
                         insert_acls e self1 [(''allAuthenticatedUsers'', ''READER'')]
                       else if predefined_acl = ''bucketOwnerFullControl'' then
                         insert_acls e self1 [(owner_entity, ''OWNER'')]
                       else if predefined_acl = ''bucketOwnerRead'' then
                         insert_acls e self1 [(owner_entity, ''READER'')]
                       else if predefined_acl = ''private'' then
                         insert_acls e self1 [(''project-owners'', ''OWNER'')]
                       else if predefined_acl = ''projectPrivate'' then
                         insert_acls e self1
                           [(canonical_entity_name e ''project-editors-123456789'', ''OWNER''),
                            (canonical_entity_name e ''project-viewers-123456789'', ''READER'')]
                       else if predefined_acl = ''publicRead'' then
                         insert_acls e self1 [(canonical_entity_name e ''allUsers'', ''READER'')]
                       else (Inl (ErrorResponse ''Invalid predefinedAcl value'' 400), self1))))"

definition acl2json_mapping :: "string dict" where
  "acl2json_mapping =
     [(''authenticated-read'', ''authenticatedRead''),
      (''bucket-owner-full-control'', ''bucketOwnerFullControl''),
      (''bucket-owner-read'', ''bucketOwnerRead''),
      (''private'', ''private''),
      (''project-private'', ''projectPrivate''),
      (''public-read'', ''publicRead'')]"

subsection \<open>The constructor\<close>

text \<open>
  \<open>GcsObjectVersion.__init__\<close>: an exception raised in the constructor leaves no
  object, so the result is the error or the new revision.
\<close>

definition initial_metadata :: "env \<Rightarrow> int \<Rightarrow> request \<Rightarrow> string \<Rightarrow> json dict" where
  "initial_metadata e generation req m =
     (let md = [(''timeCreated'', JStr (timestamp e)),
                (''updated'', JStr (timestamp e)),
                (''metageneration'', JInt 0),
                (''generation'', JInt generation),
                (''location'', JStr ''US''),
                (''storageClass'', JStr ''STANDARD''),
                (''size'', JInt (int (length m))),
                (''etag'', JStr ''XYZ=''),
                (''owner'', JObj [(''entity'', JStr ''project-owners-123456789''),
                                  (''entityId'', JStr [])]),
                (''md5Hash'', JStr (md5_hash e m))]
      in case headers req ''content-type'' of
           None \<Rightarrow> md
         | Some ct \<Rightarrow> AList.update ''contentType'' (JStr ct) md)"

text \<open>The fields and the metadata dictionary, before \<open>self.update_from_metadata({})\<close>.\<close>

definition initial_revision ::
  "env \<Rightarrow> string \<Rightarrow> string \<Rightarrow> string \<Rightarrow> int \<Rightarrow> request \<Rightarrow> string \<Rightarrow> gcs_object_version" where
  "initial_revision e url bname oname generation req media0 =
     (let m = (if headers req ''x-goog-testbench-instructions'' = Some ''inject-upload-data-error''
               then corrupt_media e media0 else media0)
      in \<lparr>v_gcs_url = url, v_bucket_name = bname, v_name = oname,
          v_generation = generation,
          object_id = bname @ ''/o/'' @ oname @ ''/'' @ str_int generation,
          media = m,
          metadata = initial_metadata e generation req m\<rparr>)"

definition GcsObjectVersion_init ::
  "env \<Rightarrow> string \<Rightarrow> string \<Rightarrow> string \<Rightarrow> int \<Rightarrow> request \<Rightarrow> string \<Rightarrow> error + gcs_object_version" where
  "GcsObjectVersion_init e url bname oname generation req media0 =
     (case update_from_metadata e (initial_revision e url bname oname generation req media0) [] of
        (Inl err, _) \<Rightarrow> Inl err
      | (Inr _, self1) \<Rightarrow>
          (case capture_customer_encryption e self1 req of
             Inl err \<Rightarrow> Inl err
           | Inr self2 \<Rightarrow>
               (case update_predefined_acl e self2 (args req ''predefinedAcl'') of
                  (Inl err, _) \<Rightarrow> Inl err
                | (Inr _, self3) \<Rightarrow>
                    (case headers req ''x-goog-acl'' of
                       None \<Rightarrow> Inr self3
                     | Some acl \<Rightarrow>
                         (case map_of acl2json_mapping acl of
                            None \<Rightarrow> Inl (ErrorResponse ''Invalid predefinedAcl value %s'' 400)
                          | Some predefined \<Rightarrow>
                              (case update_predefined_acl e self3 (Some predefined) of
                                 (Inl err, _) \<Rightarrow> Inl err
                               | (Inr _, self4) \<Rightarrow> Inr self4))))))"

section \<open>GcsObject\<close>

text \<open>
  An entry of \<open>self.rewrite_operations\<close>: the dictionary that
  \<open>make_rewrite_operation\<close> builds. The values of \<open>original_arguments\<close> are what
  \<open>request.args.get\<close> returned, so \<open>None\<close> for an argument the request does not
  carry.
\<close>

record rewrite_operation =
  op_id :: int
  original_arguments :: "string option dict"
  actual_generation :: "int option"
  bytes_rewritten :: int
  op_body :: json

text \<open>
  \<open>self.generation\<close> is an integer, or \<open>None\<close> once \<open>del_revision\<close> has removed
  the last revision. \<open>self.revisions\<close> and \<open>self.rewrite_operations\<close> are
  dictionaries, kept as association lists.
\<close>

record gcs_object =
  bucket_name :: string
  name :: string
  generation :: "int option"
  revisions :: "(int \<times> gcs_object_version) list"
  rewrite_token_generator :: int
  rewrite_operations :: "(string \<times> rewrite_operation) list"

definition GcsObject_init :: "string \<Rightarrow> string \<Rightarrow> gcs_object" where
  "GcsObject_init bname oname =
     \<lparr>bucket_name = bname, name = oname, generation = Some 0, revisions = [],
      rewrite_token_generator = 0, rewrite_operations = []\<rparr>"

text \<open>
  The local variable \<open>generation\<close> of \<open>del_revision\<close>: the string of the request,
  or \<open>self.generation\<close>, an integer or \<open>None\<close>.
\<close>

datatype pyval = PyNone | PyInt int | PyStr string

definition pyval_of_generation :: "int option \<Rightarrow> pyval" where
  "pyval_of_generation g = (case g of None \<Rightarrow> PyNone | Some i \<Rightarrow> PyInt i)"

text \<open>\<open>int(x)\<close>: \<open>TypeError\<close> on \<open>None\<close>, \<open>ValueError\<close> on a string that is no number.\<close>

fun int_of_pyval :: "pyval \<Rightarrow> error + int" where
  "int_of_pyval PyNone = Inl TypeError"
| "int_of_pyval (PyInt i) = Inr i"
| "int_of_pyval (PyStr s) = (case py_int s of None \<Rightarrow> Inl ValueError | Some i \<Rightarrow> Inr i)"

text \<open>
  \<open>del_revision\<close>. The comparison \<open>generation == self.generation\<close> is between
  values as Python compares them: a string never equals an integer.
\<close>

definition del_revision :: "gcs_object \<Rightarrow> request \<Rightarrow> (error + bool) \<times> gcs_object" where
  "del_revision self req =
     (let gen = (case args req ''generation'' of
                   None \<Rightarrow> pyval_of_generation (generation self)
                 | Some s \<Rightarrow> PyStr s)
      in case int_of_pyval gen of
           Inl err \<Rightarrow> (Inl err, self)
         | Inr k \<Rightarrow>
             (case map_of (revisions self) k of
                None \<Rightarrow> (Inl KeyError, self)
              | Some _ \<Rightarrow>
                  (let self1 = self\<lparr>revisions := AList.delete k (revisions self)\<rparr>
                   in if length (revisions self1) = 0
                      then (Inr True, self1\<lparr>generation := None\<rparr>)
                      else if gen = pyval_of_generation (generation self1)
                      then (Inr False,
                            self1\<lparr>generation := Some (last (sort (map fst (revisions self1))))\<rparr>)
                      else (Inr False, self1))))"

definition get_revision_by_generation ::
  "gcs_object \<Rightarrow> int option \<Rightarrow> gcs_object_version option" where
  "get_revision_by_generation self g =
     (case g of None \<Rightarrow> None | Some i \<Rightarrow> map_of (revisions self) i)"

definition get_latest :: "gcs_object \<Rightarrow> gcs_object_version option" where
  "get_latest self = get_revision_by_generation self (generation self)"

subsection \<open>Preconditions\<close>

text \<open>One statement after another: the second runs when the first did not raise.\<close>

definition and_then :: "error + unit \<Rightarrow> error + 'a \<Rightarrow> error + 'a" where
  "and_then a b = (case a of Inl err \<Rightarrow> Inl err | Inr _ \<Rightarrow> b)"

definition precondition_failed :: error where
  "precondition_failed = ErrorResponse ''Precondition Failed'' 412"

text \<open>
  \<open>if v is not None and int(v) != x: raise\<close> and
  \<open>if v is not None and int(v) == x: raise\<close>, for an integer or \<open>None\<close> (\<open>x\<close> is
  \<open>self.generation\<close>) and for a metadata value.
\<close>

definition must_equal :: "string option \<Rightarrow> (int \<Rightarrow> bool) \<Rightarrow> error + unit" where
  "must_equal v same =
     (case v of
        None \<Rightarrow> Inr ()
      | Some s \<Rightarrow>
          (case py_int s of
             None \<Rightarrow> Inl ValueError
           | Some i \<Rightarrow> if \<not> same i then Inl precondition_failed else Inr ()))"

definition must_not_equal :: "string option \<Rightarrow> (int \<Rightarrow> bool) \<Rightarrow> error + unit" where
  "must_not_equal v same =
     (case v of
        None \<Rightarrow> Inr ()
      | Some s \<Rightarrow>
          (case py_int s of
             None \<Rightarrow> Inl ValueError
           | Some i \<Rightarrow> if same i then Inl precondition_failed else Inr ()))"

definition check_preconditions_by_value ::
  "gcs_object \<Rightarrow> string option \<Rightarrow> string option \<Rightarrow> string option \<Rightarrow> string option
     \<Rightarrow> error + unit" where
  "check_preconditions_by_value self generation_match generation_not_match
       metageneration_match metageneration_not_match =
     and_then (must_equal generation_match (\<lambda>i. Some i = generation self))
    (and_then (must_not_equal generation_not_match (\<lambda>i. Some i = generation self))
       (if generation self = Some 0 then
          (if metageneration_match \<noteq> None \<or> metageneration_not_match \<noteq> None
           then Inl precondition_failed else Inr ())
        else
          (case get_revision_by_generation self (generation self) of
             None \<Rightarrow> Inl (ErrorResponse ''Object not found'' 404)
           | Some current \<Rightarrow>
               (let metageneration = dget (metadata current) ''metageneration''
                in and_then (must_not_equal metageneration_not_match
                               (\<lambda>i. JInt i = metageneration))
                            (must_equal metageneration_match
                               (\<lambda>i. JInt i = metageneration))))))"

definition check_preconditions :: "gcs_object \<Rightarrow> request \<Rightarrow> error + unit" where
  "check_preconditions self req =
     check_preconditions_by_value self
       (args req ''ifGenerationMatch'') (args req ''ifGenerationNotMatch'')
       (args req ''ifMetagenerationMatch'') (args req ''ifMetagenerationNotMatch'')"

subsection \<open>Inserting revisions\<close>

text \<open>\<open>self.generation += 1\<close> raises \<open>TypeError\<close> on \<open>None\<close>.\<close>

definition increment_generation :: "gcs_object \<Rightarrow> error + int" where
  "increment_generation self =
     (case generation self of None \<Rightarrow> Inl TypeError | Some g \<Rightarrow> Inr (g + 1))"

text \<open>
  \<open>_insert_revision\<close>, with \<open>self.generation\<close> passed as \<open>g\<close>: every caller has just
  incremented it.
\<close>

definition insert_revision ::
  "env \<Rightarrow> gcs_object \<Rightarrow> int \<Rightarrow> gcs_object_version \<Rightarrow> (error + unit) \<times> gcs_object" where
  "insert_revision e self g revision =
     (let update = [(g, revision)]
      in case lookup_bucket e (bucket_name self) of
           Inl err \<Rightarrow> (Inl err, self)
         | Inr b \<Rightarrow>
             if \<not> versioning_enabled b
             then (Inr (), self\<lparr>revisions := update\<rparr>)
             else (Inr (), self\<lparr>revisions := dict_update (revisions self) update\<rparr>))"

text \<open>
  \<open>meta = revision.metadata.setdefault('metadata', {}); meta[k] = v\<close>: item
  assignment raises \<open>TypeError\<close> when the stored value is no dictionary.
\<close>

definition set_meta ::
  "gcs_object_version \<Rightarrow> string \<Rightarrow> json \<Rightarrow> error + gcs_object_version" where
  "set_meta revision k v =
     (case map_of (metadata revision) ''metadata'' of
        None \<Rightarrow>
          Inr (revision\<lparr>metadata := AList.update ''metadata'' (JObj [(k, v)]) (metadata revision)\<rparr>)
      | Some (JObj meta) \<Rightarrow>
          Inr (revision\<lparr>metadata := AList.update ''metadata'' (JObj (AList.update k v meta))
                                     (metadata revision)\<rparr>)
      | Some _ \<Rightarrow> Inl TypeError)"

text \<open>
  The end of every insert: \<open>self._insert_revision(revision); return revision\<close>,
  on the object whose generation is already \<open>g\<close>.
\<close>

definition install ::
  "env \<Rightarrow> gcs_object \<Rightarrow> int \<Rightarrow> gcs_object_version
     \<Rightarrow> (error + gcs_object_version) \<times> gcs_object" where
  "install e self g revision =
     (case insert_revision e self g revision of
        (Inl err, self') \<Rightarrow> (Inl err, self')
      | (Inr _, self') \<Rightarrow> (Inr revision, self'))"

text \<open>\<open>insert\<close>, the simple upload (the name \<open>insert\<close> is taken by sets).\<close>

definition insert_simple ::
  "env \<Rightarrow> gcs_object \<Rightarrow> string \<Rightarrow> request \<Rightarrow> (error + gcs_object_version) \<times> gcs_object" where
  "insert_simple e self url req =
     (let m = extract_media e req
      in case increment_generation self of
           Inl err \<Rightarrow> (Inl err, self)
         | Inr g \<Rightarrow>
             (let self1 = self\<lparr>generation := Some g\<rparr>
              in case GcsObjectVersion_init e url (bucket_name self1) (name self1) g req m of
                   Inl err \<Rightarrow> (Inl err, self1)
                 | Inr revision \<Rightarrow>
                     (case set_meta revision ''x_testbench_upload'' (JStr ''simple'') of
                        Inl err \<Rightarrow> (Inl err, self1)
                      | Inr revision1 \<Rightarrow> install e self1 g revision1)))"

text \<open>
  \<open>insert_xml\<close>. The loop over \<open>goog_hash.split(',')\<close> keeps the last part that
  starts with \<open>md5=\<close>; the declared value then goes through
  \<open>update_from_metadata\<close>, and so through \<open>_validate_hashes\<close>.
\<close>

definition xml_md5hash :: "string option \<Rightarrow> string option" where
  "xml_md5hash goog_hash =
     (case goog_hash of
        None \<Rightarrow> None
      | Some h \<Rightarrow>
          fold (\<lambda>part md5hash. if startswith part ''md5='' then Some (drop 4 part) else md5hash)
               (py_split '','' h) None)"

definition insert_xml ::
  "env \<Rightarrow> gcs_object \<Rightarrow> string \<Rightarrow> request \<Rightarrow> (error + gcs_object_version) \<times> gcs_object" where
  "insert_xml e self url req =
     (let m = extract_media e req
      in case increment_generation self of
           Inl err \<Rightarrow> (Inl err, self)
         | Inr g \<Rightarrow>
             (let self1 = self\<lparr>generation := Some g\<rparr>;
                  md5hash = xml_md5hash (headers req ''x-goog-hash'')
              in case GcsObjectVersion_init e url (bucket_name self1) (name self1) g req m of
                   Inl err \<Rightarrow> (Inl err, self1)
                 | Inr revision \<Rightarrow>
                     (case set_meta revision ''x_testbench_upload'' (JStr ''xml'') of
                        Inl err \<Rightarrow> (Inl err, self1)
                      | Inr revision1 \<Rightarrow>
                          (case md5hash of
                             None \<Rightarrow> install e self1 g revision1
                           | Some h \<Rightarrow>
                               (case set_meta revision1 ''x_testbench_md5'' (JStr h) of
                                  Inl err \<Rightarrow> (Inl err, self1)
                                | Inr revision2 \<Rightarrow>
                                    (case update_from_metadata e revision2 [(''md5Hash'', JStr h)] of
                                       (Inl err, _) \<Rightarrow> (Inl err, self1)
                                     | (Inr _, revision3) \<Rightarrow> install e self1 g revision3))))))"

subsection \<open>Multipart uploads\<close>

definition crlf :: string where
  "crlf = [CHR 0x0D, CHR 0x0A]"

text \<open>
  \<open>key.encode('ascii', 'ignore')\<close> on a Python 2 byte string decodes it as ASCII
  first, which raises on a byte above 127.
\<close>

definition is_ascii :: "string \<Rightarrow> bool" where
  "is_ascii s = list_all (\<lambda>c. (of_char c :: nat) < 128) s"

text \<open>
  The \<open>while\<close> loop of \<open>_parse_part\<close>. Nothing bounds it: when \<open>find\<close> returns
  \<open>-1\<close> the index goes back to \<open>1\<close>, and the loop can repeat the same step for
  ever. \<open>None\<close> is that case. \<open>key, value = header_line.split(': ', 2)\<close> raises
  \<open>ValueError\<close> unless the split gives exactly two parts.
\<close>

partial_function (option) parse_part_loop ::
  "string \<Rightarrow> string dict \<Rightarrow> int \<Rightarrow> int \<Rightarrow> (error + string dict \<times> int) option" where
  "parse_part_loop part hdrs index next_line =
     (if next_line \<noteq> index then
        (let fields = split_max 2 '': '' (py_slice part index next_line)
         in if length fields \<noteq> 2 then Some (Inl ValueError)
            else if \<not> is_ascii (fields ! 0) then Some (Inl UnicodeDecodeError)
            else parse_part_loop part (AList.update (fields ! 0) (fields ! 1) hdrs)
                   (next_line + 2) (py_find part crlf (next_line + 2)))
      else Some (Inr (hdrs, next_line)))"

definition parse_part :: "string \<Rightarrow> (error + string dict \<times> string) option" where
  "parse_part part =
     (case parse_part_loop part [] 0 (py_find part crlf 0) of
        None \<Rightarrow> None
      | Some (Inl err) \<Rightarrow> Some (Inl err)
      | Some (Inr (hdrs, next_line)) \<Rightarrow>
          Some (Inr (hdrs, drop (slice_bound (length part) (next_line + 2)) part)))"

text \<open>
  What \<open>insert_multipart\<close> does once both parts are parsed and the end marker is
  found, from \<open>self.generation += 1\<close> on. \<open>resource.get\<close> needs a dictionary.
\<close>

definition insert_parsed_multipart ::
  "env \<Rightarrow> gcs_object \<Rightarrow> string \<Rightarrow> request \<Rightarrow> string \<Rightarrow> string dict \<Rightarrow> string
     \<Rightarrow> (error + gcs_object_version) \<times> gcs_object" where
  "insert_parsed_multipart e self url req resource_body media_headers media_body =
     (case increment_generation self of
        Inl err \<Rightarrow> (Inl err, self)
      | Inr g \<Rightarrow>
          (let self1 = self\<lparr>generation := Some g\<rparr>
           in case GcsObjectVersion_init e url (bucket_name self1) (name self1) g req media_body of
                Inl err \<Rightarrow> (Inl err, self1)
              | Inr revision \<Rightarrow>
                  (case json_loads e resource_body of
                     None \<Rightarrow> (Inl ValueError, self1)
                   | Some resource \<Rightarrow>
                       (case set_meta revision ''x_testbench_upload'' (JStr ''multipart'') of
                          Inl err \<Rightarrow> (Inl err, self1)
                        | Inr revision1 \<Rightarrow>
                            (case resource of
                               JObj res \<Rightarrow>
                                 (case set_meta revision1 ''x_testbench_md5''
                                         (dget_default res ''md5Hash'' (JStr [])) of
                                    Inl err \<Rightarrow> (Inl err, self1)
                                  | Inr revision2 \<Rightarrow>
                                      (case update_from_metadata e revision2 res of
                                         (Inl err, _) \<Rightarrow> (Inl err, self1)
                                       | (Inr _, revision3) \<Rightarrow>
                                           (case map_of media_headers ''content-type'' of
                                              None \<Rightarrow> install e self1 g revision3
                                            | Some ct \<Rightarrow>
                                                (case update_from_metadata e revision3
                                                        [(''contentType'', JStr ct)] of
                                                   (Inl err, _) \<Rightarrow> (Inl err, self1)
                                                 | (Inr _, revision4) \<Rightarrow>
                                                     install e self1 g revision4))))
                             | _ \<Rightarrow> (Inl AttributeError, self1))))))"

text \<open>
  \<open>insert_multipart\<close>; \<open>None\<close> when \<open>_parse_part\<close> does not return.
  \<open>content_type.partition('boundary=')\<close> gives the empty string when the header
  has no boundary, never \<open>None\<close>, so the second check of the source cannot fire.
\<close>

definition insert_multipart ::
  "env \<Rightarrow> gcs_object \<Rightarrow> string \<Rightarrow> request
     \<Rightarrow> ((error + gcs_object_version) \<times> gcs_object) option" where
  "insert_multipart e self url req =
     (case headers req ''content-type'' of
        None \<Rightarrow>
          Some (Inl (ErrorResponse ''Missing or invalid content-type header in multipart upload''
                       default_status_code), self)
      | Some content_type \<Rightarrow>
          if \<not> startswith content_type ''multipart/related'' then
            Some (Inl (ErrorResponse ''Missing or invalid content-type header in multipart upload''
                         default_status_code), self)
          else
            (let boundary = (case split_first ''boundary='' content_type of
                               None \<Rightarrow> []
                             | Some (_, b) \<Rightarrow> b);
                 marker = ''--'' @ boundary @ crlf;
                 body = extract_media e req;
                 parts = py_split marker body
             in if length parts < 2 then Some (Inl IndexError, self)
                else
                  (case parse_part (parts ! 1) of
                     None \<Rightarrow> None
                   | Some (Inl err) \<Rightarrow> Some (Inl err, self)
                   | Some (Inr (resource_headers, resource_body)) \<Rightarrow>
                       if length parts < 3 then Some (Inl IndexError, self)
                       else
                         (case parse_part (parts ! 2) of
                            None \<Rightarrow> None
                          | Some (Inl err) \<Rightarrow> Some (Inl err, self)
                          | Some (Inr (media_headers, media_body0)) \<Rightarrow>
                              (let end = py_find media_body0
                                           (crlf @ ''--'' @ boundary @ ''--'' @ crlf) 0
                               in if end = - 1 then
                                    Some (Inl (ErrorResponse
                                                 ''Missing end marker (--%s--) in media body''
                                                 default_status_code), self)
                                  else
                                    Some (insert_parsed_multipart e self url req resource_body
                                            media_headers (py_slice media_body0 0 end)))))))"

subsection \<open>Rewrite\<close>

definition rewrite_fixed_args :: "string list" where
  "rewrite_fixed_args =
     [''destinationKmsKeyName'', ''destinationPredefinedAcl'',
      ''ifGenerationMatch'', ''ifGenerationNotMatch'',
      ''ifMetagenerationMatch'', ''ifMetagenerationNotMatch'',
      ''ifSourceGenerationMatch'', ''ifSourceGenerationNotMatch'',
      ''ifSourceMetagenerationMatch'', ''ifSourceMetagenerationNotMatch'',
      ''maxBytesRewrittenPerCall'', ''projection'', ''sourceGeneration'',
      ''userProject'']"

definition capture_rewrite_operation_arguments ::
  "request \<Rightarrow> string \<Rightarrow> string \<Rightarrow> string option dict" where
  "capture_rewrite_operation_arguments req destination_bucket destination_object =
     dict_update
       (fold (\<lambda>arg original_arguments. AList.update arg (args req arg) original_arguments)
             rewrite_fixed_args [])
       [(''destination_bucket'', Some destination_bucket),
        (''destination_object'', Some destination_object)]"

definition make_rewrite_token ::
  "rewrite_operation \<Rightarrow> string \<Rightarrow> string \<Rightarrow> int option \<Rightarrow> string" where
  "make_rewrite_token operation destination_bucket destination_object gen =
     b64encode (join_slash
       [str_int (op_id operation), destination_bucket, destination_object,
        str_int_opt gen, str_int (bytes_rewritten operation)])"

text \<open>
  \<open>make_rewrite_operation\<close>. It passes \<open>destination_object\<close> twice to
  \<open>capture_rewrite_operation_arguments\<close>, as the source does.
\<close>

definition make_rewrite_operation ::
  "env \<Rightarrow> gcs_object \<Rightarrow> request \<Rightarrow> string \<Rightarrow> string
     \<Rightarrow> (error + string \<times> rewrite_operation) \<times> gcs_object" where
  "make_rewrite_operation e self req destination_bucket destination_object =
     (case (case args req ''sourceGeneration'' of
              None \<Rightarrow> Inr (generation self)
            | Some s \<Rightarrow> (case py_int s of None \<Rightarrow> Inl ValueError | Some i \<Rightarrow> Inr (Some i))) of
        Inl err \<Rightarrow> (Inl err, self)
      | Inr gen \<Rightarrow>
          (let self1 = self\<lparr>rewrite_token_generator := rewrite_token_generator self + 1\<rparr>
           in case json_loads e (data req) of
                None \<Rightarrow> (Inl ValueError, self1)
              | Some body \<Rightarrow>
                  (let operation =
                         \<lparr>op_id = rewrite_token_generator self1,
                          original_arguments =
                            capture_rewrite_operation_arguments req
                              destination_object destination_object,
                          actual_generation = gen,
                          bytes_rewritten = 0,
                          op_body = body\<rparr>
                   in (Inr (make_rewrite_token operation destination_bucket
                              destination_object gen, operation), self1))))"

definition rewrite_finish ::
  "env \<Rightarrow> gcs_object \<Rightarrow> string \<Rightarrow> request \<Rightarrow> json \<Rightarrow> gcs_object_version
     \<Rightarrow> (error + gcs_object_version) \<times> gcs_object" where
  "rewrite_finish e self url req body source =
     (let m = media source
      in case check_preconditions self req of
           Inl err \<Rightarrow> (Inl err, self)
         | Inr _ \<Rightarrow>
             (case increment_generation self of
                Inl err \<Rightarrow> (Inl err, self)
              | Inr g \<Rightarrow>
                  (let self1 = self\<lparr>generation := Some g\<rparr>
                   in case GcsObjectVersion_init e url (bucket_name self1) (name self1) g req m of
                        Inl err \<Rightarrow> (Inl err, self1)
                      | Inr revision \<Rightarrow>
                          (case update_from_json e revision body of
                             (Inl err, _) \<Rightarrow> (Inl err, self1)
                           | (Inr _, revision1) \<Rightarrow> install e self1 g revision1))))"

text \<open>
  The objects of the testbench live in a store: \<open>heap\<close> maps a reference to the
  object it denotes, \<open>next_ref\<close> is the next fresh reference, and \<open>GCS_OBJECTS\<close> is
  the registry of \<open>testbench_utils\<close>.

  Modelled from the spec: \<open>testbench_utils.get_object\<close> and
  \<open>testbench_utils.insert_object\<close> are not among the sources. An Object is
  "identified by \<open>(bucket, name)\<close>"; the rewrite finishes "by
  materializing/overwriting the destination Object's revision". So \<open>get_object\<close>
  returns the key of the pair and the object registered under it, or the default
  it is given, and \<open>insert_object\<close> registers the object under the key.
\<close>

record world =
  heap :: "nat \<Rightarrow> gcs_object"
  next_ref :: nat
  GCS_OBJECTS :: "((string \<times> string) \<times> nat) list"

definition new_object :: "world \<Rightarrow> gcs_object \<Rightarrow> nat \<times> world" where
  "new_object w obj =
     (next_ref w, w\<lparr>heap := (heap w)(next_ref w := obj), next_ref := Suc (next_ref w)\<rparr>)"

definition get_object :: "world \<Rightarrow> string \<Rightarrow> string \<Rightarrow> nat \<Rightarrow> (string \<times> string) \<times> nat" where
  "get_object w bname oname default_value =
     ((bname, oname),
      (case map_of (GCS_OBJECTS w) (bname, oname) of None \<Rightarrow> default_value | Some r \<Rightarrow> r))"

definition insert_object :: "world \<Rightarrow> string \<times> string \<Rightarrow> nat \<Rightarrow> world" where
  "insert_object w object_path r = w\<lparr>GCS_OBJECTS := AList.update object_path r (GCS_OBJECTS w)\<rparr>"

definition set_object :: "world \<Rightarrow> nat \<Rightarrow> gcs_object \<Rightarrow> world" where
  "set_object w r obj = w\<lparr>heap := (heap w)(r := obj)\<rparr>"

text \<open>
  The first statements of \<open>rewrite_step\<close> after the body is parsed: with a token,
  \<open>self.rewrite_operations.pop(rewrite_token, None)\<close>; without one (or with the
  empty string), \<open>make_rewrite_operation\<close>, to which the source passes
  \<open>destination_bucket\<close> twice.
\<close>

definition take_rewrite_operation ::
  "env \<Rightarrow> gcs_object \<Rightarrow> request \<Rightarrow> string
     \<Rightarrow> (error + rewrite_operation) \<times> gcs_object" where
  "take_rewrite_operation e self req destination_bucket =
     (let rewrite_token = args req ''rewriteToken''
      in if rewrite_token \<noteq> None \<and> rewrite_token \<noteq> Some [] then
           (case map_of (rewrite_operations self) (the rewrite_token) of
              None \<Rightarrow> (Inl (ErrorResponse ''Invalid or expired token in rewrite'' 410), self)
            | Some rewrite \<Rightarrow>
                (Inr rewrite,
                 self\<lparr>rewrite_operations :=
                        AList.delete (the rewrite_token) (rewrite_operations self)\<rparr>))
         else
           (case make_rewrite_operation e self req destination_bucket destination_bucket of
              (Inl err, self1) \<Rightarrow> (Inl err, self1)
            | (Inr (_, rewrite), self1) \<Rightarrow> (Inr rewrite, self1)))"

text \<open>
  The branch of \<open>rewrite_step\<close> that completes the rewrite, when the bytes
  rewritten reach the size of the source: the destination is the registered
  object, or a new \<open>GcsObject\<close>; \<open>rewrite_finish\<close> runs on it, and it is
  registered. An exception of \<open>rewrite_finish\<close> leaves the destination as far as
  it got, unregistered.
\<close>

definition rewrite_complete ::
  "env \<Rightarrow> world \<Rightarrow> string \<Rightarrow> request \<Rightarrow> json \<Rightarrow> gcs_object_version \<Rightarrow> json dict
     \<Rightarrow> string \<Rightarrow> string \<Rightarrow> (error + json dict) \<times> world" where
  "rewrite_complete e w1 url req body source result destination_bucket destination_object =
     (let total = int (length (media source));
          (dflt, w2) = new_object w1 (GcsObject_init destination_bucket destination_object);
          (object_path, destination) = get_object w2 destination_bucket destination_object dflt
      in case rewrite_finish e (heap w2 destination) url req body source of
           (Inl err, dest1) \<Rightarrow> (Inl err, set_object w2 destination dest1)
         | (Inr revision, dest1) \<Rightarrow>
             (Inr (dict_update
                     (AList.update ''resource'' (JObj (metadata revision))
                        (AList.update ''done'' (JBool True) result))
                     [(''totalBytesRewritten'', JInt total), (''rewriteToken'', JStr [])]),
              insert_object (set_object w2 destination dest1) object_path destination))"

text \<open>
  \<open>rewrite_step\<close> from the comparison of the arguments on, for the operation
  \<open>rewrite\<close> taken above; \<open>w1\<close> is the store after that step. \<open>diff\<close> is the
  symmetric difference of \<open>set(current_arguments)\<close> and
  \<open>set(original_arguments)\<close>, and the set of a dictionary is the set of its keys.
  A source that is \<open>None\<close> raises \<open>AttributeError\<close> at
  \<open>source.validate_encryption_for_read\<close>.
\<close>

definition rewrite_advance ::
  "env \<Rightarrow> world \<Rightarrow> nat \<Rightarrow> string \<Rightarrow> request \<Rightarrow> json \<Rightarrow> rewrite_operation
     \<Rightarrow> string \<Rightarrow> string \<Rightarrow> (error + json dict) \<times> world" where
  "rewrite_advance e w1 self url req body rewrite destination_bucket destination_object =
     (let current_arguments =
            capture_rewrite_operation_arguments req destination_bucket destination_object;
          current_keys = set (map fst current_arguments);
          original_keys = set (map fst (original_arguments rewrite));
          diff = (current_keys - original_keys) \<union> (original_keys - current_keys)
      in if diff \<noteq> {} then
           (Inl (ErrorResponse ''Mismatched arguments to rewrite'' 412), w1)
         else
           (case get_revision_by_generation (heap w1 self) (actual_generation rewrite) of
              None \<Rightarrow> (Inl AttributeError, w1)
            | Some source \<Rightarrow>
                (case validate_encryption_for_read e source req
                        ''x-goog-copy-source-encryption'' of
                   Inl err \<Rightarrow> (Inl err, w1)
                 | Inr _ \<Rightarrow>
                     (let total = bytes_rewritten rewrite + 1024 * 1024;
                          result = [(''kind'', JStr ''storage#rewriteResponse''),
                                    (''objectSize'', JInt (int (length (media source))))]
                      in if int (length (media source)) \<le> total then
                           rewrite_complete e w1 url req body source result
                             destination_bucket destination_object
                         else
                           (let rewrite1 = rewrite\<lparr>bytes_rewritten := total\<rparr>;
                                rewrite_token = make_rewrite_token rewrite1
                                  destination_bucket destination_object
                                  (Some (v_generation source))
                            in (Inr (dict_update
                                       (AList.update ''done'' (JBool False) result)
                                       [(''totalBytesRewritten'', JInt total),
                                        (''rewriteToken'', JStr rewrite_token)]),
                                set_object w1 self
                                  ((heap w1 self)\<lparr>rewrite_operations :=
                                      AList.update rewrite_token rewrite1
                                        (rewrite_operations (heap w1 self))\<rparr>)))))))"

text \<open>
  \<open>rewrite_step\<close> on the object at reference \<open>self\<close>: the body is parsed first,
  then the operation is taken, then the step advances it.
\<close>

definition rewrite_step ::
  "env \<Rightarrow> world \<Rightarrow> nat \<Rightarrow> string \<Rightarrow> request \<Rightarrow> string \<Rightarrow> string
     \<Rightarrow> (error + json dict) \<times> world" where
  "rewrite_step e w self url req destination_bucket destination_object =
     (case json_loads e (data req) of
        None \<Rightarrow> (Inl ValueError, w)
      | Some body \<Rightarrow>
          (case take_rewrite_operation e (heap w self) req destination_bucket of
             (Inl err, self1) \<Rightarrow> (Inl err, set_object w self self1)
           | (Inr rewrite, self1) \<Rightarrow>
               rewrite_advance e (set_object w self self1) self url req body rewrite
                 destination_bucket destination_object))"

section \<open>The rules of the specification\<close>








section \<open>Invariants of a revision\<close>

text \<open>
  An entry of the ACL that \<open>index_acl\<close> accepts: a dictionary with a string under
  \<open>entity\<close>. A revision is ready for \<open>insert_acl\<close> when every entry of its ACL is
  one, and \<open>id\<close> and \<open>selfLink\<close> are strings, as \<open>update_from_metadata\<close> leaves
  them.
\<close>

definition acl_entry_ok :: "json \<Rightarrow> bool" where
  "acl_entry_ok x =
     (case x of
        JObj kvs \<Rightarrow> (case map_of kvs ''entity'' of Some (JStr ent) \<Rightarrow> True | _ \<Rightarrow> False)
      | _ \<Rightarrow> False)"

definition acl_ready :: "gcs_object_version \<Rightarrow> bool" where
  "acl_ready self =
     ((case dget_default (metadata self) ''acl'' (JList []) of
         JList es \<Rightarrow> list_all acl_entry_ok es
       | _ \<Rightarrow> False)
      \<and> (\<exists>i. dget_default (metadata self) ''id'' (JStr []) = JStr i)
      \<and> (\<exists>l. dget (metadata self) ''selfLink'' = JStr l))"

text \<open>The policies that \<open>_update_predefined_acl\<close> knows.\<close>

definition predefined_acl_names :: "string list" where
  "predefined_acl_names =
     [''authenticatedRead'', ''bucketOwnerFullControl'', ''bucketOwnerRead'', ''private'',
      ''projectPrivate'', ''publicRead'']"

text \<open>
  A revision in the state the constructor keeps from its first step on: the
  fields it was given, metageneration 1, the checksum of its payload, no custom
  metadata yet, and an ACL that \<open>insert_acl\<close> can index.
\<close>

definition constructed ::
  "env \<Rightarrow> string \<Rightarrow> string \<Rightarrow> int \<Rightarrow> string \<Rightarrow> gcs_object_version \<Rightarrow> bool" where
  "constructed e bname oname g m s =
     (media s = m \<and> v_generation s = g \<and> v_bucket_name s = bname \<and> v_name s = oname
      \<and> map_of (metadata s) ''metageneration'' = Some (JInt 1)
      \<and> map_of (metadata s) ''md5Hash'' = Some (JStr (md5_hash e m))
      \<and> map_of (metadata s) ''metadata'' = None
      \<and> acl_ready s)"

text \<open>
  The payload a revision stores, and a request that the constructor accepts for a
  bucket: no encryption key, a bucket that exists and has an owner entity (or
  none), and ACL directives that name a known policy.
\<close>

definition stored_payload :: "env \<Rightarrow> request \<Rightarrow> string \<Rightarrow> string" where
  "stored_payload e req m =
     (if headers req ''x-goog-testbench-instructions'' = Some ''inject-upload-data-error''
      then corrupt_media e m else m)"

definition constructible :: "env \<Rightarrow> string \<Rightarrow> request \<Rightarrow> bool" where
  "constructible e bname req =
     (headers req ''x-goog-encryption-key'' = None
      \<and> (\<exists>b owner_entity. lookup_bucket e bname = Inr b
             \<and> bucket_owner_entity b = Inr owner_entity)
      \<and> (args req ''predefinedAcl'' = None
           \<or> (\<exists>n \<in> set predefined_acl_names. args req ''predefinedAcl'' = Some n))
      \<and> (headers req ''x-goog-acl'' = None
           \<or> (\<exists>acl p. headers req ''x-goog-acl'' = Some acl
                 \<and> map_of acl2json_mapping acl = Some p)))"

text \<open>The error of \<open>_validate_hashes\<close>.\<close>

definition mismatched_md5 :: error where
  "mismatched_md5 = ErrorResponse ''Mismatched MD5 hash expected=%s, actual=%s'' 400"

section \<open>Terms for the rewrite\<close>

text \<open>
  The revision a rewrite started by a request reads: the one at \<open>sourceGeneration\<close>
  when the request has it, the current one otherwise. And the error of
  \<open>rewrite_step\<close> for a token that is not in \<open>self.rewrite_operations\<close>.
\<close>

definition rewrite_source :: "gcs_object \<Rightarrow> request \<Rightarrow> gcs_object_version option" where
  "rewrite_source self req =
     get_revision_by_generation self
       (case args req ''sourceGeneration'' of None \<Rightarrow> generation self | Some s \<Rightarrow> py_int s)"

definition gone :: error where
  "gone = ErrorResponse ''Invalid or expired token in rewrite'' 410"

section \<open>Sequences of uploads\<close>

text \<open>
  One upload call on an object: \<open>insert\<close>, \<open>insert_multipart\<close> or \<open>insert_xml\<close>,
  with the URL and the request. \<open>run_uploads\<close> makes the calls one after the
  other and returns, for each, the revision it returned and the object it left;
  it is \<open>None\<close> as soon as a call raises (or does not return).
\<close>

datatype upload =
    Insert string request
  | InsertMultipart string request
  | InsertXml string request

fun run_upload ::
  "env \<Rightarrow> gcs_object \<Rightarrow> upload \<Rightarrow> ((error + gcs_object_version) \<times> gcs_object) option" where
  "run_upload e self (Insert url req) = Some (insert_simple e self url req)"
| "run_upload e self (InsertMultipart url req) = insert_multipart e self url req"
| "run_upload e self (InsertXml url req) = Some (insert_xml e self url req)"

fun run_uploads ::
  "env \<Rightarrow> gcs_object \<Rightarrow> upload list \<Rightarrow> (gcs_object_version \<times> gcs_object) list option" where
  "run_uploads e self [] = Some []"
| "run_uploads e self (u # us) =
     (case run_upload e self u of
        Some (Inr revision, self') \<Rightarrow>
          (case run_uploads e self' us of
             None \<Rightarrow> None
           | Some rest \<Rightarrow> Some ((revision, self') # rest))
      | _ \<Rightarrow> None)"

section \<open>Concrete collaborators and requests\<close>

text \<open>
  An environment to run the model in: a fixed clock and digest, a \<open>json.loads\<close>
  that knows the empty object, a bucket named \<open>bucket\<close> with versioning off and
  a bucket named \<open>versioned\<close> with versioning on, neither with an owner, entity names that are canonical already, and an encryption check that
  accepts every header triple.
\<close>

definition example_env :: env where
  "example_env =
     \<lparr>timestamp = ''2018-11-03T00:00:00Z'',
      md5_digest = (\<lambda>m. ''0123456789abcdef''),
      json_loads = (\<lambda>s. if strip s = ''{}'' then Some (JObj []) else None),
      corrupt_media = (\<lambda>m. CHR ''x'' # m),
      extract_media = data,
      canonical_entity_name = (\<lambda>s. s),
      lookup_bucket = (\<lambda>b. if b = ''bucket''
                            then Inr \<lparr>versioning_enabled = False, bucket_metadata = []\<rparr>
                            else if b = ''versioned''
                            then Inr \<lparr>versioning_enabled = True, bucket_metadata = []\<rparr>
                            else Inl (ErrorResponse ''Bucket %s not found'' 404)),
      validate_customer_encryption_headers = (\<lambda>k h a. None),
      csek_error = ErrorResponse ''Missing a SHA256 hash of the encryption key'' 400\<rparr>"

text \<open>A request with no header and no query parameter, and the body \<open>{}\<close>.\<close>

definition plain_request :: request where
  "plain_request = \<lparr>headers = (\<lambda>h. None), args = (\<lambda>a. None), data = ''{}''\<rparr>"

definition example_url :: string where
  "example_url = ''http://localhost:9000/''"

text \<open>
  A revision as the constructor builds it for the payload \<open>hello\<close>, and an object
  that holds it as generation 1.
\<close>

definition example_revision :: gcs_object_version where
  "example_revision =
     projr (GcsObjectVersion_init example_env example_url ''bucket'' ''object'' 1
              plain_request ''hello'')"


text \<open>
  An object of the versioned bucket that holds generations 1 and 2, the second
  being current.
\<close>

definition two_revisions_object :: gcs_object where
  "two_revisions_object =
     \<lparr>bucket_name = ''versioned'', name = ''object'', generation = Some 2,
      revisions =
        [(1, projr (GcsObjectVersion_init example_env example_url ''versioned'' ''object'' 1
                      plain_request ''hello'')),
         (2, projr (GcsObjectVersion_init example_env example_url ''versioned'' ''object'' 2
                      plain_request ''world''))],
      rewrite_token_generator = 0, rewrite_operations = []\<rparr>"

text \<open>The request \<open>?generation=2\<close>.\<close>

definition generation_2_request :: request where
  "generation_2_request =
     \<lparr>headers = (\<lambda>h. None),
      args = (\<lambda>a. if a = ''generation'' then Some ''2'' else None),
      data = []\<rparr>"

text \<open>A metadata update that declares a checksum the payload does not have.\<close>

definition checksum_patch :: "json dict" where
  "checksum_patch = [(''md5Hash'', JStr ''AAAA'')]"

text \<open>The example revision after an update that sets its ACL to the empty list.\<close>

definition empty_acl_revision :: gcs_object_version where
  "empty_acl_revision =
     snd (update_from_metadata example_env example_revision [(''acl'', JList [])])"

text \<open>
  Uploads: an XML request that declares a checksum in \<open>x-goog-hash\<close>, with the
  payload \<open>hello\<close>, and a multipart request with boundary \<open>B\<close>, a resource part
  \<open>{}\<close> and the media \<open>hello\<close>. \<open>example_md5\<close> is the checksum that
  \<open>example_env\<close> computes for every payload.
\<close>

definition xml_request :: "string \<Rightarrow> request" where
  "xml_request goog_hash =
     \<lparr>headers = (\<lambda>h. if h = ''x-goog-hash'' then Some goog_hash else None),
      args = (\<lambda>a. None), data = ''hello''\<rparr>"

definition example_md5 :: string where
  "example_md5 = ''MDEyMzQ1Njc4OWFiY2RlZg==''"

definition example_goog_hash :: string where
  "example_goog_hash = ''md5=MDEyMzQ1Njc4OWFiY2RlZg==''"

definition multipart_body :: string where
  "multipart_body =
     ''--B'' @ crlf @ ''content-type: application/json'' @ crlf @ crlf @ ''{}'' @ crlf @
     ''--B'' @ crlf @ ''content-type: text/plain'' @ crlf @ crlf @ ''hello'' @ crlf @
     ''--B--'' @ crlf"

definition part1 :: string where
  "part1 = ''content-type: application/json'' @ crlf @ crlf @ ''{}'' @ crlf"

definition part2 :: string where
  "part2 = ''content-type: text/plain'' @ crlf @ crlf @ ''hello'' @ crlf @ ''--B--'' @ crlf"

definition multipart_request :: request where
  "multipart_request =
     \<lparr>headers = (\<lambda>h. if h = ''content-type'' then Some ''multipart/related; boundary=B''
                      else None),
      args = (\<lambda>a. None), data = multipart_body\<rparr>"

definition example_uploads :: "upload list" where
  "example_uploads =
     [Insert example_url plain_request,
      InsertXml example_url (xml_request example_goog_hash),
      InsertMultipart example_url multipart_request]"


text \<open>
  A rewrite: the object \<open>source\<close> of the bucket \<open>bucket\<close> holds one revision of
  3 MiB and lives at reference 0 of the store, where it is registered; no object
  \<open>copy\<close> is registered. \<open>returned_token\<close> reads the \<open>rewriteToken\<close> of a
  response. The first call has no token; a continuation presents one, with the
  body \<open>{}\<close>; \<open>changed_request\<close> also sets \<open>ifGenerationMatch\<close>, which the first
  call did not have, and \<open>malformed_request\<close> has a body that is no JSON.
\<close>

definition big_media :: string where
  "big_media = replicate 3145728 (CHR ''a'')"

definition source_object :: gcs_object where
  "source_object =
     \<lparr>bucket_name = ''bucket'', name = ''source'', generation = Some 1,
      revisions =
        [(1, projr (GcsObjectVersion_init example_env example_url ''bucket'' ''source'' 1
                      plain_request big_media))],
      rewrite_token_generator = 0, rewrite_operations = []\<rparr>"

definition rewrite_world :: world where
  "rewrite_world =
     \<lparr>heap = (\<lambda>r. GcsObject_init [] [])(0 := source_object),
      next_ref = 1,
      GCS_OBJECTS = [((''bucket'', ''source''), 0)]\<rparr>"

definition returned_token :: "(error + json dict) \<times> world \<Rightarrow> string" where
  "returned_token r =
     (case fst r of
        Inl err \<Rightarrow> []
      | Inr res \<Rightarrow> (case dget res ''rewriteToken'' of JStr t \<Rightarrow> t | _ \<Rightarrow> []))"

definition continuation_request :: "string \<Rightarrow> request" where
  "continuation_request t =
     \<lparr>headers = (\<lambda>h. None),
      args = (\<lambda>a. if a = ''rewriteToken'' then Some t else None),
      data = ''{}''\<rparr>"

definition changed_request :: "string \<Rightarrow> request" where
  "changed_request t =
     \<lparr>headers = (\<lambda>h. None),
      args = (\<lambda>a. if a = ''rewriteToken'' then Some t
                  else if a = ''ifGenerationMatch'' then Some ''7'' else None),
      data = ''{}''\<rparr>"

definition malformed_request :: "string \<Rightarrow> request" where
  "malformed_request t =
     \<lparr>headers = (\<lambda>h. None),
      args = (\<lambda>a. if a = ''rewriteToken'' then Some t else None),
      data = ''{''\<rparr>"

definition first_call :: "(error + json dict) \<times> world" where
  "first_call =
     rewrite_step example_env rewrite_world 0 example_url plain_request ''bucket'' ''copy''"

definition second_call :: "(error + json dict) \<times> world" where
  "second_call =
     rewrite_step example_env (snd first_call) 0 example_url
       (continuation_request (returned_token first_call)) ''bucket'' ''copy''"


section \<open>Dictionaries\<close>

lemma map_of_dict_update:
  "map_of (dict_update d d2) k =
     (case map_of (rev d2) k of None \<Rightarrow> map_of d k | Some v \<Rightarrow> Some v)"
  unfolding dict_update_def
proof (induction d2 arbitrary: d)
  case Nil
  then show ?case by simp
next
  case (Cons a d2)
  obtain k' v' where a: "a = (k', v')" by (cases a)
  show ?case using Cons [of "AList.update k' v' d"]
    by (auto simp: a AList.update_conv' split: option.splits)
qed

section \<open>What the steps of the constructor leave alone\<close>

lemma update_from_metadata_metageneration:
  assumes "update_from_metadata e self md = (Inr u, self')"
  shows "\<exists>mg. py_add_one (dget_default (dict_update (metadata self) md)
                 ''metageneration'' (JInt 0)) = Inr mg
            \<and> map_of (metadata self') ''metageneration'' = Some mg"
  using assms
  by (auto simp: update_from_metadata_def Let_def dget_default_def map_of_dict_update
        AList.update_conv' split: sum.splits option.splits if_splits)

lemma insert_acl_other_keys:
  "insert_acl e self ent role = (r, self') \<Longrightarrow> k \<noteq> ''acl'' \<Longrightarrow>
     map_of (metadata self') k = map_of (metadata self) k"
  by (auto simp: insert_acl_def Let_def AList.update_conv' split: sum.splits)

lemma insert_acls_other_keys:
  "insert_acls e self ps = (r, self') \<Longrightarrow> k \<noteq> ''acl'' \<Longrightarrow>
     map_of (metadata self') k = map_of (metadata self) k"
proof (induction ps arbitrary: self)
  case Nil
  then show ?case by simp
next
  case (Cons p ps)
  obtain ent role where p: "p = (ent, role)" by (cases p)
  obtain r1 s1 where i: "insert_acl e self ent role = (r1, s1)"
    by (cases "insert_acl e self ent role")
  show ?case
  proof (cases r1)
    case (Inl err)
    with Cons.prems i p have "self' = s1" by simp
    with insert_acl_other_keys [OF i Cons.prems(2)] show ?thesis by simp
  next
    case (Inr x)
    with Cons.prems i p have "insert_acls e s1 ps = (r, self')" by simp
    from Cons.IH [OF this Cons.prems(2)] insert_acl_other_keys [OF i Cons.prems(2)]
    show ?thesis by simp
  qed
qed

lemma update_predefined_acl_other_keys:
  "update_predefined_acl e self p = (r, self') \<Longrightarrow> k \<noteq> ''acl'' \<Longrightarrow>
     map_of (metadata self') k = map_of (metadata self) k"
  unfolding update_predefined_acl_def Let_def
  by (auto split: prod.splits sum.splits if_splits
        dest!: insert_acl_other_keys [where k = k] insert_acls_other_keys [where k = k])

lemma capture_customer_encryption_other_keys:
  "capture_customer_encryption e self req = Inr self' \<Longrightarrow> k \<noteq> ''customerEncryption'' \<Longrightarrow>
     map_of (metadata self') k = map_of (metadata self) k"
  by (auto simp: capture_customer_encryption_def Let_def AList.update_conv'
        split: if_splits option.splits)

lemma initial_metadata_metageneration:
  "map_of (initial_metadata e g req m) ''metageneration'' = Some (JInt 0)"
  by (simp add: initial_metadata_def Let_def AList.update_conv' split: option.splits)

lemma GcsObjectVersion_init_Inr:
  assumes "GcsObjectVersion_init e url bname oname g req m0 = Inr revision"
  obtains s1 s2 s3 where
    "update_from_metadata e (initial_revision e url bname oname g req m0) [] = (Inr (), s1)"
    "capture_customer_encryption e s1 req = Inr s2"
    "update_predefined_acl e s2 (args req ''predefinedAcl'') = (Inr (), s3)"
    "(headers req ''x-goog-acl'' = None \<and> revision = s3) \<or>
     (\<exists>acl p. headers req ''x-goog-acl'' = Some acl \<and> map_of acl2json_mapping acl = Some p \<and>
        update_predefined_acl e s3 (Some p) = (Inr (), revision))"
  using assms unfolding GcsObjectVersion_init_def
  by (auto split: prod.splits sum.splits option.splits)

section \<open>update_from_metadata\<close>

lemma update_from_metadata_raises:
  assumes "py_add_one (dget_default (dict_update (metadata self) md) ''metageneration'' (JInt 0))
             = Inl err"
  shows "update_from_metadata e self md = (Inl err, self)"
  using assms
  by (simp add: update_from_metadata_def Let_def dget_default_def map_of_dict_update
        AList.update_conv')

lemma update_from_metadata_fields:
  assumes "update_from_metadata e self md = (r, self')"
  shows "media self' = media self" "v_generation self' = v_generation self"
    "v_bucket_name self' = v_bucket_name self" "v_name self' = v_name self"
    "object_id self' = object_id self" "v_gcs_url self' = v_gcs_url self"
  using assms
  by (auto simp: update_from_metadata_def Let_def split: sum.splits)

lemma update_from_metadata_map_of:
  assumes "update_from_metadata e self md = (r, self')"
    and "py_add_one (dget_default (dict_update (metadata self) md) ''metageneration'' (JInt 0))
           = Inr mg"
  shows "map_of (metadata self') ''metageneration'' = Some mg"
    "map_of (metadata self') ''id'' = Some (JStr (object_id self))"
    "map_of (metadata self') ''selfLink'' = Some (JStr (v_gcs_url self @ v_name self))"
    "k \<notin> {''kind'', ''bucket'', ''name'', ''id'', ''selfLink'', ''projectNumber'', ''updated'',
           ''metageneration''}
       \<Longrightarrow> map_of (metadata self') k = map_of (dict_update (metadata self) md) k"
  using assms
  by (auto simp: update_from_metadata_def Let_def dget_default_def map_of_dict_update
        AList.update_conv' split: sum.splits)

lemma update_from_metadata_result:
  assumes "update_from_metadata e self md = (r, self')"
    and "py_add_one (dget_default (dict_update (metadata self) md) ''metageneration'' (JInt 0))
           = Inr mg"
  shows "r = (if dget_default (dict_update (metadata self) md) ''md5Hash'' (JStr [])
                  \<noteq> JStr (md5_hash e (media self))
              then Inl (ErrorResponse ''Mismatched MD5 hash expected=%s, actual=%s'' 400)
              else Inr ())"
proof -
  have "dget_default (metadata self') ''md5Hash'' (JStr [])
          = dget_default (dict_update (metadata self) md) ''md5Hash'' (JStr [])"
    using update_from_metadata_map_of(4) [OF assms, of "''md5Hash''"]
    by (simp add: dget_default_def)
  moreover have "r = validate_hashes e self'"
    using assms by (auto simp: update_from_metadata_def Let_def dget_default_def
        map_of_dict_update AList.update_conv' split: sum.splits)
  ultimately show ?thesis
    using update_from_metadata_fields(1) [OF assms(1)]
    by (simp add: validate_hashes_def Let_def default_status_code_def)
qed

section \<open>The ACL\<close>

lemma list_all_snd_update:
  "list_all P (map snd al) \<Longrightarrow> P v \<Longrightarrow> list_all P (map snd (AList.update k v al))"
  by (induction al) auto

lemma index_acl_entries_ok:
  assumes "list_all acl_entry_ok es" and "list_all acl_entry_ok (map snd indexed)"
  shows "\<exists>indexed'. index_acl_entries es indexed = Inr indexed'
           \<and> list_all acl_entry_ok (map snd indexed')"
  using assms
proof (induction es arbitrary: indexed)
  case Nil
  then show ?case by simp
next
  case (Cons x es)
  from Cons.prems(1) obtain kvs ent where
    x: "x = JObj kvs" "map_of kvs ''entity'' = Some (JStr ent)"
    by (auto simp: acl_entry_ok_def split: json.splits option.splits)
  have "list_all acl_entry_ok (map snd (AList.update ent (JObj kvs) indexed))"
    using Cons.prems x by (intro list_all_snd_update) simp_all
  from Cons.IH [OF _ this] Cons.prems(1) x show ?case by simp
qed

lemma insert_acl_fields:
  assumes "insert_acl e self ent role = (r, self')"
  shows "media self' = media self" "v_generation self' = v_generation self"
    "v_bucket_name self' = v_bucket_name self" "v_name self' = v_name self"
    "object_id self' = object_id self" "v_gcs_url self' = v_gcs_url self"
  using assms by (auto simp: insert_acl_def Let_def split: sum.splits)

lemma insert_acl_ready:
  assumes "acl_ready self"
  shows "\<exists>entry self'. insert_acl e self ent role = (Inr entry, self') \<and> acl_ready self'"
proof -
  from assms obtain es i l where
    es: "dget_default (metadata self) ''acl'' (JList []) = JList es" "list_all acl_entry_ok es"
    and i: "dget_default (metadata self) ''id'' (JStr []) = JStr i"
    and l: "dget (metadata self) ''selfLink'' = JStr l"
    by (auto simp: acl_ready_def split: json.splits)
  from index_acl_entries_ok [OF es(2), of "[]"] obtain indexed where
    ix: "index_acl_entries es [] = Inr indexed" "list_all acl_entry_ok (map snd indexed)"
    by auto
  define entity where "entity = canonical_entity_name e ent"
  define entry where "entry = JObj
      [(''bucket'', JStr (v_bucket_name self)),
       (''email'', JStr (if startswith entity ''user-'' then entity else [])),
       (''entity'', JStr entity),
       (''entity_id'', JStr []),
       (''etag'', dget_default (metadata self) ''etag'' (JStr ''XYZ='')),
       (''generation'', JInt (v_generation self)),
       (''id'', JStr (i @ ''/'' @ entity)),
       (''kind'', JStr ''storage#objectAccessControl''),
       (''object'', JStr (v_name self)),
       (''role'', JStr role),
       (''selfLink'', JStr (l @ ''/acl/'' @ entity))]"
  define self' where "self' = self\<lparr>metadata := AList.update ''acl''
       (JList (map snd (AList.update entity entry indexed))) (metadata self)\<rparr>"
  have run: "insert_acl e self ent role = (Inr entry, self')"
    by (simp add: insert_acl_def Let_def index_acl_def es i l ix entity_def [symmetric]
          entry_def self'_def)
  have ok: "acl_entry_ok entry" by (simp add: acl_entry_ok_def entry_def)
  have "list_all acl_entry_ok (map snd (AList.update entity entry indexed))"
    using ix(2) ok by (rule list_all_snd_update)
  with i l have "acl_ready self'"
    by (simp add: acl_ready_def self'_def dget_default_def dget_def AList.update_conv')
  with run show ?thesis by blast
qed

lemma insert_acls_ready:
  assumes "acl_ready self"
  shows "\<exists>self'. insert_acls e self ps = (Inr (), self') \<and> acl_ready self'"
  using assms
proof (induction ps arbitrary: self)
  case Nil
  then show ?case by simp
next
  case (Cons p ps)
  obtain ent role where p: "p = (ent, role)" by (cases p)
  from insert_acl_ready [OF Cons.prems, of e ent role] obtain entry s1 where
    s1: "insert_acl e self ent role = (Inr entry, s1)" "acl_ready s1" by blast
  from Cons.IH [OF s1(2)] s1(1) p show ?case by simp
qed

lemma insert_acls_fields:
  assumes "insert_acls e self ps = (r, self')"
  shows "media self' = media self \<and> v_generation self' = v_generation self
    \<and> v_bucket_name self' = v_bucket_name self \<and> v_name self' = v_name self
    \<and> object_id self' = object_id self \<and> v_gcs_url self' = v_gcs_url self"
  using assms
proof (induction ps arbitrary: self)
  case Nil
  then show ?case by simp
next
  case (Cons p ps)
  obtain ent role where p: "p = (ent, role)" by (cases p)
  obtain r1 s1 where i: "insert_acl e self ent role = (r1, s1)"
    by (cases "insert_acl e self ent role")
  show ?case
  proof (cases r1)
    case (Inl err)
    with Cons.prems i p have "self' = s1" by simp
    with insert_acl_fields [OF i] show ?thesis by simp
  next
    case (Inr x)
    with Cons.prems i p have "insert_acls e s1 ps = (r, self')" by simp
    from Cons.IH [OF this] insert_acl_fields [OF i] show ?thesis by simp
  qed
qed

lemma update_predefined_acl_fields:
  assumes "update_predefined_acl e self p = (r, self')"
  shows "media self' = media self \<and> v_generation self' = v_generation self
    \<and> v_bucket_name self' = v_bucket_name self \<and> v_name self' = v_name self
    \<and> object_id self' = object_id self \<and> v_gcs_url self' = v_gcs_url self"
proof -
  obtain r1 s1 where i: "insert_acl e self (canonical_entity_name e ''project-owners-123456789'') ''OWNER'' = (r1, s1)"
    by (cases "insert_acl e self (canonical_entity_name e ''project-owners-123456789'') ''OWNER''")
  note f1 = insert_acl_fields [OF i]
  from assms i have "self' = s1 \<or> (\<exists>ps. insert_acls e s1 ps = (r, self'))"
    unfolding update_predefined_acl_def Let_def
    by (auto simp del: insert_acls.simps split: sum.splits if_splits)
  then show ?thesis
  proof
    assume "self' = s1" with f1 show ?thesis by simp
  next
    assume "\<exists>ps. insert_acls e s1 ps = (r, self')"
    then obtain ps where "insert_acls e s1 ps = (r, self')" ..
    from insert_acls_fields [OF this] f1 show ?thesis by simp
  qed
qed

lemma update_predefined_acl_ready:
  assumes "acl_ready self"
    and "lookup_bucket e (v_bucket_name self) = Inr b"
    and "bucket_owner_entity b = Inr owner_entity"
    and "p = None \<or> (\<exists>n \<in> set predefined_acl_names. p = Some n)"
  shows "\<exists>self'. update_predefined_acl e self p = (Inr (), self') \<and> acl_ready self'"
proof -
  from insert_acl_ready [OF assms(1)] obtain entry s1 where
    s1: "insert_acl e self (canonical_entity_name e ''project-owners-123456789'') ''OWNER''
           = (Inr entry, s1)" "acl_ready s1" by blast
  have b: "lookup_bucket e (v_bucket_name s1) = Inr b"
    using insert_acl_fields(3) [OF s1(1)] assms(2) by simp
  have "\<exists>ps. update_predefined_acl e self p = insert_acls e s1 ps"
    using assms(4) unfolding update_predefined_acl_def Let_def predefined_acl_names_def
    by (auto simp del: insert_acls.simps simp: s1(1) b assms(3))
  then obtain ps where "update_predefined_acl e self p = insert_acls e s1 ps" ..
  with insert_acls_ready [OF s1(2), of e ps] show ?thesis by auto
qed

section \<open>The constructor\<close>

lemma initial_metadata_lookup:
  "map_of (initial_metadata e g req m) ''md5Hash'' = Some (JStr (md5_hash e m))"
  "map_of (initial_metadata e g req m) ''acl'' = None"
  "map_of (initial_metadata e g req m) ''metadata'' = None"
  "map_of (initial_metadata e g req m) ''customerEncryption'' = None"
  by (simp_all add: initial_metadata_def Let_def AList.update_conv' split: option.splits)

lemma initial_revision_fields:
  "media (initial_revision e url bname oname g req m0) =
     (if headers req ''x-goog-testbench-instructions'' = Some ''inject-upload-data-error''
      then corrupt_media e m0 else m0)"
  "v_generation (initial_revision e url bname oname g req m0) = g"
  "v_bucket_name (initial_revision e url bname oname g req m0) = bname"
  "v_name (initial_revision e url bname oname g req m0) = oname"
  "metadata (initial_revision e url bname oname g req m0) =
     initial_metadata e g req (media (initial_revision e url bname oname g req m0))"
  by (simp_all add: initial_revision_def Let_def)

text \<open>The first step of the constructor never raises: the checksum it validates is the one it has just computed.\<close>

lemma update_initial_revision:
  obtains s1 where
    "update_from_metadata e (initial_revision e url bname oname g req m0) [] = (Inr (), s1)"
    "acl_ready s1"
    "map_of (metadata s1) ''metageneration'' = Some (JInt 1)"
    "map_of (metadata s1) ''md5Hash'' = Some (JStr (md5_hash e (media s1)))"
    "map_of (metadata s1) ''metadata'' = None"
    "map_of (metadata s1) ''customerEncryption'' = None"
proof -
  define s0 where "s0 = initial_revision e url bname oname g req m0"
  obtain r s1 where u: "update_from_metadata e s0 [] = (r, s1)"
    by (cases "update_from_metadata e s0 []")
  have md0: "metadata s0 = initial_metadata e g req (media s0)"
    by (simp add: s0_def initial_revision_fields(5))
  have mg: "py_add_one (dget_default (dict_update (metadata s0) []) ''metageneration'' (JInt 0))
              = Inr (JInt 1)"
    by (simp add: dict_update_def dget_default_def md0 initial_metadata_metageneration)
  note m = update_from_metadata_map_of [OF u mg]
  note f = update_from_metadata_fields [OF u]
  have r: "r = Inr ()"
    using update_from_metadata_result [OF u mg]
    by (simp add: dict_update_def dget_default_def md0 initial_metadata_lookup)
  have other: "\<And>k. k \<notin> {''kind'', ''bucket'', ''name'', ''id'', ''selfLink'', ''projectNumber'',
                         ''updated'', ''metageneration''}
                  \<Longrightarrow> map_of (metadata s1) k = map_of (initial_metadata e g req (media s0)) k"
    using m(4) by (simp add: dict_update_def md0)
  have "acl_ready s1"
    using m(2,3) other [of "''acl''"]
    by (simp add: acl_ready_def dget_default_def dget_def initial_metadata_lookup)
  moreover have "map_of (metadata s1) ''md5Hash'' = Some (JStr (md5_hash e (media s1)))"
    using other [of "''md5Hash''"] f(1) by (simp add: initial_metadata_lookup)
  moreover have "map_of (metadata s1) ''metadata'' = None"
    using other [of "''metadata''"] by (simp add: initial_metadata_lookup)
  moreover have "map_of (metadata s1) ''customerEncryption'' = None"
    using other [of "''customerEncryption''"] by (simp add: initial_metadata_lookup)
  ultimately show ?thesis using that u r m(1) by (simp add: s0_def)
qed

lemma capture_customer_encryption_fields:
  assumes "capture_customer_encryption e self req = Inr self'"
  shows "media self' = media self" "v_generation self' = v_generation self"
    "v_bucket_name self' = v_bucket_name self" "v_name self' = v_name self"
  using assms
  by (auto simp: capture_customer_encryption_def Let_def split: if_splits option.splits)

lemma acl_ready_other_keys:
  assumes "acl_ready self"
    and "\<And>k. k \<in> {''acl'', ''id'', ''selfLink''} \<Longrightarrow> map_of (metadata self') k = map_of (metadata self) k"
  shows "acl_ready self'"
  using assms(1) assms(2) [of "''acl''"] assms(2) [of "''id''"] assms(2) [of "''selfLink''"]
  by (simp add: acl_ready_def dget_default_def dget_def)

lemma capture_customer_encryption_ready:
  assumes "capture_customer_encryption e self req = Inr self'" and "acl_ready self"
  shows "acl_ready self'"
  by (rule acl_ready_other_keys [OF assms(2)])
     (use capture_customer_encryption_other_keys [OF assms(1)] in auto)

lemma update_predefined_acl_preserves_ready:
  assumes "update_predefined_acl e self p = (r, self')" and "acl_ready self"
  shows "acl_ready self'"
proof -
  from insert_acl_ready [OF assms(2)] obtain entry s1 where
    s1: "insert_acl e self (canonical_entity_name e ''project-owners-123456789'') ''OWNER''
           = (Inr entry, s1)" "acl_ready s1" by blast
  from assms(1) s1(1) have "self' = s1 \<or> (\<exists>ps. insert_acls e s1 ps = (r, self'))"
    unfolding update_predefined_acl_def Let_def
    by (auto simp del: insert_acls.simps split: sum.splits if_splits)
  then show ?thesis
  proof
    assume "self' = s1" with s1(2) show ?thesis by simp
  next
    assume "\<exists>ps. insert_acls e s1 ps = (r, self')"
    then obtain ps where "insert_acls e s1 ps = (r, self')" ..
    with insert_acls_ready [OF s1(2), of e ps] show ?thesis by auto
  qed
qed

lemma constructed_capture:
  assumes "capture_customer_encryption e s req = Inr s'" and "constructed e bname oname g m s"
  shows "constructed e bname oname g m s'"
  using assms(2) capture_customer_encryption_fields [OF assms(1)]
    capture_customer_encryption_other_keys [OF assms(1), of "''metageneration''"]
    capture_customer_encryption_other_keys [OF assms(1), of "''md5Hash''"]
    capture_customer_encryption_other_keys [OF assms(1), of "''metadata''"]
    capture_customer_encryption_ready [OF assms(1)]
  by (simp add: constructed_def)

lemma constructed_update_predefined_acl:
  assumes "update_predefined_acl e s p = (r, s')" and "constructed e bname oname g m s"
  shows "constructed e bname oname g m s'"
  using assms(2) update_predefined_acl_fields [OF assms(1)]
    update_predefined_acl_other_keys [OF assms(1), of "''metageneration''"]
    update_predefined_acl_other_keys [OF assms(1), of "''md5Hash''"]
    update_predefined_acl_other_keys [OF assms(1), of "''metadata''"]
    update_predefined_acl_preserves_ready [OF assms(1)]
  by (simp add: constructed_def)

lemma constructed_initial:
  obtains s1 where
    "update_from_metadata e (initial_revision e url bname oname g req m0) [] = (Inr (), s1)"
    "constructed e bname oname g
       (if headers req ''x-goog-testbench-instructions'' = Some ''inject-upload-data-error''
        then corrupt_media e m0 else m0) s1"
    "map_of (metadata s1) ''customerEncryption'' = None"
proof -
  obtain s1 where s1:
    "update_from_metadata e (initial_revision e url bname oname g req m0) [] = (Inr (), s1)"
    "acl_ready s1"
    "map_of (metadata s1) ''metageneration'' = Some (JInt 1)"
    "map_of (metadata s1) ''md5Hash'' = Some (JStr (md5_hash e (media s1)))"
    "map_of (metadata s1) ''metadata'' = None"
    "map_of (metadata s1) ''customerEncryption'' = None"
    by (rule update_initial_revision)
  from update_from_metadata_fields [OF s1(1)] s1 that show ?thesis
    by (simp add: constructed_def initial_revision_fields(1-4))
qed

lemma GcsObjectVersion_init_constructed:
  assumes "GcsObjectVersion_init e url bname oname g req m0 = Inr revision"
  shows "constructed e bname oname g
           (if headers req ''x-goog-testbench-instructions'' = Some ''inject-upload-data-error''
            then corrupt_media e m0 else m0) revision"
proof -
  from assms obtain s1 s2 s3 where
    u: "update_from_metadata e (initial_revision e url bname oname g req m0) [] = (Inr (), s1)" and
    c: "capture_customer_encryption e s1 req = Inr s2" and
    p: "update_predefined_acl e s2 (args req ''predefinedAcl'') = (Inr (), s3)" and
    last: "(headers req ''x-goog-acl'' = None \<and> revision = s3) \<or>
     (\<exists>acl p. headers req ''x-goog-acl'' = Some acl \<and> map_of acl2json_mapping acl = Some p \<and>
        update_predefined_acl e s3 (Some p) = (Inr (), revision))"
    by (rule GcsObjectVersion_init_Inr)
  obtain s1' where
    "update_from_metadata e (initial_revision e url bname oname g req m0) [] = (Inr (), s1')"
    "constructed e bname oname g
       (if headers req ''x-goog-testbench-instructions'' = Some ''inject-upload-data-error''
        then corrupt_media e m0 else m0) s1'"
    by (rule constructed_initial)
  with u have "constructed e bname oname g
       (if headers req ''x-goog-testbench-instructions'' = Some ''inject-upload-data-error''
        then corrupt_media e m0 else m0) s1" by simp
  from constructed_update_predefined_acl [OF p constructed_capture [OF c this]]
  have s3: "constructed e bname oname g
       (if headers req ''x-goog-testbench-instructions'' = Some ''inject-upload-data-error''
        then corrupt_media e m0 else m0) s3" .
  from last show ?thesis
  proof
    assume "headers req ''x-goog-acl'' = None \<and> revision = s3"
    with s3 show ?thesis by simp
  next
    assume "\<exists>acl p. headers req ''x-goog-acl'' = Some acl
              \<and> map_of acl2json_mapping acl = Some p
              \<and> update_predefined_acl e s3 (Some p) = (Inr (), revision)"
    then obtain p4 where "update_predefined_acl e s3 (Some p4) = (Inr (), revision)" by blast
    from constructed_update_predefined_acl [OF this s3] show ?thesis .
  qed
qed

text \<open>When the constructor returns a revision.\<close>

lemma acl2json_mapping_names:
  "map_of acl2json_mapping acl = Some p \<Longrightarrow> p \<in> set predefined_acl_names"
  by (auto simp: acl2json_mapping_def predefined_acl_names_def split: if_splits)

lemma GcsObjectVersion_init_succeeds:
  assumes enc: "headers req ''x-goog-encryption-key'' = None"
    and b: "lookup_bucket e bname = Inr b" "bucket_owner_entity b = Inr owner_entity"
    and pre: "args req ''predefinedAcl'' = None
              \<or> (\<exists>n \<in> set predefined_acl_names. args req ''predefinedAcl'' = Some n)"
    and xacl: "headers req ''x-goog-acl'' = None
              \<or> (\<exists>acl p. headers req ''x-goog-acl'' = Some acl
                    \<and> map_of acl2json_mapping acl = Some p)"
  shows "\<exists>revision. GcsObjectVersion_init e url bname oname g req m0 = Inr revision"
proof -
  define m where "m = (if headers req ''x-goog-testbench-instructions'' = Some ''inject-upload-data-error''
        then corrupt_media e m0 else m0)"
  obtain s1 where s1:
    "update_from_metadata e (initial_revision e url bname oname g req m0) [] = (Inr (), s1)"
    "constructed e bname oname g m s1"
    unfolding m_def by (rule constructed_initial)
  have c: "capture_customer_encryption e s1 req = Inr s1"
    using enc by (simp add: capture_customer_encryption_def)
  from s1(2) have r1: "acl_ready s1" "v_bucket_name s1 = bname" by (simp_all add: constructed_def)
  from update_predefined_acl_ready [OF r1(1) _ b(2) pre] b(1) r1(2)
  obtain s3 where s3: "update_predefined_acl e s1 (args req ''predefinedAcl'') = (Inr (), s3)"
    "acl_ready s3" by auto
  from constructed_update_predefined_acl [OF s3(1) s1(2)]
  have b3: "v_bucket_name s3 = bname" by (simp add: constructed_def)
  from xacl show ?thesis
  proof
    assume "headers req ''x-goog-acl'' = None"
    then show ?thesis by (simp add: GcsObjectVersion_init_def s1(1) c s3(1))
  next
    assume "\<exists>acl p. headers req ''x-goog-acl'' = Some acl \<and> map_of acl2json_mapping acl = Some p"
    then obtain acl p where a: "headers req ''x-goog-acl'' = Some acl"
      "map_of acl2json_mapping acl = Some p" by blast
    from acl2json_mapping_names [OF a(2)]
    have "Some p = None \<or> (\<exists>n \<in> set predefined_acl_names. Some p = Some n)" by simp
    from update_predefined_acl_ready [OF s3(2) _ b(2) this] b(1) b3
    obtain s4 where "update_predefined_acl e s3 (Some p) = (Inr (), s4)" by auto
    then show ?thesis by (simp add: GcsObjectVersion_init_def s1(1) c s3(1) a)
  qed
qed

section \<open>The concrete collaborators\<close>

lemma example_env_simps:
  "timestamp example_env = ''2018-11-03T00:00:00Z''"
  "md5_digest example_env m = ''0123456789abcdef''"
  "json_loads example_env s = (if strip s = ''{}'' then Some (JObj []) else None)"
  "corrupt_media example_env m = CHR ''x'' # m"
  "extract_media example_env req = data req"
  "canonical_entity_name example_env s = s"
  "lookup_bucket example_env ''bucket'' =
     Inr \<lparr>versioning_enabled = False, bucket_metadata = []\<rparr>"
  "lookup_bucket example_env ''versioned'' =
     Inr \<lparr>versioning_enabled = True, bucket_metadata = []\<rparr>"
  "validate_customer_encryption_headers example_env k h a = None"
  "csek_error example_env = ErrorResponse ''Missing a SHA256 hash of the encryption key'' 400"
  by (simp_all add: example_env_def)

lemma plain_request_simps:
  "headers plain_request h = None" "args plain_request a = None" "data plain_request = ''{}''"
  by (simp_all add: plain_request_def)

lemma no_owner_entity:
  "bucket_owner_entity \<lparr>versioning_enabled = v, bucket_metadata = []\<rparr>
     = Inr ''project-owners-123456789''"
  by (simp add: bucket_owner_entity_def dget_def)

lemma md5_hash_example: "md5_hash example_env m = ''MDEyMzQ1Njc4OWFiY2RlZg==''"
  by (simp add: md5_hash_def example_env_simps b64_char_def b64_alphabet_def)

lemma example_init_succeeds:
  assumes "bname = ''bucket'' \<or> bname = ''versioned''"
  shows "\<exists>revision. GcsObjectVersion_init example_env url bname oname g plain_request m
           = Inr revision"
  using assms
  by (auto intro!: GcsObjectVersion_init_succeeds
        simp: example_env_simps plain_request_simps no_owner_entity)

lemma example_revision_constructed:
  "constructed example_env ''bucket'' ''object'' 1 ''hello'' example_revision"
proof -
  from example_init_succeeds [of "''bucket''" example_url "''object''" 1 "''hello''"]
  obtain revision where
    r: "GcsObjectVersion_init example_env example_url ''bucket'' ''object'' 1
          plain_request ''hello'' = Inr revision" by auto
  from GcsObjectVersion_init_constructed [OF r] r show ?thesis
    by (simp add: example_revision_def plain_request_simps)
qed

section \<open>Numbers in query parameters\<close>

lemma py_int_1: "py_int ''1'' = Some 1"
  by (simp add: py_int_def strip_def is_space_def unsigned_int_def is_digit_def digits_value_def)


lemma py_int_2: "py_int ''2'' = Some 2"
  by (simp add: py_int_def strip_def is_space_def unsigned_int_def is_digit_def digits_value_def)

section \<open>Inserting\<close>

lemma set_meta_fields:
  assumes "set_meta revision k v = Inr revision'"
  shows "media revision' = media revision" "v_generation revision' = v_generation revision"
    "k' \<noteq> ''metadata'' \<Longrightarrow> map_of (metadata revision') k' = map_of (metadata revision) k'"
    "\<exists>meta. map_of (metadata revision') ''metadata'' = Some (JObj meta)"
  using assms
  by (auto simp: set_meta_def AList.update_conv' split: option.splits json.splits)

lemma set_meta_succeeds:
  assumes "map_of (metadata revision) ''metadata'' = None
           \<or> (\<exists>meta. map_of (metadata revision) ''metadata'' = Some (JObj meta))"
  shows "\<exists>revision'. set_meta revision k v = Inr revision'"
  using assms by (auto simp: set_meta_def)

lemma install_Inr:
  assumes "install e self g revision = (Inr revision', self')"
    and "lookup_bucket e (bucket_name self) = Inr b" and "\<not> versioning_enabled b"
  shows "revision' = revision" "revisions self' = [(g, revision)]"
    "generation self' = generation self" "bucket_name self' = bucket_name self"
    "name self' = name self" "rewrite_operations self' = rewrite_operations self"
  using assms by (auto simp: install_def insert_revision_def Let_def split: sum.splits)

lemma install_Inl:
  assumes "install e self g revision = (Inl err, self')"
  shows "self' = self"
  using assms by (auto simp: install_def insert_revision_def Let_def split: sum.splits if_splits)

lemma install_succeeds:
  assumes "lookup_bucket e (bucket_name self) = Inr b"
  shows "\<exists>self'. install e self g revision = (Inr revision, self')"
  using assms by (simp add: install_def insert_revision_def Let_def)

lemma install_rewrite_operations:
  assumes "install e self g revision = (r, self')"
  shows "rewrite_operations self' = rewrite_operations self"
  using assms by (auto simp: install_def insert_revision_def Let_def split: sum.splits if_splits)

lemma constructible_succeeds:
  assumes "constructible e bname req"
  obtains revision where
    "GcsObjectVersion_init e url bname oname g req m0 = Inr revision"
    "constructed e bname oname g (stored_payload e req m0) revision"
proof -
  from assms obtain b owner_entity where
    "headers req ''x-goog-encryption-key'' = None"
    "lookup_bucket e bname = Inr b" "bucket_owner_entity b = Inr owner_entity"
    "args req ''predefinedAcl'' = None
       \<or> (\<exists>n \<in> set predefined_acl_names. args req ''predefinedAcl'' = Some n)"
    "headers req ''x-goog-acl'' = None
       \<or> (\<exists>acl p. headers req ''x-goog-acl'' = Some acl
             \<and> map_of acl2json_mapping acl = Some p)"
    by (auto simp: constructible_def)
  from GcsObjectVersion_init_succeeds [OF this, of url oname g m0] obtain revision where
    r: "GcsObjectVersion_init e url bname oname g req m0 = Inr revision" by blast
  from GcsObjectVersion_init_constructed [OF r] r that show ?thesis
    by (simp add: stored_payload_def)
qed

text \<open>What a successful \<open>insert\<close> leaves in a bucket without versioning.\<close>

lemma insert_simple_Inr:
  assumes "insert_simple e self url req = (Inr revision, self')"
    and b: "lookup_bucket e (bucket_name self) = Inr b" "\<not> versioning_enabled b"
  shows "\<exists>g. generation self = Some g \<and> generation self' = Some (g + 1)
           \<and> revisions self' = [(g + 1, revision)] \<and> v_generation revision = g + 1
           \<and> bucket_name self' = bucket_name self"
proof -
  from assms(1) obtain g where g: "generation self = Some g"
    by (auto simp: insert_simple_def increment_generation_def split: option.splits)
  define self1 where "self1 = self\<lparr>generation := Some (g + 1)\<rparr>"
  from assms(1) g obtain r0 r1 where
    r0: "GcsObjectVersion_init e url (bucket_name self) (name self) (g + 1) req
           (extract_media e req) = Inr r0"
    and r1: "set_meta r0 ''x_testbench_upload'' (JStr ''simple'') = Inr r1"
    and i: "install e self1 (g + 1) r1 = (Inr revision, self')"
    by (auto simp: insert_simple_def increment_generation_def Let_def self1_def
        split: sum.splits)
  have b1: "lookup_bucket e (bucket_name self1) = Inr b" using b by (simp add: self1_def)
  note f = install_Inr [OF i b1 b(2)]
  from GcsObjectVersion_init_constructed [OF r0] set_meta_fields(2) [OF r1] f g
  show ?thesis by (simp add: constructed_def self1_def)
qed

lemma insert_xml_Inr:
  assumes "insert_xml e self url req = (Inr revision, self')"
    and b: "lookup_bucket e (bucket_name self) = Inr b" "\<not> versioning_enabled b"
  shows "\<exists>g. generation self = Some g \<and> generation self' = Some (g + 1)
           \<and> revisions self' = [(g + 1, revision)] \<and> v_generation revision = g + 1
           \<and> bucket_name self' = bucket_name self"
proof -
  from assms(1) obtain g where g: "generation self = Some g"
    by (auto simp: insert_xml_def increment_generation_def split: option.splits)
  define self1 where "self1 = self\<lparr>generation := Some (g + 1)\<rparr>"
  from assms(1) g obtain r0 r1 where
    r0: "GcsObjectVersion_init e url (bucket_name self) (name self) (g + 1) req
           (extract_media e req) = Inr r0"
    and r1: "set_meta r0 ''x_testbench_upload'' (JStr ''xml'') = Inr r1"
    by (auto simp: insert_xml_def increment_generation_def Let_def self1_def
        split: sum.splits)
  have b1: "lookup_bucket e (bucket_name self1) = Inr b" using b by (simp add: self1_def)
  have g0: "v_generation r1 = g + 1"
    using GcsObjectVersion_init_constructed [OF r0] set_meta_fields(2) [OF r1]
    by (simp add: constructed_def)
  from assms(1) g r0 r1 have
    "(\<exists>rev. v_generation rev = g + 1 \<and> install e self1 (g + 1) rev = (Inr revision, self'))"
    using g0
    by (auto simp: insert_xml_def increment_generation_def Let_def self1_def
        split: sum.splits option.splits prod.splits
        dest!: set_meta_fields(2) update_from_metadata_fields(2))
  then obtain rev where rev: "v_generation rev = g + 1"
    "install e self1 (g + 1) rev = (Inr revision, self')" by blast
  note f = install_Inr [OF rev(2) b1 b(2)]
  from f rev(1) g show ?thesis by (simp add: self1_def)
qed

lemma insert_parsed_multipart_Inr:
  assumes "insert_parsed_multipart e self url req resource_body media_headers media_body
             = (Inr revision, self')"
    and b: "lookup_bucket e (bucket_name self) = Inr b" "\<not> versioning_enabled b"
  shows "\<exists>g. generation self = Some g \<and> generation self' = Some (g + 1)
           \<and> revisions self' = [(g + 1, revision)] \<and> v_generation revision = g + 1
           \<and> bucket_name self' = bucket_name self"
proof -
  from assms(1) obtain g where g: "generation self = Some g"
    by (auto simp: insert_parsed_multipart_def increment_generation_def split: option.splits)
  define self1 where "self1 = self\<lparr>generation := Some (g + 1)\<rparr>"
  from assms(1) g obtain r0 r1 where
    r0: "GcsObjectVersion_init e url (bucket_name self) (name self) (g + 1) req media_body
           = Inr r0"
    and r1: "set_meta r0 ''x_testbench_upload'' (JStr ''multipart'') = Inr r1"
    by (auto simp: insert_parsed_multipart_def increment_generation_def Let_def self1_def
        split: sum.splits option.splits)
  have b1: "lookup_bucket e (bucket_name self1) = Inr b" using b by (simp add: self1_def)
  have g0: "v_generation r1 = g + 1"
    using GcsObjectVersion_init_constructed [OF r0] set_meta_fields(2) [OF r1]
    by (simp add: constructed_def)
  from assms(1) g r0 r1 have
    "(\<exists>rev. v_generation rev = g + 1 \<and> install e self1 (g + 1) rev = (Inr revision, self'))"
    using g0
    by (auto simp: insert_parsed_multipart_def increment_generation_def Let_def self1_def
        split: sum.splits option.splits prod.splits json.splits
        dest!: set_meta_fields(2) update_from_metadata_fields(2))
  then obtain rev where rev: "v_generation rev = g + 1"
    "install e self1 (g + 1) rev = (Inr revision, self')" by blast
  note f = install_Inr [OF rev(2) b1 b(2)]
  from f rev(1) g show ?thesis by (simp add: self1_def)
qed

lemma insert_multipart_Inr:
  assumes "insert_multipart e self url req = Some (Inr revision, self')"
    and b: "lookup_bucket e (bucket_name self) = Inr b" "\<not> versioning_enabled b"
  shows "\<exists>g. generation self = Some g \<and> generation self' = Some (g + 1)
           \<and> revisions self' = [(g + 1, revision)] \<and> v_generation revision = g + 1
           \<and> bucket_name self' = bucket_name self"
proof -
  from assms(1) obtain resource_body media_headers media_body where
    "insert_parsed_multipart e self url req resource_body media_headers media_body
       = (Inr revision, self')"
    unfolding insert_multipart_def Let_def
    by (auto split: option.splits if_splits sum.splits prod.splits)
  from insert_parsed_multipart_Inr [OF this b] show ?thesis .
qed

lemma run_upload_Inr:
  assumes "run_upload e self u = Some (Inr revision, self')"
    and b: "lookup_bucket e (bucket_name self) = Inr b" "\<not> versioning_enabled b"
  shows "\<exists>g. generation self = Some g \<and> generation self' = Some (g + 1)
           \<and> revisions self' = [(g + 1, revision)] \<and> v_generation revision = g + 1
           \<and> bucket_name self' = bucket_name self"
  using assms
  by (cases u) (auto dest: insert_simple_Inr insert_multipart_Inr insert_xml_Inr)

lemma map_of_rev_None: "k \<notin> fst ` set md \<Longrightarrow> map_of (rev md) k = None"
  by (simp add: map_of_eq_None_iff)

lemma update_preserving_checksum:
  assumes "map_of (metadata r) ''metageneration'' = Some (JInt n)"
    and "map_of (metadata r) ''md5Hash'' = Some (JStr (md5_hash e (media r)))"
    and "''metageneration'' \<notin> fst ` set md" and "''md5Hash'' \<notin> fst ` set md"
  obtains r' where "update_from_metadata e r md = (Inr (), r')"
    "map_of (metadata r') ''metageneration'' = Some (JInt (n + 1))"
    "map_of (metadata r') ''md5Hash'' = Some (JStr (md5_hash e (media r')))"
    "v_generation r' = v_generation r" "media r' = media r"
proof -
  obtain x r' where u: "update_from_metadata e r md = (x, r')"
    by (cases "update_from_metadata e r md")
  have mg: "py_add_one (dget_default (dict_update (metadata r) md) ''metageneration'' (JInt 0))
              = Inr (JInt (n + 1))"
    using assms(1,3) by (simp add: dget_default_def map_of_dict_update map_of_rev_None)
  from update_from_metadata_result [OF u mg] assms(2,4)
  have "x = Inr ()" by (simp add: dget_default_def map_of_dict_update map_of_rev_None)
  moreover from update_from_metadata_map_of(4) [OF u mg, of "''md5Hash''"] assms(2,4)
    update_from_metadata_fields(1) [OF u]
  have "map_of (metadata r') ''md5Hash'' = Some (JStr (md5_hash e (media r')))"
    by (simp add: map_of_dict_update map_of_rev_None)
  ultimately show ?thesis
    using that u update_from_metadata_map_of(1) [OF u mg] update_from_metadata_fields(1,2) [OF u]
    by simp
qed

text \<open>The update that \<open>insert_xml\<close> makes for a declared checksum.\<close>

lemma update_declared_md5:
  assumes "map_of (metadata revision) ''metageneration'' = Some (JInt 1)"
  obtains revision' where
    "update_from_metadata e revision [(''md5Hash'', JStr h)] =
       (if h \<noteq> md5_hash e (media revision) then Inl mismatched_md5 else Inr (), revision')"
    "dget (metadata revision') ''md5Hash'' = JStr h"
    "media revision' = media revision" "v_generation revision' = v_generation revision"
proof -
  obtain r revision' where u: "update_from_metadata e revision [(''md5Hash'', JStr h)] = (r, revision')"
    by (cases "update_from_metadata e revision [(''md5Hash'', JStr h)]")
  have mg: "py_add_one (dget_default (dict_update (metadata revision) [(''md5Hash'', JStr h)])
              ''metageneration'' (JInt 0)) = Inr (JInt 2)"
    using assms by (simp add: dget_default_def map_of_dict_update)
  from update_from_metadata_result [OF u mg]
  have "r = (if h \<noteq> md5_hash e (media revision) then Inl mismatched_md5 else Inr ())"
    by (simp add: dget_default_def map_of_dict_update mismatched_md5_def)
  moreover from update_from_metadata_map_of(4) [OF u mg, of "''md5Hash''"]
  have "dget (metadata revision') ''md5Hash'' = JStr h"
    by (simp add: dget_def map_of_dict_update)
  ultimately show ?thesis using that u update_from_metadata_fields(1,2) [OF u] by simp
qed

lemma insert_xml_declared:
  assumes h: "xml_md5hash (headers req ''x-goog-hash'') = Some h"
    and g: "generation self = Some g"
    and r0: "GcsObjectVersion_init e url (bucket_name self) (name self) (g + 1) req
               (extract_media e req) = Inr r0"
  obtains r3 where
    "insert_xml e self url req =
       (if h \<noteq> md5_hash e (media r0) then (Inl mismatched_md5, self\<lparr>generation := Some (g + 1)\<rparr>)
        else install e (self\<lparr>generation := Some (g + 1)\<rparr>) (g + 1) r3)"
    "dget (metadata r3) ''md5Hash'' = JStr h" "media r3 = media r0"
proof -
  note c = GcsObjectVersion_init_constructed [OF r0, unfolded constructed_def]
  from set_meta_succeeds [of r0 "''x_testbench_upload''" "JStr ''xml''"] c
  obtain r1 where r1: "set_meta r0 ''x_testbench_upload'' (JStr ''xml'') = Inr r1" by auto
  note f1 = set_meta_fields [OF r1]
  from set_meta_succeeds [of r1 "''x_testbench_md5''" "JStr h"] f1(4)
  obtain r2 where r2: "set_meta r1 ''x_testbench_md5'' (JStr h) = Inr r2" by auto
  note f2 = set_meta_fields [OF r2]
  have mg: "map_of (metadata r2) ''metageneration'' = Some (JInt 1)"
    using f1(3) [of "''metageneration''"] f2(3) [of "''metageneration''"] c by simp
  obtain r3 where r3:
    "update_from_metadata e r2 [(''md5Hash'', JStr h)] =
       (if h \<noteq> md5_hash e (media r2) then Inl mismatched_md5 else Inr (), r3)"
    "dget (metadata r3) ''md5Hash'' = JStr h" "media r3 = media r2"
    by (rule update_declared_md5 [OF mg])
  have m: "media r2 = media r0" using f1(1) f2(1) by simp
  have "insert_xml e self url req =
       (if h \<noteq> md5_hash e (media r0) then (Inl mismatched_md5, self\<lparr>generation := Some (g + 1)\<rparr>)
        else install e (self\<lparr>generation := Some (g + 1)\<rparr>) (g + 1) r3)"
    by (simp add: insert_xml_def increment_generation_def g Let_def h r0 r1 r2 r3(1) m)
  with r3(2,3) m that show ?thesis by simp
qed

lemma insert_simple_succeeds:
  assumes "generation self = Some g" and "constructible e (bucket_name self) req"
  shows "\<exists>revision self'. insert_simple e self url req = (Inr revision, self')"
proof -
  obtain r0 where r0:
    "GcsObjectVersion_init e url (bucket_name self) (name self) (g + 1) req (extract_media e req)
       = Inr r0"
    "constructed e (bucket_name self) (name self) (g + 1)
       (stored_payload e req (extract_media e req)) r0"
    by (rule constructible_succeeds [OF assms(2)])
  from set_meta_succeeds [of r0 "''x_testbench_upload''" "JStr ''simple''"] r0(2)
  obtain r1 where r1: "set_meta r0 ''x_testbench_upload'' (JStr ''simple'') = Inr r1"
    by (auto simp: constructed_def)
  from assms(2) obtain b where "lookup_bucket e (bucket_name self) = Inr b"
    by (auto simp: constructible_def)
  then have "\<exists>self'. install e (self\<lparr>generation := Some (g + 1)\<rparr>) (g + 1) r1 = (Inr r1, self')"
    by (intro install_succeeds) simp
  then show ?thesis
    by (auto simp: insert_simple_def increment_generation_def assms(1) Let_def r0(1) r1)
qed

lemma insert_xml_succeeds:
  assumes "generation self = Some g" and "constructible e (bucket_name self) req"
    and "xml_md5hash (headers req ''x-goog-hash'')
           = Some (md5_hash e (stored_payload e req (extract_media e req)))"
  shows "\<exists>revision self'. insert_xml e self url req = (Inr revision, self')"
proof -
  obtain r0 where r0:
    "GcsObjectVersion_init e url (bucket_name self) (name self) (g + 1) req (extract_media e req)
       = Inr r0"
    "constructed e (bucket_name self) (name self) (g + 1)
       (stored_payload e req (extract_media e req)) r0"
    by (rule constructible_succeeds [OF assms(2)])
  obtain r3 where r3:
    "insert_xml e self url req =
       (if md5_hash e (stored_payload e req (extract_media e req)) \<noteq> md5_hash e (media r0)
        then (Inl mismatched_md5, self\<lparr>generation := Some (g + 1)\<rparr>)
        else install e (self\<lparr>generation := Some (g + 1)\<rparr>) (g + 1) r3)"
    by (rule insert_xml_declared [OF assms(3) assms(1) r0(1)])
  from assms(2) obtain b where "lookup_bucket e (bucket_name self) = Inr b"
    by (auto simp: constructible_def)
  then have "\<exists>self'. install e (self\<lparr>generation := Some (g + 1)\<rparr>) (g + 1) r3 = (Inr r3, self')"
    by (intro install_succeeds) simp
  with r3 r0(2) show ?thesis by (auto simp: constructed_def)
qed

lemma insert_parsed_multipart_succeeds:
  assumes "generation self = Some g" and "constructible e (bucket_name self) req"
    and "json_loads e resource_body = Some (JObj res)"
    and "''metageneration'' \<notin> fst ` set res" and "''md5Hash'' \<notin> fst ` set res"
  shows "\<exists>revision self'.
           insert_parsed_multipart e self url req resource_body media_headers media_body
             = (Inr revision, self')"
proof -
  obtain r0 where r0:
    "GcsObjectVersion_init e url (bucket_name self) (name self) (g + 1) req media_body = Inr r0"
    "constructed e (bucket_name self) (name self) (g + 1) (stored_payload e req media_body) r0"
    by (rule constructible_succeeds [OF assms(2)])
  note c = r0(2) [unfolded constructed_def]
  from set_meta_succeeds [of r0 "''x_testbench_upload''" "JStr ''multipart''"] c
  obtain r1 where r1: "set_meta r0 ''x_testbench_upload'' (JStr ''multipart'') = Inr r1" by auto
  note f1 = set_meta_fields [OF r1]
  from set_meta_succeeds [of r1 "''x_testbench_md5''" "dget_default res ''md5Hash'' (JStr [])"]
    f1(4)
  obtain r2 where
    r2: "set_meta r1 ''x_testbench_md5'' (dget_default res ''md5Hash'' (JStr [])) = Inr r2"
    by auto
  note f2 = set_meta_fields [OF r2]
  have k2: "map_of (metadata r2) ''metageneration'' = Some (JInt 1)"
    "map_of (metadata r2) ''md5Hash'' = Some (JStr (md5_hash e (media r2)))"
    using f1(3) [of "''metageneration''"] f2(3) [of "''metageneration''"]
      f1(3) [of "''md5Hash''"] f2(3) [of "''md5Hash''"] f1(1) f2(1) c by simp_all
  obtain r3 where r3: "update_from_metadata e r2 res = (Inr (), r3)"
    "map_of (metadata r3) ''metageneration'' = Some (JInt (1 + 1))"
    "map_of (metadata r3) ''md5Hash'' = Some (JStr (md5_hash e (media r3)))"
    by (rule update_preserving_checksum [OF k2 assms(4,5)])
  from assms(2) obtain b where "lookup_bucket e (bucket_name self) = Inr b"
    by (auto simp: constructible_def)
  then have inst: "\<And>r. \<exists>self'. install e (self\<lparr>generation := Some (g + 1)\<rparr>) (g + 1) r = (Inr r, self')"
    by (intro install_succeeds) simp
  show ?thesis
  proof (cases "map_of media_headers ''content-type''")
    case None
    with inst [of r3] show ?thesis
      by (auto simp: insert_parsed_multipart_def increment_generation_def assms(1,3) Let_def
            r0(1) r1 r2 r3(1))
  next
    case (Some ct)
    obtain r4 where r4: "update_from_metadata e r3 [(''contentType'', JStr ct)] = (Inr (), r4)"
      by (rule update_preserving_checksum [OF r3(2,3), of "[(''contentType'', JStr ct)]"]) simp_all
    with inst [of r4] Some show ?thesis
      by (auto simp: insert_parsed_multipart_def increment_generation_def assms(1,3) Let_def
            r0(1) r1 r2 r3(1))
  qed
qed

lemma insert_multipart_parsed:
  assumes "headers req ''content-type'' = Some content_type"
    and "startswith content_type ''multipart/related''"
    and "split_first ''boundary='' content_type = Some (before, boundary)"
    and "py_split (''--'' @ boundary @ crlf) (extract_media e req) = parts"
    and "3 \<le> length parts"
    and "parse_part (parts ! 1) = Some (Inr (resource_headers, resource_body))"
    and "parse_part (parts ! 2) = Some (Inr (media_headers, media_body0))"
    and "py_find media_body0 (crlf @ ''--'' @ boundary @ ''--'' @ crlf) 0 = end"
    and "end \<noteq> - 1"
  shows "insert_multipart e self url req =
           Some (insert_parsed_multipart e self url req resource_body media_headers
                   (py_slice media_body0 0 end))"
  using assms by (simp add: insert_multipart_def Let_def)

lemma update_predefined_acl_bucket:
  assumes "update_predefined_acl e self p = (Inr u, self')"
  shows "\<exists>b. lookup_bucket e (v_bucket_name self) = Inr b"
proof -
  obtain r1 s1 where i: "insert_acl e self (canonical_entity_name e ''project-owners-123456789'') ''OWNER'' = (r1, s1)"
    by (cases "insert_acl e self (canonical_entity_name e ''project-owners-123456789'') ''OWNER''")
  from assms i have "\<exists>b. lookup_bucket e (v_bucket_name s1) = Inr b"
    unfolding update_predefined_acl_def Let_def
    by (auto simp del: insert_acls.simps split: sum.splits)
  with insert_acl_fields(3) [OF i] show ?thesis by simp
qed

lemma GcsObjectVersion_init_bucket:
  assumes "GcsObjectVersion_init e url bname oname g req m0 = Inr revision"
  shows "\<exists>b. lookup_bucket e bname = Inr b"
proof -
  from assms obtain s1 s2 s3 where
    u: "update_from_metadata e (initial_revision e url bname oname g req m0) [] = (Inr (), s1)" and
    c: "capture_customer_encryption e s1 req = Inr s2" and
    p: "update_predefined_acl e s2 (args req ''predefinedAcl'') = (Inr (), s3)"
    by (rule GcsObjectVersion_init_Inr)
  from update_predefined_acl_bucket [OF p] capture_customer_encryption_fields(3) [OF c]
    update_from_metadata_fields(3) [OF u]
  show ?thesis by (simp add: initial_revision_fields)
qed

lemma install_current:
  assumes "install e self g revision = (Inr revision', self')"
  shows "revision' = revision" "map_of (revisions self') g = Some revision"
    "generation self' = generation self"
  using assms
  by (auto simp: install_def insert_revision_def Let_def map_of_dict_update
        split: sum.splits if_splits)

section \<open>The example uploads\<close>

lemma constructible_example:
  assumes "headers req ''x-goog-encryption-key'' = None"
    and "args req ''predefinedAcl'' = None" and "headers req ''x-goog-acl'' = None"
  shows "constructible example_env ''bucket'' req"
  using assms by (simp add: constructible_def example_env_simps no_owner_entity)

lemma xml_md5hash_example:
  "xml_md5hash (Some example_goog_hash) = Some example_md5"
  by (simp add: xml_md5hash_def py_split_def startswith_def example_md5_def
        example_goog_hash_def)

lemma xml_md5hash_bad: "xml_md5hash (Some ''md5=AAAA'') = Some ''AAAA''"
  by (simp add: xml_md5hash_def py_split_def startswith_def)

lemma split_body: "py_split (''--B'' @ crlf) multipart_body = [[], part1, part2]"
  by (simp add: py_split_def multipart_body_def part1_def part2_def crlf_def)

lemma parse1: "parse_part part1 = Some (Inr ([(''content-type'', ''application/json'')], ''{}'' @ crlf))"
  by (simp add: parse_part_def part1_def crlf_def parse_part_loop.simps py_find_def py_slice_def
        slice_bound_def is_ascii_def Let_def numeral_2_eq_2)

lemma parse2: "parse_part part2 = Some (Inr ([(''content-type'', ''text/plain'')], ''hello'' @ crlf @ ''--B--'' @ crlf))"
  by (simp add: parse_part_def part2_def crlf_def parse_part_loop.simps py_find_def py_slice_def
        slice_bound_def is_ascii_def Let_def numeral_2_eq_2)

lemma find_end: "py_find (''hello'' @ crlf @ ''--B--'' @ crlf) (crlf @ ''--B--'' @ crlf) 0 = 5"
  by (simp add: crlf_def py_find_def)

lemma insert_multipart_example:
  assumes "generation self = Some g" and "bucket_name self = ''bucket''"
  shows "\<exists>revision self'.
           insert_multipart example_env self example_url multipart_request
             = Some (Inr revision, self')"
proof -
  have c: "constructible example_env (bucket_name self) multipart_request"
    unfolding assms(2) by (rule constructible_example) (simp_all add: multipart_request_def)
  have j: "json_loads example_env (''{}'' @ crlf) = Some (JObj [])"
    by (simp add: example_env_simps strip_def is_space_def crlf_def)
  have p: "insert_multipart example_env self example_url multipart_request =
             Some (insert_parsed_multipart example_env self example_url multipart_request
                     (''{}'' @ crlf) [(''content-type'', ''text/plain'')]
                     (py_slice (''hello'' @ crlf @ ''--B--'' @ crlf) 0 5))"
  proof (rule insert_multipart_parsed)
    show "headers multipart_request ''content-type'' = Some ''multipart/related; boundary=B''"
      by (simp add: multipart_request_def)
    show "startswith ''multipart/related; boundary=B'' ''multipart/related''"
      by (simp add: startswith_def)
    show "split_first ''boundary='' ''multipart/related; boundary=B''
            = Some (''multipart/related; '', ''B'')"
      by simp
    show "py_split (''--'' @ ''B'' @ crlf) (extract_media example_env multipart_request)
            = [[], part1, part2]"
      using split_body by (simp add: example_env_simps multipart_request_def)
    show "3 \<le> length [[], part1, part2]" by simp
    show "parse_part ([[], part1, part2] ! 1)
            = Some (Inr ([(''content-type'', ''application/json'')], ''{}'' @ crlf))"
      using parse1 by simp
    show "parse_part ([[], part1, part2] ! 2)
            = Some (Inr ([(''content-type'', ''text/plain'')],
                         ''hello'' @ crlf @ ''--B--'' @ crlf))"
      using parse2 by simp
    show "py_find (''hello'' @ crlf @ ''--B--'' @ crlf) (crlf @ ''--'' @ ''B'' @ ''--'' @ crlf) 0
            = 5"
      using find_end by simp
    show "(5::int) \<noteq> - 1" by simp
  qed
  from insert_parsed_multipart_succeeds [OF assms(1) c j] show ?thesis
    unfolding p by simp
qed

lemma example_uploads_run:
  obtains r1 o1 r2 o2 r3 o3 where
    "run_uploads example_env (GcsObject_init ''bucket'' ''object'') example_uploads
       = Some [(r1, o1), (r2, o2), (r3, o3)]"
proof -
  let ?o0 = "GcsObject_init ''bucket'' ''object''"
  have b: "lookup_bucket example_env ''bucket''
             = Inr \<lparr>versioning_enabled = False, bucket_metadata = []\<rparr>"
    by (simp add: example_env_simps)
  have g0: "generation ?o0 = Some 0" "bucket_name ?o0 = ''bucket''"
    by (simp_all add: GcsObject_init_def)
  have c1: "constructible example_env (bucket_name ?o0) plain_request"
    unfolding g0 by (rule constructible_example) (simp_all add: plain_request_simps)
  from insert_simple_succeeds [OF g0(1) c1, of example_url] obtain r1 o1 where
    s1: "insert_simple example_env ?o0 example_url plain_request = (Inr r1, o1)" by blast
  from insert_simple_Inr [OF s1] b g0
  have g1: "generation o1 = Some 1" "bucket_name o1 = ''bucket''" by auto
  let ?x = "xml_request example_goog_hash"
  have c2: "constructible example_env (bucket_name o1) ?x"
    unfolding g1 by (rule constructible_example) (simp_all add: xml_request_def)
  have h2: "xml_md5hash (headers ?x ''x-goog-hash'')
              = Some (md5_hash example_env (stored_payload example_env ?x
                        (extract_media example_env ?x)))"
    using xml_md5hash_example by (simp add: xml_request_def md5_hash_example example_md5_def)
  from insert_xml_succeeds [OF g1(1) c2 h2, of example_url] obtain r2 o2 where
    s2: "insert_xml example_env o1 example_url ?x = (Inr r2, o2)" by blast
  from insert_xml_Inr [OF s2] b g1
  have g2: "generation o2 = Some 2" "bucket_name o2 = ''bucket''" by auto
  from insert_multipart_example [OF g2] obtain r3 o3 where
    s3: "insert_multipart example_env o2 example_url multipart_request = Some (Inr r3, o3)"
    by blast
  have "run_uploads example_env ?o0 example_uploads = Some [(r1, o1), (r2, o2), (r3, o3)]"
    by (simp add: example_uploads_def s1 s2 s3)
  then show ?thesis by (rule that)
qed

section \<open>Tokens\<close>

lemma b64_alphabet_distinct: "distinct b64_alphabet"
  by (simp add: b64_alphabet_def)

lemma b64_alphabet_length: "length b64_alphabet = 64"
  by (simp add: b64_alphabet_def)

lemma b64_char_eq: "i < 64 \<Longrightarrow> j < 64 \<Longrightarrow> b64_char i = b64_char j \<longleftrightarrow> i = j"
  unfolding b64_char_def
  using nth_eq_iff_index_eq [OF b64_alphabet_distinct, of i j]
  by (simp add: b64_alphabet_length)

lemma b64_char_not_pad: "b64_char i \<noteq> CHR ''=''"
proof -
  have "b64_char i \<in> set b64_alphabet"
    unfolding b64_char_def by (rule nth_mem) (simp add: b64_alphabet_length)
  moreover have "CHR ''='' \<notin> set b64_alphabet" by (simp add: b64_alphabet_def)
  ultimately show ?thesis by metis
qed

lemma quotient_remainder_unique:
  fixes q r q' r' k :: nat
  assumes "r < k" "r' < k" "q * k + r = q' * k + r'"
  shows "q = q' \<and> r = r'"
proof -
  have "(q * k + r) div k = q" "(q' * k + r') div k = q'" using assms(1,2) by simp_all
  with assms(3) have "q = q'" by simp
  with assms(3) show ?thesis by simp
qed

text \<open>The six-bit numbers of a group are below 64.\<close>

lemma sextet_bounds:
  fixes a b c :: nat
  assumes "a < 256" "b < 256" "c < 256"
  shows "a div 4 < 64" "a mod 4 * 16 + b div 16 < 64" "b mod 16 * 4 + c div 64 < 64"
    "c mod 64 < 64" "a mod 4 * 16 < 64" "b mod 16 * 4 < 64"
proof -
  have "a mod 4 < 4" "b mod 16 < 16" by simp_all
  moreover have "b div 16 < 16" "c div 64 < 4" "a div 4 < 64" using assms by simp_all
  ultimately show "a div 4 < 64" "a mod 4 * 16 + b div 16 < 64" "b mod 16 * 4 + c div 64 < 64"
    "c mod 64 < 64" "a mod 4 * 16 < 64" "b mod 16 * 4 < 64"
    by simp_all
qed

lemma byte_from_parts:
  fixes a a' :: nat
  assumes "a div k = a' div k" "a mod k = a' mod k"
  shows "a = a'"
  using assms by (metis div_mult_mod_eq)

lemma group3_inj:
  fixes a b c a' b' c' :: nat
  assumes lt: "a < 256" "b < 256" "c < 256" "a' < 256" "b' < 256" "c' < 256"
    and s0: "a div 4 = a' div 4"
    and s1: "a mod 4 * 16 + b div 16 = a' mod 4 * 16 + b' div 16"
    and s2: "b mod 16 * 4 + c div 64 = b' mod 16 * 4 + c' div 64"
    and s3: "c mod 64 = c' mod 64"
  shows "a = a' \<and> b = b' \<and> c = c'"
proof -
  have "b div 16 < 16" "b' div 16 < 16" "c div 64 < 4" "c' div 64 < 4" using lt by simp_all
  from quotient_remainder_unique [OF this(1,2) s1] quotient_remainder_unique [OF this(3,4) s2]
  have e: "a mod 4 = a' mod 4" "b div 16 = b' div 16" "b mod 16 = b' mod 16"
    "c div 64 = c' div 64" by simp_all
  from byte_from_parts [OF s0 e(1)] byte_from_parts [OF e(2) e(3)] byte_from_parts [OF e(4) s3]
  show ?thesis by simp
qed

lemma group2_inj:
  fixes a b a' b' :: nat
  assumes lt: "a < 256" "b < 256" "a' < 256" "b' < 256"
    and s0: "a div 4 = a' div 4"
    and s1: "a mod 4 * 16 + b div 16 = a' mod 4 * 16 + b' div 16"
    and s2: "b mod 16 * 4 = b' mod 16 * 4"
  shows "a = a' \<and> b = b'"
proof -
  have "b div 16 < 16" "b' div 16 < 16" using lt by simp_all
  from quotient_remainder_unique [OF this s1]
  have e: "a mod 4 = a' mod 4" "b div 16 = b' div 16" by simp_all
  from s2 have "b mod 16 = b' mod 16" by simp
  from byte_from_parts [OF s0 e(1)] byte_from_parts [OF e(2) this]
  show ?thesis by simp
qed

lemma group1_inj:
  fixes a a' :: nat
  assumes s0: "a div 4 = a' div 4" and s1: "a mod 4 * 16 = a' mod 4 * 16"
  shows "a = a'"
proof -
  from s1 have "a mod 4 = a' mod 4" by simp
  from byte_from_parts [OF s0 this] show ?thesis .
qed

lemma b64encode_eq_Nil: "b64encode s = [] \<longleftrightarrow> s = []"
  by (cases s rule: b64encode.cases) simp_all

lemma b64encode_inj: "b64encode s = b64encode t \<Longrightarrow> s = t"
proof (induction s arbitrary: t rule: b64encode.induct)
  case 1
  then have "b64encode t = []" by simp
  then show ?case by (simp add: b64encode_eq_Nil)
next
  case (2 a)
  note b = sextet_bounds [of "of_char a" 0 0, simplified]
  show ?case
  proof (cases t rule: b64encode.cases)
    case 1 with 2 show ?thesis by simp
  next
    case (2 a')
    note b' = sextet_bounds [of "of_char a'" 0 0, simplified]
    from "2.prems" 2 have "of_char a div 4 = (of_char a' :: nat) div 4"
      "(of_char a :: nat) mod 4 * 16 = of_char a' mod 4 * 16"
      using b b' by (simp_all add: b64_char_eq)
    from group1_inj [OF this] 2 show ?thesis by simp
  next
    case (3 a' b') with "2.prems" show ?thesis by (simp add: b64_char_not_pad [symmetric])
  next
    case (4 a' b' c' rest)
    with "2.prems" show ?thesis by (simp add: b64_char_not_pad [symmetric])
  qed
next
  case (3 a b)
  note b = sextet_bounds [of "of_char a" "of_char b" 0, simplified]
  show ?case
  proof (cases t rule: b64encode.cases)
    case 1 with 3 show ?thesis by simp
  next
    case (2 a') with "3.prems" show ?thesis by (simp add: b64_char_not_pad)
  next
    case (3 a' b')
    note b' = sextet_bounds [of "of_char a'" "of_char b'" 0, simplified]
    from "3.prems" 3 have "of_char a div 4 = (of_char a' :: nat) div 4"
      "(of_char a :: nat) mod 4 * 16 + of_char b div 16 = of_char a' mod 4 * 16 + of_char b' div 16"
      "(of_char b :: nat) mod 16 * 4 = of_char b' mod 16 * 4"
      using b b' by (simp_all add: b64_char_eq)
    from group2_inj [OF _ _ _ _ this] 3 show ?thesis by simp
  next
    case (4 a' b' c' rest)
    with "3.prems" show ?thesis by (simp add: b64_char_not_pad [symmetric])
  qed
next
  case (4 a b c rest)
  note b = sextet_bounds [of "of_char a" "of_char b" "of_char c", simplified]
  show ?case
  proof (cases t rule: b64encode.cases)
    case 1 with 4 show ?thesis by simp
  next
    case (2 a') with "4.prems" show ?thesis by (simp add: b64_char_not_pad)
  next
    case (3 a' b') with "4.prems" show ?thesis by (simp add: b64_char_not_pad)
  next
    case (4 a' b' c' rest')
    note b' = sextet_bounds [of "of_char a'" "of_char b'" "of_char c'", simplified]
    from "4.prems" 4 have e: "of_char a div 4 = (of_char a' :: nat) div 4"
      "(of_char a :: nat) mod 4 * 16 + of_char b div 16 = of_char a' mod 4 * 16 + of_char b' div 16"
      "(of_char b :: nat) mod 16 * 4 + of_char c div 64 = of_char b' mod 16 * 4 + of_char c' div 64"
      "(of_char c :: nat) mod 64 = of_char c' mod 64"
      and r: "b64encode rest = b64encode rest'"
      using b b' by (simp_all add: b64_char_eq)
    from group3_inj [OF _ _ _ _ _ _ e] "4.IH" [OF r] 4 show ?thesis by simp
  qed
qed

lemma digit_char_eq: "i < 10 \<Longrightarrow> j < 10 \<Longrightarrow> digit_char i = digit_char j \<longleftrightarrow> i = j"
  by (simp add: digit_char_def)

lemma digit_char_is_digit: "i < 10 \<Longrightarrow> is_digit (digit_char i)"
  by (simp add: digit_char_def is_digit_def)

lemma digits10_not_Nil: "digits10 n \<noteq> []"
  by (subst digits10.simps) simp

lemma digits10_digits: "list_all is_digit (digits10 n)"
proof (induction n rule: digits10.induct)
  case (1 n)
  show ?case
  proof (cases "n < 10")
    case True
    then show ?thesis by (subst digits10.simps) (simp add: digit_char_is_digit)
  next
    case False
    with 1 show ?thesis by (subst digits10.simps) (simp add: digit_char_is_digit)
  qed
qed

lemma digits10_inj: "digits10 n = digits10 m \<Longrightarrow> n = m"
proof (induction n arbitrary: m rule: digits10.induct)
  case (1 n)
  show ?case
  proof (cases "n < 10")
    case n: True
    show ?thesis
    proof (cases "m < 10")
      case True
      with n "1.prems" show ?thesis
        by (simp add: digits10.simps [of n] digits10.simps [of m] digit_char_eq)
    next
      case False
      with n "1.prems" digits10_not_Nil [of "m div 10"] show ?thesis
        by (simp add: digits10.simps [of n] digits10.simps [of m])
    qed
  next
    case n: False
    show ?thesis
    proof (cases "m < 10")
      case True
      with n "1.prems" digits10_not_Nil [of "n div 10"] show ?thesis
        by (simp add: digits10.simps [of n] digits10.simps [of m])
    next
      case False
      with n "1.prems" have "digits10 (n div 10) = digits10 (m div 10)"
        "digit_char (n mod 10) = digit_char (m mod 10)"
        by (simp_all add: digits10.simps [of n] digits10.simps [of m])
      with "1.IH" [OF n, of "m div 10"] have "n div 10 = m div 10" "n mod 10 = m mod 10"
        by (simp_all add: digit_char_eq)
      then show ?thesis by (metis div_mult_mod_eq)
    qed
  qed
qed

lemma str_int_digits: "c \<in> set (str_int i) \<Longrightarrow> c = CHR ''-'' \<or> is_digit c"
  using digits10_digits [of "nat i"] digits10_digits [of "nat (- i)"]
  by (auto simp: str_int_def list_all_iff split: if_splits)

lemma str_int_no_slash: "CHR ''/'' \<notin> set (str_int i)"
  using str_int_digits [of "CHR ''/''" i] by (auto simp: is_digit_def)

lemma str_int_inj: "str_int i = str_int j \<Longrightarrow> i = j"
proof -
  assume e: "str_int i = str_int j"
  have nd: "\<not> is_digit CHR ''-''" by (simp add: is_digit_def)
  have hd: "\<And>n. is_digit (hd (digits10 n))"
    using digits10_digits digits10_not_Nil by (metis list.set_sel(1) list_all_iff)
  show ?thesis
  proof (cases "i < 0")
    case i: True
    show ?thesis
    proof (cases "j < 0")
      case True
      with i e have "digits10 (nat (- i)) = digits10 (nat (- j))" by (simp add: str_int_def)
      from digits10_inj [OF this] i True show ?thesis by simp
    next
      case False
      with i e have "CHR ''-'' # digits10 (nat (- i)) = digits10 (nat j)"
        by (simp add: str_int_def)
      with hd [of "nat j"] nd show ?thesis by (metis list.sel(1))
    qed
  next
    case i: False
    show ?thesis
    proof (cases "j < 0")
      case True
      with i e have "digits10 (nat i) = CHR ''-'' # digits10 (nat (- j))"
        by (simp add: str_int_def)
      with hd [of "nat i"] nd show ?thesis by (metis list.sel(1))
    next
      case False
      with i e have "digits10 (nat i) = digits10 (nat j)" by (simp add: str_int_def)
      from digits10_inj [OF this] i False show ?thesis by simp
    qed
  qed
qed

text \<open>The text after the last slash of a token's plain form is the byte count.\<close>

lemma last_field_unique:
  assumes "CHR ''/'' \<notin> set x" "CHR ''/'' \<notin> set y" "p @ CHR ''/'' # x = q @ CHR ''/'' # y"
  shows "x = y"
proof -
  from assms(3) have "rev x @ CHR ''/'' # rev p = rev y @ CHR ''/'' # rev q"
    by (metis rev.simps(2) rev_append append_assoc append_Cons append_Nil)
  then have "takeWhile (\<lambda>c. c \<noteq> CHR ''/'') (rev x @ CHR ''/'' # rev p)
           = takeWhile (\<lambda>c. c \<noteq> CHR ''/'') (rev y @ CHR ''/'' # rev q)" by simp
  moreover have "\<And>z r. CHR ''/'' \<notin> set z \<Longrightarrow>
      takeWhile (\<lambda>c. c \<noteq> CHR ''/'') (rev z @ CHR ''/'' # r) = rev z"
    by (subst takeWhile_append2) auto
  ultimately have "rev x = rev y" using assms(1,2) by simp
  then show ?thesis by simp
qed

lemma join_slash_5:
  "join_slash [a, b, c, d, x] = (a @ ''/'' @ b @ ''/'' @ c @ ''/'' @ d) @ CHR ''/'' # x"
  by simp

lemma make_rewrite_token_not_Nil: "make_rewrite_token operation db dobj g \<noteq> []"
  by (simp add: make_rewrite_token_def b64encode_eq_Nil)

lemma make_rewrite_token_bytes:
  assumes "make_rewrite_token operation db dobj g = make_rewrite_token operation' db' dobj' g'"
  shows "bytes_rewritten operation = bytes_rewritten operation'"
proof -
  from assms have "join_slash [str_int (op_id operation), db, dobj, str_int_opt g,
                     str_int (bytes_rewritten operation)]
                 = join_slash [str_int (op_id operation'), db', dobj', str_int_opt g',
                     str_int (bytes_rewritten operation')]"
    unfolding make_rewrite_token_def by (rule b64encode_inj)
  then have "str_int (bytes_rewritten operation) = str_int (bytes_rewritten operation')"
    unfolding join_slash_5 by (rule last_field_unique [OF str_int_no_slash str_int_no_slash])
  then show ?thesis by (rule str_int_inj)
qed

section \<open>Rewrite\<close>

lemma capture_keys:
  "map fst (capture_rewrite_operation_arguments req db dobj)
     = rewrite_fixed_args @ [''destination_bucket'', ''destination_object'']"
  by (simp add: capture_rewrite_operation_arguments_def rewrite_fixed_args_def dict_update_def)

lemma take_without_token:
  assumes "args req ''rewriteToken'' = None \<or> args req ''rewriteToken'' = Some []"
    and "take_rewrite_operation e self req db = (r, self1)"
  shows "rewrite_operations self1 = rewrite_operations self"
    and "revisions self1 = revisions self"
    and "r = Inr rewrite \<Longrightarrow>
           bytes_rewritten rewrite = 0
           \<and> get_revision_by_generation self1 (actual_generation rewrite) = rewrite_source self req
           \<and> map fst (original_arguments rewrite)
               = rewrite_fixed_args @ [''destination_bucket'', ''destination_object'']"
  using assms
  by (auto simp: take_rewrite_operation_def make_rewrite_operation_def Let_def capture_keys
        rewrite_source_def get_revision_by_generation_def
        split: option.splits sum.splits prod.splits)

lemma take_with_token:
  assumes "args req ''rewriteToken'' = Some t" and "t \<noteq> []"
  shows "take_rewrite_operation e self req db =
           (case map_of (rewrite_operations self) t of
              None \<Rightarrow> (Inl gone, self)
            | Some rewrite \<Rightarrow>
                (Inr rewrite, self\<lparr>rewrite_operations := AList.delete t (rewrite_operations self)\<rparr>))"
  by (cases "map_of (rewrite_operations self) t")
     (simp_all add: take_rewrite_operation_def Let_def gone_def assms)

lemma rewrite_finish_rewrite_operations:
  assumes "rewrite_finish e self url req body source = (r, self')"
  shows "rewrite_operations self' = rewrite_operations self"
  using assms
  by (auto simp: rewrite_finish_def Let_def split: sum.splits prod.splits
        dest: install_rewrite_operations)

text \<open>A step that returns a response.\<close>

lemma rewrite_advance_Inr:
  assumes "rewrite_advance e w1 self url req body rewrite db dobj = (Inr res, w')"
  obtains source where
    "get_revision_by_generation (heap w1 self) (actual_generation rewrite) = Some source"
    "int (length (media source)) \<le> bytes_rewritten rewrite + 1048576 \<Longrightarrow>
       dget res ''done'' = JBool True
       \<and> dget res ''totalBytesRewritten'' = JInt (int (length (media source)))
       \<and> dget res ''rewriteToken'' = JStr []"
    "bytes_rewritten rewrite + 1048576 < int (length (media source)) \<Longrightarrow>
       dget res ''done'' = JBool False
       \<and> dget res ''totalBytesRewritten'' = JInt (bytes_rewritten rewrite + 1048576)
       \<and> dget res ''rewriteToken''
           = JStr (make_rewrite_token (rewrite\<lparr>bytes_rewritten := bytes_rewritten rewrite + 1048576\<rparr>)
                     db dobj (Some (v_generation source)))
       \<and> w' = set_object w1 self
                ((heap w1 self)\<lparr>rewrite_operations :=
                    AList.update
                      (make_rewrite_token (rewrite\<lparr>bytes_rewritten := bytes_rewritten rewrite + 1048576\<rparr>)
                         db dobj (Some (v_generation source)))
                      (rewrite\<lparr>bytes_rewritten := bytes_rewritten rewrite + 1048576\<rparr>)
                      (rewrite_operations (heap w1 self))\<rparr>)"
proof -
  from assms obtain source where
    s: "get_revision_by_generation (heap w1 self) (actual_generation rewrite) = Some source"
    unfolding rewrite_advance_def Let_def
    by (auto split: if_splits option.splits)
  from assms s have v: "validate_encryption_for_read e source req ''x-goog-copy-source-encryption''
                          = Inr ()"
    unfolding rewrite_advance_def Let_def
    by (auto split: if_splits sum.splits)
  from assms have d: "(set (map fst (capture_rewrite_operation_arguments req db dobj))
           - set (map fst (original_arguments rewrite)))
         \<union> (set (map fst (original_arguments rewrite))
           - set (map fst (capture_rewrite_operation_arguments req db dobj))) = {}"
    unfolding rewrite_advance_def Let_def by (auto split: if_splits)
  show ?thesis
  proof (rule that [OF s])
    assume big: "int (length (media source)) \<le> bytes_rewritten rewrite + 1048576"
    with assms s v d have
      "rewrite_complete e w1 url req body source
         [(''kind'', JStr ''storage#rewriteResponse''),
          (''objectSize'', JInt (int (length (media source))))] db dobj = (Inr res, w')"
      unfolding rewrite_advance_def Let_def by simp
    then show "dget res ''done'' = JBool True
       \<and> dget res ''totalBytesRewritten'' = JInt (int (length (media source)))
       \<and> dget res ''rewriteToken'' = JStr []"
      unfolding rewrite_complete_def Let_def
      by (auto simp: dget_def dict_update_def split: prod.splits sum.splits)
  next
    assume small: "bytes_rewritten rewrite + 1048576 < int (length (media source))"
    with assms s v d show "dget res ''done'' = JBool False
       \<and> dget res ''totalBytesRewritten'' = JInt (bytes_rewritten rewrite + 1048576)
       \<and> dget res ''rewriteToken''
           = JStr (make_rewrite_token (rewrite\<lparr>bytes_rewritten := bytes_rewritten rewrite + 1048576\<rparr>)
                     db dobj (Some (v_generation source)))
       \<and> w' = set_object w1 self
                ((heap w1 self)\<lparr>rewrite_operations :=
                    AList.update
                      (make_rewrite_token (rewrite\<lparr>bytes_rewritten := bytes_rewritten rewrite + 1048576\<rparr>)
                         db dobj (Some (v_generation source)))
                      (rewrite\<lparr>bytes_rewritten := bytes_rewritten rewrite + 1048576\<rparr>)
                      (rewrite_operations (heap w1 self))\<rparr>)"
      unfolding rewrite_advance_def Let_def
      by (auto simp: dget_def dict_update_def)
  qed
qed

lemma rewrite_step_Inr:
  assumes "rewrite_step e w self url req db dobj = (Inr res, w')"
  obtains body rewrite self1 where
    "json_loads e (data req) = Some body"
    "take_rewrite_operation e (heap w self) req db = (Inr rewrite, self1)"
    "rewrite_advance e (set_object w self self1) self url req body rewrite db dobj = (Inr res, w')"
  using assms unfolding rewrite_step_def
  by (auto split: option.splits prod.splits sum.splits)

text \<open>A revision constructed without an encryption key has no \<open>customerEncryption\<close>.\<close>

lemma GcsObjectVersion_init_unencrypted:
  assumes "GcsObjectVersion_init e url bname oname g req m0 = Inr revision"
    and "headers req ''x-goog-encryption-key'' = None"
  shows "map_of (metadata revision) ''customerEncryption'' = None"
proof -
  from assms(1) obtain s1 s2 s3 where
    s1: "update_from_metadata e (initial_revision e url bname oname g req m0) [] = (Inr (), s1)"
    and s2: "capture_customer_encryption e s1 req = Inr s2"
    and s3: "update_predefined_acl e s2 (args req ''predefinedAcl'') = (Inr (), s3)"
    and r: "(headers req ''x-goog-acl'' = None \<and> revision = s3) \<or>
     (\<exists>acl p. headers req ''x-goog-acl'' = Some acl \<and> map_of acl2json_mapping acl = Some p \<and>
        update_predefined_acl e s3 (Some p) = (Inr (), revision))"
    by (rule GcsObjectVersion_init_Inr)
  obtain s1' where
    "update_from_metadata e (initial_revision e url bname oname g req m0) [] = (Inr (), s1')"
    "map_of (metadata s1') ''customerEncryption'' = None"
    by (rule update_initial_revision)
  with s1 have "map_of (metadata s1) ''customerEncryption'' = None" by simp
  moreover from s2 assms(2) have "s2 = s1" by (simp add: capture_customer_encryption_def)
  ultimately have "map_of (metadata s3) ''customerEncryption'' = None"
    using update_predefined_acl_other_keys [OF s3, of "''customerEncryption''"] by simp
  with r show ?thesis
    by (auto dest: update_predefined_acl_other_keys [where k = "''customerEncryption''"])
qed

lemma validate_encryption_for_read_plain:
  assumes "map_of (metadata self) ''customerEncryption'' = None"
    and "headers req (pfx @ ''-key'') = None"
  shows "validate_encryption_for_read e self req pfx = Inr ()"
  using assms by (simp add: validate_encryption_for_read_def Let_def dget_def)




lemma original_keys_no_diff:
  assumes "map fst (original_arguments rewrite)
             = rewrite_fixed_args @ [''destination_bucket'', ''destination_object'']"
  shows "(set (map fst (capture_rewrite_operation_arguments req db dobj))
           - set (map fst (original_arguments rewrite)))
         \<union> (set (map fst (original_arguments rewrite))
           - set (map fst (capture_rewrite_operation_arguments req db dobj))) = {}"
  unfolding assms capture_keys by simp

lemma rewrite_advance_partial:
  assumes "map fst (original_arguments rewrite)
             = rewrite_fixed_args @ [''destination_bucket'', ''destination_object'']"
    and "get_revision_by_generation (heap w1 self) (actual_generation rewrite) = Some source"
    and "validate_encryption_for_read e source req ''x-goog-copy-source-encryption'' = Inr ()"
    and "bytes_rewritten rewrite + 1048576 < int (length (media source))"
  shows "\<exists>res. rewrite_advance e w1 self url req body rewrite db dobj =
           (Inr res,
            set_object w1 self
              ((heap w1 self)\<lparr>rewrite_operations :=
                  AList.update
                    (make_rewrite_token
                       (rewrite\<lparr>bytes_rewritten := bytes_rewritten rewrite + 1048576\<rparr>)
                       db dobj (Some (v_generation source)))
                    (rewrite\<lparr>bytes_rewritten := bytes_rewritten rewrite + 1048576\<rparr>)
                    (rewrite_operations (heap w1 self))\<rparr>))"
  using assms(2-4) original_keys_no_diff [OF assms(1), of req db dobj]
  unfolding rewrite_advance_def Let_def by simp


lemma get_revision_by_generation_revisions:
  "revisions a = revisions b \<Longrightarrow>
     get_revision_by_generation a g = get_revision_by_generation b g"
  by (cases g) (simp_all add: get_revision_by_generation_def)

lemma rewrite_step_without_token:
  assumes s: "rewrite_step e w self url req db dobj = (Inr res, w')"
    and n: "args req ''rewriteToken'' = None \<or> args req ''rewriteToken'' = Some []"
    and src: "rewrite_source (heap w self) req = Some source"
    and small: "1048576 < int (length (media source))"
  obtains rewrite where
    "dget res ''done'' = JBool False" "dget res ''totalBytesRewritten'' = JInt 1048576"
    "dget res ''rewriteToken''
       = JStr (make_rewrite_token rewrite db dobj (Some (v_generation source)))"
    "bytes_rewritten rewrite = 1048576"
    "map_of (rewrite_operations (heap w' self))
       (make_rewrite_token rewrite db dobj (Some (v_generation source))) = Some rewrite"
    "get_revision_by_generation (heap w' self) (actual_generation rewrite) = Some source"
    "map fst (original_arguments rewrite)
       = rewrite_fixed_args @ [''destination_bucket'', ''destination_object'']"
    "GCS_OBJECTS w' = GCS_OBJECTS w" "next_ref w' = next_ref w"
proof -
  from s obtain body rewrite self1 where
    t: "take_rewrite_operation e (heap w self) req db = (Inr rewrite, self1)"
    and a: "rewrite_advance e (set_object w self self1) self url req body rewrite db dobj
              = (Inr res, w')"
    by (rule rewrite_step_Inr)
  note k = take_without_token [OF n t]
  from k(3) [of rewrite] src have
    b: "bytes_rewritten rewrite = 0"
    and g: "get_revision_by_generation self1 (actual_generation rewrite) = Some source"
    and keys: "map fst (original_arguments rewrite)
                 = rewrite_fixed_args @ [''destination_bucket'', ''destination_object'']"
    by simp_all
  let ?r = "rewrite\<lparr>bytes_rewritten := 1048576\<rparr>"
  let ?t = "make_rewrite_token ?r db dobj (Some (v_generation source))"
  from a obtain source' where
    s': "get_revision_by_generation (heap (set_object w self self1) self)
           (actual_generation rewrite) = Some source'"
    and c: "int (length (media source')) \<le> bytes_rewritten rewrite + 1048576 \<Longrightarrow>
       dget res ''done'' = JBool True
       \<and> dget res ''totalBytesRewritten'' = JInt (int (length (media source')))
       \<and> dget res ''rewriteToken'' = JStr []"
    and p: "bytes_rewritten rewrite + 1048576 < int (length (media source')) \<Longrightarrow>
       dget res ''done'' = JBool False
       \<and> dget res ''totalBytesRewritten'' = JInt (bytes_rewritten rewrite + 1048576)
       \<and> dget res ''rewriteToken''
           = JStr (make_rewrite_token (rewrite\<lparr>bytes_rewritten := bytes_rewritten rewrite + 1048576\<rparr>)
                     db dobj (Some (v_generation source')))
       \<and> w' = set_object (set_object w self self1) self
                ((heap (set_object w self self1) self)\<lparr>rewrite_operations :=
                    AList.update
                      (make_rewrite_token (rewrite\<lparr>bytes_rewritten := bytes_rewritten rewrite + 1048576\<rparr>)
                         db dobj (Some (v_generation source')))
                      (rewrite\<lparr>bytes_rewritten := bytes_rewritten rewrite + 1048576\<rparr>)
                      (rewrite_operations (heap (set_object w self self1) self))\<rparr>)"
    by (rule rewrite_advance_Inr) blast
  from s' g have e: "source' = source" by (simp add: set_object_def)
  from p small b e have
    f: "dget res ''done'' = JBool False" "dget res ''totalBytesRewritten'' = JInt 1048576"
      "dget res ''rewriteToken'' = JStr ?t"
      "w' = set_object (set_object w self self1) self
              (self1\<lparr>rewrite_operations := AList.update ?t ?r (rewrite_operations self1)\<rparr>)"
    by (simp_all add: set_object_def)
  have "map_of (rewrite_operations (heap w' self)) ?t = Some ?r"
    by (simp add: f(4) set_object_def update_conv')
  moreover have "get_revision_by_generation (heap w' self) (actual_generation ?r)
                   = get_revision_by_generation self1 (actual_generation ?r)"
    by (rule get_revision_by_generation_revisions) (simp add: f(4) set_object_def)
  with g have "get_revision_by_generation (heap w' self) (actual_generation ?r) = Some source"
    by simp
  moreover have "GCS_OBJECTS w' = GCS_OBJECTS w" "next_ref w' = next_ref w"
    by (simp_all add: f(4) set_object_def)
  ultimately show ?thesis
    using that [of ?r] f(1-3) keys by simp
qed

lemma rewrite_step_with_token:
  assumes s: "rewrite_step e w self url req db dobj = (Inr res, w')"
    and t: "args req ''rewriteToken'' = Some t" "t \<noteq> []"
    and op: "map_of (rewrite_operations (heap w self)) t = Some rewrite"
    and src: "get_revision_by_generation (heap w self) (actual_generation rewrite) = Some source"
  shows "int (length (media source)) \<le> bytes_rewritten rewrite + 1048576 \<Longrightarrow>
           dget res ''done'' = JBool True
           \<and> dget res ''totalBytesRewritten'' = JInt (int (length (media source)))
           \<and> dget res ''rewriteToken'' = JStr []"
    and "bytes_rewritten rewrite + 1048576 < int (length (media source)) \<Longrightarrow>
           \<exists>rewrite'. dget res ''done'' = JBool False
             \<and> dget res ''totalBytesRewritten'' = JInt (bytes_rewritten rewrite + 1048576)
             \<and> dget res ''rewriteToken''
                 = JStr (make_rewrite_token rewrite' db dobj (Some (v_generation source)))
             \<and> bytes_rewritten rewrite' = bytes_rewritten rewrite + 1048576
             \<and> map_of (rewrite_operations (heap w' self))
                 (make_rewrite_token rewrite' db dobj (Some (v_generation source)))
                 = Some rewrite'
             \<and> get_revision_by_generation (heap w' self) (actual_generation rewrite')
                 = Some source
             \<and> original_arguments rewrite' = original_arguments rewrite
             \<and> GCS_OBJECTS w' = GCS_OBJECTS w \<and> next_ref w' = next_ref w"
proof -
  let ?self1 = "(heap w self)\<lparr>rewrite_operations := AList.delete t (rewrite_operations (heap w self))\<rparr>"
  have tk: "take_rewrite_operation e (heap w self) req db = (Inr rewrite, ?self1)"
    using take_with_token [OF t, of e "heap w self" db] op by simp
  from s obtain body rewrite0 self1 where
    t0: "take_rewrite_operation e (heap w self) req db = (Inr rewrite0, self1)"
    and a0: "rewrite_advance e (set_object w self self1) self url req body rewrite0 db dobj
              = (Inr res, w')"
    by (rule rewrite_step_Inr)
  from t0 tk a0 have
    a: "rewrite_advance e (set_object w self ?self1) self url req body rewrite db dobj
          = (Inr res, w')" by simp
  let ?n = "bytes_rewritten rewrite + 1048576"
  let ?w1 = "set_object w self ?self1"
  from a obtain source' where
    s': "get_revision_by_generation (heap ?w1 self) (actual_generation rewrite) = Some source'"
    and c: "int (length (media source')) \<le> bytes_rewritten rewrite + 1048576 \<Longrightarrow>
       dget res ''done'' = JBool True
       \<and> dget res ''totalBytesRewritten'' = JInt (int (length (media source')))
       \<and> dget res ''rewriteToken'' = JStr []"
    and p: "bytes_rewritten rewrite + 1048576 < int (length (media source')) \<Longrightarrow>
       dget res ''done'' = JBool False
       \<and> dget res ''totalBytesRewritten'' = JInt (bytes_rewritten rewrite + 1048576)
       \<and> dget res ''rewriteToken''
           = JStr (make_rewrite_token (rewrite\<lparr>bytes_rewritten := bytes_rewritten rewrite + 1048576\<rparr>)
                     db dobj (Some (v_generation source')))
       \<and> w' = set_object ?w1 self
                ((heap ?w1 self)\<lparr>rewrite_operations :=
                    AList.update
                      (make_rewrite_token (rewrite\<lparr>bytes_rewritten := bytes_rewritten rewrite + 1048576\<rparr>)
                         db dobj (Some (v_generation source')))
                      (rewrite\<lparr>bytes_rewritten := bytes_rewritten rewrite + 1048576\<rparr>)
                      (rewrite_operations (heap ?w1 self))\<rparr>)"
    by (rule rewrite_advance_Inr) blast
  have "get_revision_by_generation (heap ?w1 self) (actual_generation rewrite)
          = get_revision_by_generation (heap w self) (actual_generation rewrite)"
    by (rule get_revision_by_generation_revisions) (simp add: set_object_def)
  with s' src have e: "source' = source" by simp
  show "int (length (media source)) \<le> bytes_rewritten rewrite + 1048576 \<Longrightarrow>
           dget res ''done'' = JBool True
           \<and> dget res ''totalBytesRewritten'' = JInt (int (length (media source)))
           \<and> dget res ''rewriteToken'' = JStr []"
    using c e by simp
  show "\<exists>rewrite'. dget res ''done'' = JBool False
             \<and> dget res ''totalBytesRewritten'' = JInt (bytes_rewritten rewrite + 1048576)
             \<and> dget res ''rewriteToken''
                 = JStr (make_rewrite_token rewrite' db dobj (Some (v_generation source)))
             \<and> bytes_rewritten rewrite' = bytes_rewritten rewrite + 1048576
             \<and> map_of (rewrite_operations (heap w' self))
                 (make_rewrite_token rewrite' db dobj (Some (v_generation source)))
                 = Some rewrite'
             \<and> get_revision_by_generation (heap w' self) (actual_generation rewrite')
                 = Some source
             \<and> original_arguments rewrite' = original_arguments rewrite
             \<and> GCS_OBJECTS w' = GCS_OBJECTS w \<and> next_ref w' = next_ref w"
    if small: "bytes_rewritten rewrite + 1048576 < int (length (media source))"
  proof -
    let ?r = "rewrite\<lparr>bytes_rewritten := ?n\<rparr>"
    let ?t = "make_rewrite_token ?r db dobj (Some (v_generation source))"
    from p small e have
      f: "dget res ''done'' = JBool False" "dget res ''totalBytesRewritten'' = JInt ?n"
        "dget res ''rewriteToken'' = JStr ?t"
        "w' = set_object ?w1 self
                (?self1\<lparr>rewrite_operations := AList.update ?t ?r (rewrite_operations ?self1)\<rparr>)"
      by (simp_all add: set_object_def)
    have "map_of (rewrite_operations (heap w' self)) ?t = Some ?r"
      by (simp add: f(4) set_object_def update_conv')
    moreover have "get_revision_by_generation (heap w' self) (actual_generation ?r)
                     = get_revision_by_generation (heap w self) (actual_generation ?r)"
      by (rule get_revision_by_generation_revisions) (simp add: f(4) set_object_def)
    with src have "get_revision_by_generation (heap w' self) (actual_generation ?r) = Some source"
      by simp
    moreover have "GCS_OBJECTS w' = GCS_OBJECTS w" "next_ref w' = next_ref w"
      by (simp_all add: f(4) set_object_def)
    ultimately show ?thesis
      using f(1-3) by (intro exI [of _ ?r]) simp
  qed
qed

section \<open>Steps that return\<close>

lemma rewrite_step_starts:
  assumes "json_loads e (data req) = Some body"
    and "args req ''rewriteToken'' = None" and "args req ''sourceGeneration'' = None"
    and "generation (heap w self) = Some g" and "map_of (revisions (heap w self)) g = Some source"
    and "validate_encryption_for_read e source req ''x-goog-copy-source-encryption'' = Inr ()"
    and "1048576 < int (length (media source))"
  shows "\<exists>res w'. rewrite_step e w self url req db dobj = (Inr res, w')"
proof -
  obtain rewrite self1 where
    t: "take_rewrite_operation e (heap w self) req db = (Inr rewrite, self1)"
    using assms(1-4)
    by (simp add: take_rewrite_operation_def make_rewrite_operation_def Let_def)
  have n: "args req ''rewriteToken'' = None \<or> args req ''rewriteToken'' = Some []"
    using assms(2) by simp
  note k = take_without_token [OF n t]
  have src: "rewrite_source (heap w self) req = Some source"
    using assms(3-5) by (simp add: rewrite_source_def get_revision_by_generation_def)
  from k(3) [of rewrite] src have
    b: "bytes_rewritten rewrite = 0"
    and g: "get_revision_by_generation self1 (actual_generation rewrite) = Some source"
    and keys: "map fst (original_arguments rewrite)
                 = rewrite_fixed_args @ [''destination_bucket'', ''destination_object'']"
    by simp_all
  have g': "get_revision_by_generation (heap (set_object w self self1) self)
              (actual_generation rewrite) = Some source"
    using g by (simp add: set_object_def)
  have small: "bytes_rewritten rewrite + 1048576 < int (length (media source))"
    using b assms(7) by simp
  from rewrite_advance_partial [OF keys g' assms(6) small, of url body db dobj]
  show ?thesis by (auto simp: rewrite_step_def assms(1) t)
qed

lemma rewrite_step_continues:
  assumes "json_loads e (data req) = Some body"
    and "args req ''rewriteToken'' = Some t" and "t \<noteq> []"
    and "map_of (rewrite_operations (heap w self)) t = Some rewrite"
    and "map fst (original_arguments rewrite)
           = rewrite_fixed_args @ [''destination_bucket'', ''destination_object'']"
    and "get_revision_by_generation (heap w self) (actual_generation rewrite) = Some source"
    and "validate_encryption_for_read e source req ''x-goog-copy-source-encryption'' = Inr ()"
    and "bytes_rewritten rewrite + 1048576 < int (length (media source))"
  shows "\<exists>res w'. rewrite_step e w self url req db dobj = (Inr res, w')"
proof -
  let ?self1 = "(heap w self)\<lparr>rewrite_operations := AList.delete t (rewrite_operations (heap w self))\<rparr>"
  have tk: "take_rewrite_operation e (heap w self) req db = (Inr rewrite, ?self1)"
    using take_with_token [OF assms(2,3), of e "heap w self" db] assms(4) by simp
  have "get_revision_by_generation (heap (set_object w self ?self1) self)
          (actual_generation rewrite)
          = get_revision_by_generation (heap w self) (actual_generation rewrite)"
    by (rule get_revision_by_generation_revisions) (simp add: set_object_def)
  with assms(6) have
    g: "get_revision_by_generation (heap (set_object w self ?self1) self)
          (actual_generation rewrite) = Some source" by simp
  from rewrite_advance_partial [OF assms(5) g assms(7,8), of url body db dobj]
  show ?thesis by (auto simp: rewrite_step_def assms(1) tk)
qed


section \<open>The example rewrite\<close>

lemma length_big_media: "length big_media = 3145728"
  by (simp add: big_media_def)

lemma source_revision:
  obtains source where
    "map_of (revisions source_object) 1 = Some source" "media source = big_media"
    "map_of (metadata source) ''customerEncryption'' = None"
proof -
  from example_init_succeeds [of "''bucket''" example_url "''source''" 1 big_media]
  obtain r where
    r: "GcsObjectVersion_init example_env example_url ''bucket'' ''source'' 1
          plain_request big_media = Inr r" by auto
  from GcsObjectVersion_init_constructed [OF r]
  have "media r = big_media"
    by (simp add: constructed_def stored_payload_def plain_request_simps)
  moreover from GcsObjectVersion_init_unencrypted [OF r]
  have "map_of (metadata r) ''customerEncryption'' = None"
    by (simp add: plain_request_simps)
  ultimately show ?thesis using that [of r] r by (simp add: source_object_def)
qed

lemma rewrite_world_simps:
  "heap rewrite_world 0 = source_object" "next_ref rewrite_world = 1"
  "GCS_OBJECTS rewrite_world = [((''bucket'', ''source''), 0)]"
  by (simp_all add: rewrite_world_def)

lemma source_object_simps:
  "generation source_object = Some 1" "rewrite_operations source_object = []"
  by (simp_all add: source_object_def)

lemma json_loads_example: "json_loads example_env ''{}'' = Some (JObj [])"
  by (simp add: example_env_simps strip_def is_space_def)

lemma continuation_request_simps:
  "headers (continuation_request t) h = None"
  "args (continuation_request t) ''rewriteToken'' = Some t"
  "a \<noteq> ''rewriteToken'' \<Longrightarrow> args (continuation_request t) a = None"
  "data (continuation_request t) = ''{}''"
  by (simp_all add: continuation_request_def)

text \<open>The states the example rewrite goes through.\<close>

lemma first_call_returns:
  obtains source res1 w1 rewrite1 where
    "map_of (revisions source_object) 1 = Some source" "media source = big_media"
    "map_of (metadata source) ''customerEncryption'' = None"
    "rewrite_source (heap rewrite_world 0) plain_request = Some source"
    "first_call = (Inr res1, w1)"
    "returned_token first_call
       = make_rewrite_token rewrite1 ''bucket'' ''copy'' (Some (v_generation source))"
    "bytes_rewritten rewrite1 = 1048576"
    "map_of (rewrite_operations (heap w1 0)) (returned_token first_call) = Some rewrite1"
    "get_revision_by_generation (heap w1 0) (actual_generation rewrite1) = Some source"
    "map fst (original_arguments rewrite1)
       = rewrite_fixed_args @ [''destination_bucket'', ''destination_object'']"
    "GCS_OBJECTS w1 = [((''bucket'', ''source''), 0)]" "next_ref w1 = 1"
    "dget res1 ''rewriteToken'' = JStr (returned_token first_call)"
proof -
  obtain source where
    s: "map_of (revisions source_object) 1 = Some source" "media source = big_media"
      "map_of (metadata source) ''customerEncryption'' = None"
    by (rule source_revision)
  have v: "validate_encryption_for_read example_env source plain_request
             ''x-goog-copy-source-encryption'' = Inr ()"
    by (rule validate_encryption_for_read_plain [OF s(3)]) (simp add: plain_request_simps)
  have j: "json_loads example_env (data plain_request) = Some (JObj [])"
    using json_loads_example by (simp add: plain_request_simps)
  have a: "args plain_request ''rewriteToken'' = None"
    "args plain_request ''sourceGeneration'' = None"
    by (simp_all add: plain_request_simps)
  have g: "generation (heap rewrite_world 0) = Some 1"
    "map_of (revisions (heap rewrite_world 0)) 1 = Some source"
    using s(1) by (simp_all add: rewrite_world_simps source_object_simps)
  have big: "1048576 < int (length (media source))"
    by (simp add: s(2) length_big_media)
  from rewrite_step_starts [OF j a g v big, of example_url "''bucket''" "''copy''"]
  obtain res1 w1 where c: "first_call = (Inr res1, w1)"
    by (auto simp: first_call_def)
  have src: "rewrite_source (heap rewrite_world 0) plain_request = Some source"
    using a(2) g by (simp add: rewrite_source_def get_revision_by_generation_def)
  have n: "args plain_request ''rewriteToken'' = None
             \<or> args plain_request ''rewriteToken'' = Some []"
    using a(1) by simp
  from rewrite_step_without_token [OF c [unfolded first_call_def] n src big]
  obtain rewrite1 where
    f: "dget res1 ''rewriteToken''
         = JStr (make_rewrite_token rewrite1 ''bucket'' ''copy'' (Some (v_generation source)))"
      "bytes_rewritten rewrite1 = 1048576"
      "map_of (rewrite_operations (heap w1 0))
         (make_rewrite_token rewrite1 ''bucket'' ''copy'' (Some (v_generation source)))
         = Some rewrite1"
      "get_revision_by_generation (heap w1 0) (actual_generation rewrite1) = Some source"
      "map fst (original_arguments rewrite1)
         = rewrite_fixed_args @ [''destination_bucket'', ''destination_object'']"
      "GCS_OBJECTS w1 = GCS_OBJECTS rewrite_world" "next_ref w1 = next_ref rewrite_world"
    by metis
  have t: "returned_token first_call
             = make_rewrite_token rewrite1 ''bucket'' ''copy'' (Some (v_generation source))"
    by (simp add: returned_token_def c f(1))
  show ?thesis
    using that [OF s src c t f(2) f(3) [folded t] f(4,5)] f(6,7) f(1) [folded t]
    by (simp add: rewrite_world_simps)
qed

section \<open>What a step does to the table\<close>

lemma rewrite_complete_operations:
  assumes "self < next_ref w1"
  shows "rewrite_operations
           (heap (snd (rewrite_complete e w1 url req body source result db dobj)) self)
         = rewrite_operations (heap w1 self)"
proof -
  let ?w2 = "w1\<lparr>heap := (heap w1)(next_ref w1 := GcsObject_init db dobj),
                 next_ref := Suc (next_ref w1)\<rparr>"
  define destination where
    "destination = (case map_of (GCS_OBJECTS w1) (db, dobj) of
                      None \<Rightarrow> next_ref w1 | Some r \<Rightarrow> r)"
  obtain r dest1 where
    f: "rewrite_finish e (heap ?w2 destination) url req body source = (r, dest1)"
    by (cases "rewrite_finish e (heap ?w2 destination) url req body source")
  note k = rewrite_finish_rewrite_operations [OF f]
  have n: "self \<noteq> next_ref w1" using assms by simp
  have c: "rewrite_complete e w1 url req body source result db dobj =
             (case r of
                Inl err \<Rightarrow> (Inl err, set_object ?w2 destination dest1)
              | Inr revision \<Rightarrow>
                  (Inr (dict_update
                          (AList.update ''resource'' (JObj (metadata revision))
                             (AList.update ''done'' (JBool True) result))
                          [(''totalBytesRewritten'', JInt (int (length (media source)))),
                           (''rewriteToken'', JStr [])]),
                   insert_object (set_object ?w2 destination dest1) (db, dobj) destination))"
    using f
    by (cases r)
       (simp_all add: rewrite_complete_def Let_def new_object_def get_object_def destination_def)
  show ?thesis
  proof (cases "destination = self")
    case True
    with k n show ?thesis
      unfolding c by (cases r) (simp_all add: set_object_def insert_object_def)
  next
    case False
    with n show ?thesis
      unfolding c by (cases r) (simp_all add: set_object_def insert_object_def)
  qed
qed

lemma rewrite_advance_operations:
  assumes "self < next_ref w1"
  shows "rewrite_operations
           (heap (snd (rewrite_advance e w1 self url req body rewrite db dobj)) self)
           = rewrite_operations (heap w1 self)
         \<or> (\<exists>g. rewrite_operations
                  (heap (snd (rewrite_advance e w1 self url req body rewrite db dobj)) self)
                = AList.update
                    (make_rewrite_token
                       (rewrite\<lparr>bytes_rewritten := bytes_rewritten rewrite + 1048576\<rparr>) db dobj g)
                    (rewrite\<lparr>bytes_rewritten := bytes_rewritten rewrite + 1048576\<rparr>)
                    (rewrite_operations (heap w1 self)))"
  using rewrite_complete_operations [OF assms]
  unfolding rewrite_advance_def Let_def
  by (auto simp: set_object_def split: option.splits sum.splits)

lemma token_moves_on:
  assumes "t = make_rewrite_token rewrite db0 dobj0 g0"
  shows "make_rewrite_token (rewrite\<lparr>bytes_rewritten := bytes_rewritten rewrite + 1048576\<rparr>)
           db dobj g \<noteq> t"
proof
  assume "make_rewrite_token (rewrite\<lparr>bytes_rewritten := bytes_rewritten rewrite + 1048576\<rparr>)
            db dobj g = t"
  with assms have
    "make_rewrite_token (rewrite\<lparr>bytes_rewritten := bytes_rewritten rewrite + 1048576\<rparr>)
       db dobj g = make_rewrite_token rewrite db0 dobj0 g0" by simp
  from make_rewrite_token_bytes [OF this] show False by simp
qed

lemma rewrite_step_unparsed:
  assumes "json_loads e (data req) = None"
  shows "rewrite_step e w self url req db dobj = (Inl ValueError, w)"
  using assms by (simp add: rewrite_step_def)

lemma rewrite_step_unknown_token:
  assumes "json_loads e (data req) \<noteq> None"
    and "args req ''rewriteToken'' = Some t" and "t \<noteq> []"
    and "map_of (rewrite_operations (heap w self)) t = None"
  shows "rewrite_step e w self url req db dobj = (Inl gone, w)"
proof -
  from assms(1) obtain body where b: "json_loads e (data req) = Some body" by auto
  have "take_rewrite_operation e (heap w self) req db = (Inl gone, heap w self)"
    using take_with_token [OF assms(2,3), of e "heap w self" db] assms(4) by simp
  then show ?thesis by (simp add: rewrite_step_def b set_object_def)
qed

lemma rewrite_step_removes:
  assumes "json_loads e (data req) \<noteq> None"
    and "args req ''rewriteToken'' = Some t" and "t \<noteq> []"
    and "self < next_ref w"
    and "\<forall>rewrite. map_of (rewrite_operations (heap w self)) t = Some rewrite \<longrightarrow>
           (\<exists>db0 dobj0 g0. t = make_rewrite_token rewrite db0 dobj0 g0)"
  shows "map_of (rewrite_operations (heap (snd (rewrite_step e w self url req db dobj)) self)) t
           = None"
proof (cases "map_of (rewrite_operations (heap w self)) t")
  case None
  from rewrite_step_unknown_token [OF assms(1-3) None] None show ?thesis by simp
next
  case (Some rewrite)
  from assms(1) obtain body where b: "json_loads e (data req) = Some body" by auto
  let ?self1 = "(heap w self)\<lparr>rewrite_operations := AList.delete t (rewrite_operations (heap w self))\<rparr>"
  let ?w1 = "set_object w self ?self1"
  have tk: "take_rewrite_operation e (heap w self) req db = (Inr rewrite, ?self1)"
    using take_with_token [OF assms(2,3), of e "heap w self" db] Some by simp
  have s: "rewrite_step e w self url req db dobj
             = rewrite_advance e ?w1 self url req body rewrite db dobj"
    by (simp add: rewrite_step_def b tk)
  have a: "self < next_ref ?w1" using assms(4) by (simp add: set_object_def)
  have d: "rewrite_operations (heap ?w1 self) = AList.delete t (rewrite_operations (heap w self))"
    by (simp add: set_object_def)
  from assms(5) Some obtain db0 dobj0 g0 where
    i: "t = make_rewrite_token rewrite db0 dobj0 g0" by blast
  let ?ops = "rewrite_operations
                (heap (snd (rewrite_advance e ?w1 self url req body rewrite db dobj)) self)"
  let ?r = "rewrite\<lparr>bytes_rewritten := bytes_rewritten rewrite + 1048576\<rparr>"
  from rewrite_advance_operations [OF a, of e url req body rewrite db dobj]
  consider (same) "?ops = AList.delete t (rewrite_operations (heap w self))"
    | (moved) g where
      "?ops = AList.update (make_rewrite_token ?r db dobj g) ?r
                (AList.delete t (rewrite_operations (heap w self)))"
    unfolding d by blast
  then show ?thesis
  proof cases
    case same
    then show ?thesis unfolding s by (simp add: delete_conv)
  next
    case moved
    with token_moves_on [OF i, of db dobj g] show ?thesis
      unfolding s by (simp add: delete_conv update_conv')
  qed
qed

text \<open>
  A continuation of the example rewrite, for any request without headers that
  presents the token and has the body \<open>{}\<close>.
\<close>

lemma continuation_returns:
  assumes "map_of (rewrite_operations (heap w 0)) t = Some rewrite" and "t \<noteq> []"
    and "map fst (original_arguments rewrite)
           = rewrite_fixed_args @ [''destination_bucket'', ''destination_object'']"
    and "get_revision_by_generation (heap w 0) (actual_generation rewrite) = Some source"
    and "media source = big_media"
    and "map_of (metadata source) ''customerEncryption'' = None"
    and "bytes_rewritten rewrite = 1048576"
    and "headers req = (\<lambda>h. None)" and "args req ''rewriteToken'' = Some t"
    and "data req = ''{}''"
  obtains res w' rewrite' where
    "rewrite_step example_env w 0 example_url req ''bucket'' ''copy'' = (Inr res, w')"
    "dget res ''done'' = JBool False" "dget res ''totalBytesRewritten'' = JInt 2097152"
    "dget res ''rewriteToken''
       = JStr (make_rewrite_token rewrite' ''bucket'' ''copy'' (Some (v_generation source)))"
    "bytes_rewritten rewrite' = 2097152"
    "map_of (rewrite_operations (heap w' 0))
       (make_rewrite_token rewrite' ''bucket'' ''copy'' (Some (v_generation source)))
       = Some rewrite'"
    "get_revision_by_generation (heap w' 0) (actual_generation rewrite') = Some source"
    "map fst (original_arguments rewrite')
       = rewrite_fixed_args @ [''destination_bucket'', ''destination_object'']"
    "GCS_OBJECTS w' = GCS_OBJECTS w" "next_ref w' = next_ref w"
proof -
  have v: "validate_encryption_for_read example_env source req
             ''x-goog-copy-source-encryption'' = Inr ()"
    by (rule validate_encryption_for_read_plain [OF assms(6)]) (simp add: assms(8))
  have j: "json_loads example_env (data req) = Some (JObj [])"
    using json_loads_example by (simp add: assms(10))
  have small: "bytes_rewritten rewrite + 1048576 < int (length (media source))"
    by (simp add: assms(5,7) length_big_media)
  from rewrite_step_continues [OF j assms(9,2,1,3,4) v small, of example_url "''bucket''" "''copy''"]
  obtain res w' where
    c: "rewrite_step example_env w 0 example_url req ''bucket'' ''copy'' = (Inr res, w')"
    by blast
  from rewrite_step_with_token(2) [OF c assms(9,2,1,4) small] obtain rewrite' where
    f: "dget res ''done'' = JBool False"
      "dget res ''totalBytesRewritten'' = JInt (bytes_rewritten rewrite + 1048576)"
      "dget res ''rewriteToken''
         = JStr (make_rewrite_token rewrite' ''bucket'' ''copy'' (Some (v_generation source)))"
      "bytes_rewritten rewrite' = bytes_rewritten rewrite + 1048576"
      "map_of (rewrite_operations (heap w' 0))
         (make_rewrite_token rewrite' ''bucket'' ''copy'' (Some (v_generation source)))
         = Some rewrite'"
      "get_revision_by_generation (heap w' 0) (actual_generation rewrite') = Some source"
      "original_arguments rewrite' = original_arguments rewrite"
      "GCS_OBJECTS w' = GCS_OBJECTS w" "next_ref w' = next_ref w"
    by blast
  show ?thesis
    using that [OF c f(1) _ f(3) _ f(5,6) _ f(8,9)] f(2,4,7) assms(3,7) by simp
qed


lemma second_call_returns:
  obtains source res1 w1 res2 w2 rewrite2 where
    "rewrite_source (heap rewrite_world 0) plain_request = Some source"
    "media source = big_media"
    "map_of (metadata source) ''customerEncryption'' = None"
    "first_call = (Inr res1, w1)" "returned_token first_call \<noteq> []"
    "dget res1 ''rewriteToken'' = JStr (returned_token first_call)"
    "second_call = (Inr res2, w2)"
    "dget res2 ''rewriteToken'' = JStr (returned_token second_call)"
    "returned_token second_call
       = make_rewrite_token rewrite2 ''bucket'' ''copy'' (Some (v_generation source))"
    "bytes_rewritten rewrite2 = 2097152"
    "map_of (rewrite_operations (heap w2 0)) (returned_token second_call) = Some rewrite2"
    "get_revision_by_generation (heap w2 0) (actual_generation rewrite2) = Some source"
    "map fst (original_arguments rewrite2)
       = rewrite_fixed_args @ [''destination_bucket'', ''destination_object'']"
    "GCS_OBJECTS w2 = [((''bucket'', ''source''), 0)]" "next_ref w2 = 1"
proof -
  obtain source res1 w1 rewrite1 where
    a: "media source = big_media"
      "map_of (metadata source) ''customerEncryption'' = None"
      "rewrite_source (heap rewrite_world 0) plain_request = Some source"
      "first_call = (Inr res1, w1)"
      "returned_token first_call
         = make_rewrite_token rewrite1 ''bucket'' ''copy'' (Some (v_generation source))"
      "bytes_rewritten rewrite1 = 1048576"
      "map_of (rewrite_operations (heap w1 0)) (returned_token first_call) = Some rewrite1"
      "get_revision_by_generation (heap w1 0) (actual_generation rewrite1) = Some source"
      "map fst (original_arguments rewrite1)
         = rewrite_fixed_args @ [''destination_bucket'', ''destination_object'']"
      "GCS_OBJECTS w1 = [((''bucket'', ''source''), 0)]" "next_ref w1 = 1"
    by (rule first_call_returns)
  have n1: "returned_token first_call \<noteq> []"
    unfolding a(5) by (rule make_rewrite_token_not_Nil)
  let ?req = "continuation_request (returned_token first_call)"
  have q: "headers ?req = (\<lambda>h. None)" "args ?req ''rewriteToken'' = Some (returned_token first_call)"
    "data ?req = ''{}''"
    by (simp_all add: continuation_request_def)
  from continuation_returns [OF a(7) n1 a(9,8,1,2,6) q]
  obtain res2 w2 rewrite2 where
    b: "rewrite_step example_env w1 0 example_url ?req ''bucket'' ''copy'' = (Inr res2, w2)"
      "dget res2 ''rewriteToken''
         = JStr (make_rewrite_token rewrite2 ''bucket'' ''copy'' (Some (v_generation source)))"
      "bytes_rewritten rewrite2 = 2097152"
      "map_of (rewrite_operations (heap w2 0))
         (make_rewrite_token rewrite2 ''bucket'' ''copy'' (Some (v_generation source)))
         = Some rewrite2"
      "get_revision_by_generation (heap w2 0) (actual_generation rewrite2) = Some source"
      "map fst (original_arguments rewrite2)
         = rewrite_fixed_args @ [''destination_bucket'', ''destination_object'']"
      "GCS_OBJECTS w2 = GCS_OBJECTS w1" "next_ref w2 = next_ref w1"
    by metis
  have c2: "second_call = (Inr res2, w2)"
    using b(1) by (simp add: second_call_def a(4))
  have t2: "returned_token second_call
              = make_rewrite_token rewrite2 ''bucket'' ''copy'' (Some (v_generation source))"
    by (simp add: returned_token_def c2 b(2))
  have t1: "dget res1 ''rewriteToken'' = JStr (returned_token first_call)"
  proof -
    have n: "args plain_request ''rewriteToken'' = None
               \<or> args plain_request ''rewriteToken'' = Some []"
      by (simp add: plain_request_simps)
    have big: "1048576 < int (length (media source))" by (simp add: a(1) length_big_media)
    from rewrite_step_without_token [OF a(4) [unfolded first_call_def] n a(3) big]
    obtain r where "dget res1 ''rewriteToken''
                      = JStr (make_rewrite_token r ''bucket'' ''copy'' (Some (v_generation source)))"
      by metis
    then show ?thesis by (simp add: returned_token_def a(4))
  qed
  show ?thesis
    using that [OF a(3,1,2,4) n1 t1 c2 _ t2 b(3) _ b(5,6)] b(2,4,7,8) t2 a(10,11)
    by simp
qed


lemma first_call_state:
  "\<exists>source res1 w1 rewrite1.
     media source = big_media
     \<and> map_of (metadata source) ''customerEncryption'' = None
     \<and> first_call = (Inr res1, w1)
     \<and> returned_token first_call
         = make_rewrite_token rewrite1 ''bucket'' ''copy'' (Some (v_generation source))
     \<and> bytes_rewritten rewrite1 = 1048576
     \<and> map_of (rewrite_operations (heap w1 0)) (returned_token first_call) = Some rewrite1
     \<and> get_revision_by_generation (heap w1 0) (actual_generation rewrite1) = Some source
     \<and> map fst (original_arguments rewrite1)
         = rewrite_fixed_args @ [''destination_bucket'', ''destination_object'']
     \<and> next_ref w1 = 1
     \<and> dget res1 ''rewriteToken'' = JStr (returned_token first_call)"
  by (rule first_call_returns) blast

lemma second_call_state:
  "\<exists>res2 w2. second_call = (Inr res2, w2)"
  by (rule second_call_returns) blast

text \<open>
  Every operation in the table is stored under a token made for it: the table of
  a new object is empty, and \<open>rewrite_step\<close> keeps the property.
\<close>

lemma set_update_subset: "set (AList.update k v al) \<subseteq> insert (k, v) (set al)"
  by (induction al) auto

lemma set_delete_subset: "set (AList.delete k al) \<subseteq> set al"
  by (induction al) auto

lemma take_rewrite_operation_table:
  "set (rewrite_operations (snd (take_rewrite_operation e self req db)))
     \<subseteq> set (rewrite_operations self)"
  using set_delete_subset [of "the (args req ''rewriteToken'')" "rewrite_operations self"]
  by (auto simp: take_rewrite_operation_def make_rewrite_operation_def Let_def
        split: option.splits sum.splits prod.splits)

lemma GcsObject_init_table: "rewrite_operations (GcsObject_init bname oname) = []"
  by (simp add: GcsObject_init_def)

lemma rewrite_step_stores_made_tokens:
  assumes "self < next_ref w"
    and "\<forall>(t, operation) \<in> set (rewrite_operations (heap w self)).
           \<exists>db0 dobj0 g0. t = make_rewrite_token operation db0 dobj0 g0"
  shows "\<forall>(t, operation)
           \<in> set (rewrite_operations (heap (snd (rewrite_step e w self url req db dobj)) self)).
           \<exists>db0 dobj0 g0. t = make_rewrite_token operation db0 dobj0 g0"
proof (cases "json_loads e (data req)")
  case None
  with assms(2) show ?thesis by (simp add: rewrite_step_def)
next
  case (Some body)
  obtain r self1 where t: "take_rewrite_operation e (heap w self) req db = (r, self1)"
    by (cases "take_rewrite_operation e (heap w self) req db")
  from take_rewrite_operation_table [of e "heap w self" req db] t
  have sub: "set (rewrite_operations self1) \<subseteq> set (rewrite_operations (heap w self))" by simp
  let ?w1 = "set_object w self self1"
  have h: "rewrite_operations (heap ?w1 self) = rewrite_operations self1"
    "self < next_ref ?w1"
    using assms(1) by (simp_all add: set_object_def)
  show ?thesis
  proof (cases r)
    case (Inl err)
    with Some t have "rewrite_step e w self url req db dobj = (Inl err, ?w1)"
      by (simp add: rewrite_step_def)
    with assms(2) sub h(1) show ?thesis by auto
  next
    case (Inr rewrite)
    with Some t have s: "rewrite_step e w self url req db dobj
                           = rewrite_advance e ?w1 self url req body rewrite db dobj"
      by (simp add: rewrite_step_def)
    let ?ops = "rewrite_operations
                  (heap (snd (rewrite_advance e ?w1 self url req body rewrite db dobj)) self)"
    let ?r = "rewrite\<lparr>bytes_rewritten := bytes_rewritten rewrite + 1048576\<rparr>"
    from rewrite_advance_operations [OF h(2), of e url req body rewrite db dobj]
    consider (same) "?ops = rewrite_operations self1"
      | (moved) g where
        "?ops = AList.update (make_rewrite_token ?r db dobj g) ?r (rewrite_operations self1)"
      unfolding h(1) by blast
    then show ?thesis
    proof cases
      case same
      with assms(2) sub show ?thesis unfolding s by auto
    next
      case moved
      from set_update_subset [of "make_rewrite_token ?r db dobj g" ?r "rewrite_operations self1"]
        moved
      have "set ?ops \<subseteq> insert (make_rewrite_token ?r db dobj g, ?r)
                          (set (rewrite_operations (heap w self)))"
        using sub by auto
      with assms(2) show ?thesis unfolding s by blast
    qed
  qed
qed

section \<open>The metageneration of a new revision\<close>

text \<open>
  Every successful \<open>update_from_metadata\<close> whose dictionary has no key
  \<open>metageneration\<close> adds one to the stored counter.
\<close>

lemma update_adds_one:
  assumes "update_from_metadata e r md = (Inr u, r')"
    and "map_of (metadata r) ''metageneration'' = Some (JInt n)"
    and "''metageneration'' \<notin> fst ` set md"
  shows "map_of (metadata r') ''metageneration'' = Some (JInt (n + 1))"
proof -
  have mg: "py_add_one (dget_default (dict_update (metadata r) md) ''metageneration'' (JInt 0))
              = Inr (JInt (n + 1))"
    using assms(2,3) by (simp add: dget_default_def map_of_dict_update map_of_rev_None)
  from update_from_metadata_map_of(1) [OF assms(1) mg] show ?thesis .
qed

lemma insert_simple_fresh:
  assumes "insert_simple e self url req = (Inr revision, self')"
  shows "dget (metadata revision) ''metageneration'' = JInt 1"
    and "\<exists>g. generation self = Some g \<and> generation self' = Some (g + 1)
           \<and> map_of (revisions self') (g + 1) = Some revision"
proof -
  from assms obtain g where g: "generation self = Some g"
    by (auto simp: insert_simple_def increment_generation_def split: option.splits)
  from assms g obtain r0 r1 where
    r0: "GcsObjectVersion_init e url (bucket_name self) (name self) (g + 1) req
           (extract_media e req) = Inr r0"
    and r1: "set_meta r0 ''x_testbench_upload'' (JStr ''simple'') = Inr r1"
    and i: "install e (self\<lparr>generation := Some (g + 1)\<rparr>) (g + 1) r1 = (Inr revision, self')"
    by (auto simp: insert_simple_def increment_generation_def Let_def split: sum.splits)
  note c = GcsObjectVersion_init_constructed [OF r0, unfolded constructed_def]
  note f = install_current [OF i]
  from c set_meta_fields(3) [OF r1, of "''metageneration''"] f(1)
  show "dget (metadata revision) ''metageneration'' = JInt 1" by (simp add: dget_def)
  from f g show "\<exists>g. generation self = Some g \<and> generation self' = Some (g + 1)
           \<and> map_of (revisions self') (g + 1) = Some revision" by simp
qed

lemma insert_xml_fresh:
  assumes "insert_xml e self url req = (Inr revision, self')"
  shows "dget (metadata revision) ''metageneration''
           = JInt (if xml_md5hash (headers req ''x-goog-hash'') = None then 1 else 2)"
    and "\<exists>g. generation self = Some g \<and> generation self' = Some (g + 1)
           \<and> map_of (revisions self') (g + 1) = Some revision"
proof -
  from assms obtain g where g: "generation self = Some g"
    by (auto simp: insert_xml_def increment_generation_def split: option.splits)
  let ?self1 = "self\<lparr>generation := Some (g + 1)\<rparr>"
  from assms g obtain r0 r1 where
    r0: "GcsObjectVersion_init e url (bucket_name self) (name self) (g + 1) req
           (extract_media e req) = Inr r0"
    and r1: "set_meta r0 ''x_testbench_upload'' (JStr ''xml'') = Inr r1"
    by (auto simp: insert_xml_def increment_generation_def Let_def split: sum.splits)
  note c = GcsObjectVersion_init_constructed [OF r0, unfolded constructed_def]
  have m1: "map_of (metadata r1) ''metageneration'' = Some (JInt 1)"
    using c set_meta_fields(3) [OF r1, of "''metageneration''"] by simp
  have "\<exists>rev. install e ?self1 (g + 1) rev = (Inr revision, self')
          \<and> map_of (metadata rev) ''metageneration''
              = Some (JInt (if xml_md5hash (headers req ''x-goog-hash'') = None then 1 else 2))"
  proof (cases "xml_md5hash (headers req ''x-goog-hash'')")
    case None
    with assms g r0 r1 have "install e ?self1 (g + 1) r1 = (Inr revision, self')"
      by (simp add: insert_xml_def increment_generation_def Let_def)
    with m1 None show ?thesis by auto
  next
    case (Some h)
    with assms g r0 r1 obtain r2 u r3 where
      r2: "set_meta r1 ''x_testbench_md5'' (JStr h) = Inr r2"
      and r3: "update_from_metadata e r2 [(''md5Hash'', JStr h)] = (Inr u, r3)"
      and i: "install e ?self1 (g + 1) r3 = (Inr revision, self')"
      by (auto simp: insert_xml_def increment_generation_def Let_def
          split: sum.splits prod.splits)
    have m2: "map_of (metadata r2) ''metageneration'' = Some (JInt 1)"
      using m1 set_meta_fields(3) [OF r2, of "''metageneration''"] by simp
    from update_adds_one [OF r3 m2] i Some show ?thesis by auto
  qed
  then obtain rev where rev: "install e ?self1 (g + 1) rev = (Inr revision, self')"
    "map_of (metadata rev) ''metageneration''
       = Some (JInt (if xml_md5hash (headers req ''x-goog-hash'') = None then 1 else 2))"
    by blast
  note f = install_current [OF rev(1)]
  from rev(2) f(1) show "dget (metadata revision) ''metageneration''
           = JInt (if xml_md5hash (headers req ''x-goog-hash'') = None then 1 else 2)"
    by (simp add: dget_def)
  from f g show "\<exists>g. generation self = Some g \<and> generation self' = Some (g + 1)
           \<and> map_of (revisions self') (g + 1) = Some revision" by simp
qed

lemma insert_parsed_multipart_fresh:
  assumes "insert_parsed_multipart e self url req resource_body media_headers media_body
             = (Inr revision, self')"
  shows "json_loads e resource_body = Some (JObj res) \<Longrightarrow> ''metageneration'' \<notin> fst ` set res \<Longrightarrow>
           dget (metadata revision) ''metageneration''
             = JInt (if map_of media_headers ''content-type'' = None then 2 else 3)"
    and "\<exists>g. generation self = Some g \<and> generation self' = Some (g + 1)
           \<and> map_of (revisions self') (g + 1) = Some revision"
proof -
  from assms obtain g where g: "generation self = Some g"
    by (auto simp: insert_parsed_multipart_def increment_generation_def split: option.splits)
  let ?self1 = "self\<lparr>generation := Some (g + 1)\<rparr>"
  from assms g obtain r0 r1 res0 r2 u r3 where
    r0: "GcsObjectVersion_init e url (bucket_name self) (name self) (g + 1) req media_body
           = Inr r0"
    and j: "json_loads e resource_body = Some (JObj res0)"
    and r1: "set_meta r0 ''x_testbench_upload'' (JStr ''multipart'') = Inr r1"
    and r2: "set_meta r1 ''x_testbench_md5'' (dget_default res0 ''md5Hash'' (JStr [])) = Inr r2"
    and r3: "update_from_metadata e r2 res0 = (Inr u, r3)"
    by (auto simp: insert_parsed_multipart_def increment_generation_def Let_def
        split: sum.splits option.splits json.splits prod.splits)
  note c = GcsObjectVersion_init_constructed [OF r0, unfolded constructed_def]
  have m2: "map_of (metadata r2) ''metageneration'' = Some (JInt 1)"
    using c set_meta_fields(3) [OF r1, of "''metageneration''"]
      set_meta_fields(3) [OF r2, of "''metageneration''"] by simp
  have "\<exists>rev. install e ?self1 (g + 1) rev = (Inr revision, self')
          \<and> (''metageneration'' \<notin> fst ` set res0 \<longrightarrow>
               map_of (metadata rev) ''metageneration''
                 = Some (JInt (if map_of media_headers ''content-type'' = None then 2 else 3)))"
  proof (cases "map_of media_headers ''content-type''")
    case None
    with assms g r0 j r1 r2 r3 have "install e ?self1 (g + 1) r3 = (Inr revision, self')"
      by (simp add: insert_parsed_multipart_def increment_generation_def Let_def)
    with update_adds_one [OF r3 m2] None show ?thesis by auto
  next
    case (Some ct)
    with assms g r0 j r1 r2 r3 obtain u' r4 where
      r4: "update_from_metadata e r3 [(''contentType'', JStr ct)] = (Inr u', r4)"
      and i: "install e ?self1 (g + 1) r4 = (Inr revision, self')"
      by (auto simp: insert_parsed_multipart_def increment_generation_def Let_def
          split: sum.splits prod.splits)
    show ?thesis
    proof (intro exI conjI impI)
      show "install e ?self1 (g + 1) r4 = (Inr revision, self')" by (rule i)
      assume "''metageneration'' \<notin> fst ` set res0"
      from update_adds_one [OF r4 update_adds_one [OF r3 m2 this]] Some
      show "map_of (metadata r4) ''metageneration''
              = Some (JInt (if map_of media_headers ''content-type'' = None then 2 else 3))"
        by simp
    qed
  qed
  then obtain rev where rev: "install e ?self1 (g + 1) rev = (Inr revision, self')"
    "''metageneration'' \<notin> fst ` set res0 \<Longrightarrow>
       map_of (metadata rev) ''metageneration''
         = Some (JInt (if map_of media_headers ''content-type'' = None then 2 else 3))"
    by blast
  note f = install_current [OF rev(1)]
  show "json_loads e resource_body = Some (JObj res) \<Longrightarrow> ''metageneration'' \<notin> fst ` set res \<Longrightarrow>
           dget (metadata revision) ''metageneration''
             = JInt (if map_of media_headers ''content-type'' = None then 2 else 3)"
    using rev(2) f(1) j by (simp add: dget_def)
  from f g show "\<exists>g. generation self = Some g \<and> generation self' = Some (g + 1)
           \<and> map_of (revisions self') (g + 1) = Some revision" by simp
qed

lemma first_metageneration_match:
  assumes "generation self = Some g" and "g \<noteq> 0" and "map_of (revisions self) g = Some revision"
    and "dget (metadata revision) ''metageneration'' = JInt n" and "py_int s = Some i"
  shows "check_preconditions_by_value self None None (Some s) None
           = (if i = n then Inr () else Inl precondition_failed)"
  using assms
  by (simp add: check_preconditions_by_value_def must_equal_def must_not_equal_def and_then_def
        get_revision_by_generation_def Let_def)

lemma insert_xml_example:
  obtains revision self' where
    "insert_xml example_env (GcsObject_init ''bucket'' ''object'') example_url
       (xml_request example_goog_hash) = (Inr revision, self')"
proof -
  let ?o0 = "GcsObject_init ''bucket'' ''object''"
  let ?x = "xml_request example_goog_hash"
  have g0: "generation ?o0 = Some 0" "bucket_name ?o0 = ''bucket''"
    by (simp_all add: GcsObject_init_def)
  have c: "constructible example_env (bucket_name ?o0) ?x"
    unfolding g0 by (rule constructible_example) (simp_all add: xml_request_def)
  have h: "xml_md5hash (headers ?x ''x-goog-hash'')
             = Some (md5_hash example_env (stored_payload example_env ?x
                       (extract_media example_env ?x)))"
    using xml_md5hash_example by (simp add: xml_request_def md5_hash_example example_md5_def)
  from insert_xml_succeeds [OF g0(1) c h, of example_url] that show ?thesis by blast
qed

text \<open>
  C10, as amended. When the constructor of \<open>GcsObjectVersion\<close> completes, for any
  request and payload, the stored metageneration is 1: the dictionary starts with 0,
  the constructor's \<open>update_from_metadata({})\<close> adds one, and neither the capture of
  the encryption key nor the predefined ACL touches the counter. A freshly inserted
  revision keeps 1 only where the upload applies no further metadata update: after
  \<open>insert\<close>, and after \<open>insert_xml\<close> without an \<open>md5=\<close> value in \<open>x-goog-hash\<close>. After
  \<open>insert_xml\<close> with such a value it is 2, and after \<open>insert_multipart\<close>, once the
  parts are parsed and the resource part has no key \<open>metageneration\<close>, it is 2
  without a content type of the media part and 3 with one. For an object whose
  generation before the upload is not negative, a metageneration-must-equal
  precondition given alone, as a number, against the object the upload leaves passes
  when the number is the stored metageneration of the new revision and raises
  Precondition Failed, 412, otherwise.
\<close>

theorem fresh_revision_metageneration:
  "(GcsObjectVersion_init e url bname oname g req m = Inr revision \<longrightarrow>
      dget (metadata revision) ''metageneration'' = JInt 1)
   \<and> (insert_simple e self url req = (Inr revision, self') \<longrightarrow>
        dget (metadata revision) ''metageneration'' = JInt 1)
   \<and> (insert_xml e self url req = (Inr revision, self') \<longrightarrow>
        dget (metadata revision) ''metageneration''
          = JInt (if xml_md5hash (headers req ''x-goog-hash'') = None then 1 else 2))
   \<and> (insert_parsed_multipart e self url req resource_body media_headers media_body
          = (Inr revision, self')
        \<and> json_loads e resource_body = Some (JObj res)
        \<and> ''metageneration'' \<notin> fst ` set res \<longrightarrow>
        dget (metadata revision) ''metageneration''
          = JInt (if map_of media_headers ''content-type'' = None then 2 else 3))
   \<and> ((insert_simple e self url req = (Inr revision, self')
         \<or> insert_xml e self url req = (Inr revision, self')
         \<or> insert_parsed_multipart e self url req resource_body media_headers media_body
              = (Inr revision, self'))
        \<and> generation self = Some g0 \<and> 0 \<le> g0
        \<and> dget (metadata revision) ''metageneration'' = JInt n
        \<and> py_int s = Some i \<longrightarrow>
        check_preconditions_by_value self' None None (Some s) None
          = (if i = n then Inr () else Inl precondition_failed))"
proof (intro conjI impI)
  assume "GcsObjectVersion_init e url bname oname g req m = Inr revision"
  from GcsObjectVersion_init_constructed [OF this]
  show "dget (metadata revision) ''metageneration'' = JInt 1"
    by (simp add: constructed_def dget_def)
next
  assume "insert_simple e self url req = (Inr revision, self')"
  then show "dget (metadata revision) ''metageneration'' = JInt 1"
    by (rule insert_simple_fresh(1))
next
  assume "insert_xml e self url req = (Inr revision, self')"
  then show "dget (metadata revision) ''metageneration''
               = JInt (if xml_md5hash (headers req ''x-goog-hash'') = None then 1 else 2)"
    by (rule insert_xml_fresh(1))
next
  assume "insert_parsed_multipart e self url req resource_body media_headers media_body
            = (Inr revision, self')
          \<and> json_loads e resource_body = Some (JObj res)
          \<and> ''metageneration'' \<notin> fst ` set res"
  then show "dget (metadata revision) ''metageneration''
               = JInt (if map_of media_headers ''content-type'' = None then 2 else 3)"
    using insert_parsed_multipart_fresh(1) by blast
next
  assume a: "(insert_simple e self url req = (Inr revision, self')
         \<or> insert_xml e self url req = (Inr revision, self')
         \<or> insert_parsed_multipart e self url req resource_body media_headers media_body
              = (Inr revision, self'))
        \<and> generation self = Some g0 \<and> 0 \<le> g0
        \<and> dget (metadata revision) ''metageneration'' = JInt n
        \<and> py_int s = Some i"
  then consider
      "insert_simple e self url req = (Inr revision, self')"
    | "insert_xml e self url req = (Inr revision, self')"
    | "insert_parsed_multipart e self url req resource_body media_headers media_body
         = (Inr revision, self')"
    by blast
  then have "\<exists>g. generation self = Some g \<and> generation self' = Some (g + 1)
           \<and> map_of (revisions self') (g + 1) = Some revision"
  proof cases
    case 1
    then show ?thesis by (rule insert_simple_fresh(2))
  next
    case 2
    then show ?thesis by (rule insert_xml_fresh(2))
  next
    case 3
    then show ?thesis by (rule insert_parsed_multipart_fresh(2))
  qed
  with a have f: "generation self' = Some (g0 + 1)"
    "map_of (revisions self') (g0 + 1) = Some revision" by auto
  from a have "g0 + 1 \<noteq> 0" by simp
  from first_metageneration_match [OF f(1) this f(2)] a
  show "check_preconditions_by_value self' None None (Some s) None
          = (if i = n then Inr () else Inl precondition_failed)" by blast
qed

text \<open>
  The claim as it was stated, that the first metageneration-must-equal precondition
  against a freshly inserted revision compares against 1, fails for the XML upload
  that declares the checksum of its payload: the revision is installed with
  metageneration 2, the condition 1 raises Precondition Failed and the condition 2
  passes.
\<close>

theorem first_metageneration_after_insert_xml_counterexample:
  "\<not> isl (fst (insert_xml example_env (GcsObject_init ''bucket'' ''object'') example_url
               (xml_request example_goog_hash)))
   \<and> dget (metadata (projr (fst (insert_xml example_env (GcsObject_init ''bucket'' ''object'')
                                   example_url (xml_request example_goog_hash)))))
        ''metageneration'' = JInt 2
   \<and> check_preconditions_by_value
        (snd (insert_xml example_env (GcsObject_init ''bucket'' ''object'') example_url
                (xml_request example_goog_hash)))
        None None (Some ''1'') None = Inl precondition_failed
   \<and> check_preconditions_by_value
        (snd (insert_xml example_env (GcsObject_init ''bucket'' ''object'') example_url
                (xml_request example_goog_hash)))
        None None (Some ''2'') None = Inr ()"
proof -
  let ?o0 = "GcsObject_init ''bucket'' ''object''"
  let ?x = "xml_request example_goog_hash"
  obtain revision self' where
    s: "insert_xml example_env ?o0 example_url ?x = (Inr revision, self')"
    by (rule insert_xml_example)
  have h: "xml_md5hash (headers ?x ''x-goog-hash'') \<noteq> None"
    using xml_md5hash_example by (simp add: xml_request_def)
  have g0: "generation ?o0 = Some 0" by (simp add: GcsObject_init_def)
  from insert_xml_fresh(1) [OF s] h
  have m: "dget (metadata revision) ''metageneration'' = JInt 2" by simp
  from insert_xml_fresh(2) [OF s] g0
  have f: "generation self' = Some 1" "map_of (revisions self') 1 = Some revision" by auto
  have n: "(1::int) \<noteq> 0" by simp
  from first_metageneration_match [OF f(1) n f(2) m py_int_1]
    first_metageneration_match [OF f(1) n f(2) m py_int_2] m
  show ?thesis by (simp add: s)
qed

theorem fresh_revision_metageneration_witness:
  "\<not> isl (GcsObjectVersion_init example_env example_url ''bucket'' ''object'' 1
            plain_request ''hello'')
   \<and> dget (metadata (projr (GcsObjectVersion_init example_env example_url ''bucket'' ''object'' 1
                              plain_request ''hello''))) ''metageneration'' = JInt 1
   \<and> \<not> isl (fst (insert_simple example_env (GcsObject_init ''bucket'' ''object'') example_url
                    plain_request))
   \<and> dget (metadata (projr (fst (insert_simple example_env (GcsObject_init ''bucket'' ''object'')
                                    example_url plain_request)))) ''metageneration'' = JInt 1
   \<and> \<not> isl (fst (insert_xml example_env (GcsObject_init ''bucket'' ''object'') example_url
                    (xml_request example_goog_hash)))
   \<and> xml_md5hash (headers (xml_request example_goog_hash) ''x-goog-hash'') \<noteq> None
   \<and> dget (metadata (projr (fst (insert_xml example_env (GcsObject_init ''bucket'' ''object'')
                                    example_url (xml_request example_goog_hash)))))
        ''metageneration'' = JInt 2
   \<and> \<not> isl (fst (insert_parsed_multipart example_env (GcsObject_init ''bucket'' ''object'')
                    example_url multipart_request (''{}'' @ crlf)
                    [(''content-type'', ''text/plain'')] ''hello''))
   \<and> json_loads example_env (''{}'' @ crlf) = Some (JObj [])
   \<and> dget (metadata (projr (fst (insert_parsed_multipart example_env
                                    (GcsObject_init ''bucket'' ''object'') example_url
                                    multipart_request (''{}'' @ crlf)
                                    [(''content-type'', ''text/plain'')] ''hello''))))
        ''metageneration'' = JInt 3
   \<and> generation (GcsObject_init ''bucket'' ''object'') = Some 0
   \<and> py_int ''1'' = Some 1 \<and> py_int ''2'' = Some 2
   \<and> check_preconditions_by_value
        (snd (insert_simple example_env (GcsObject_init ''bucket'' ''object'') example_url
                plain_request))
        None None (Some ''1'') None = Inr ()
   \<and> check_preconditions_by_value
        (snd (insert_xml example_env (GcsObject_init ''bucket'' ''object'') example_url
                (xml_request example_goog_hash)))
        None None (Some ''2'') None = Inr ()
   \<and> check_preconditions_by_value
        (snd (insert_parsed_multipart example_env (GcsObject_init ''bucket'' ''object'')
                example_url multipart_request (''{}'' @ crlf)
                [(''content-type'', ''text/plain'')] ''hello''))
        None None (Some ''2'') None = Inl precondition_failed"
proof -
  let ?o0 = "GcsObject_init ''bucket'' ''object''"
  let ?x = "xml_request example_goog_hash"
  have g0: "generation ?o0 = Some 0" "bucket_name ?o0 = ''bucket''"
    by (simp_all add: GcsObject_init_def)
  have z: "(0::int) \<le> 0" by simp
  note p1 = py_int_1
  note p2 = py_int_2
  from example_init_succeeds [of "''bucket''" example_url "''object''" 1 "''hello''"]
  obtain r where
    r: "GcsObjectVersion_init example_env example_url ''bucket'' ''object'' 1
          plain_request ''hello'' = Inr r" by auto
  have t0: "dget (metadata r) ''metageneration'' = JInt 1"
    using fresh_revision_metageneration
      [where e = example_env and url = example_url and bname = "''bucket''"
         and oname = "''object''" and g = 1 and req = plain_request and m = "''hello''"
         and revision = r] r by blast
  have c1: "constructible example_env (bucket_name ?o0) plain_request"
    unfolding g0 by (rule constructible_example) (simp_all add: plain_request_simps)
  from insert_simple_succeeds [OF g0(1) c1, of example_url] obtain r1 o1 where
    s1: "insert_simple example_env ?o0 example_url plain_request = (Inr r1, o1)" by blast
  note T1 = fresh_revision_metageneration
      [where e = example_env and url = example_url and self = ?o0 and req = plain_request
         and revision = r1 and self' = o1 and ?g0.0 = 0 and n = 1 and s = "''1''" and i = 1]
  have t1: "dget (metadata r1) ''metageneration'' = JInt 1" using T1 s1 by blast
  have u1: "check_preconditions_by_value o1 None None (Some ''1'') None = Inr ()"
    using T1 s1 g0(1) z t1 p1 by simp
  obtain r2 o2 where s2: "insert_xml example_env ?o0 example_url ?x = (Inr r2, o2)"
    by (rule insert_xml_example)
  have h: "xml_md5hash (headers ?x ''x-goog-hash'') \<noteq> None"
    using xml_md5hash_example by (simp add: xml_request_def)
  note T2 = fresh_revision_metageneration
      [where e = example_env and url = example_url and self = ?o0 and req = ?x
         and revision = r2 and self' = o2 and ?g0.0 = 0 and n = 2 and s = "''2''" and i = 2]
  have t2: "dget (metadata r2) ''metageneration'' = JInt 2" using T2 s2 h by simp
  have u2: "check_preconditions_by_value o2 None None (Some ''2'') None = Inr ()"
    using T2 s2 g0(1) z t2 p2 by simp
  have c3: "constructible example_env (bucket_name ?o0) multipart_request"
    unfolding g0 by (rule constructible_example) (simp_all add: multipart_request_def)
  have j: "json_loads example_env (''{}'' @ crlf) = Some (JObj [])"
    by (simp add: example_env_simps strip_def is_space_def crlf_def)
  from insert_parsed_multipart_succeeds [OF g0(1) c3 j, of example_url
      "[(''content-type'', ''text/plain'')]" "''hello''"]
  obtain r3 o3 where
    s3: "insert_parsed_multipart example_env ?o0 example_url multipart_request (''{}'' @ crlf)
           [(''content-type'', ''text/plain'')] ''hello'' = (Inr r3, o3)" by auto
  note T3 = fresh_revision_metageneration
      [where e = example_env and url = example_url and self = ?o0 and req = multipart_request
         and resource_body = "''{}'' @ crlf"
         and media_headers = "[(''content-type'', ''text/plain'')]" and media_body = "''hello''"
         and res = "[]"
         and revision = r3 and self' = o3 and ?g0.0 = 0 and n = 3 and s = "''2''" and i = 2]
  have t3: "dget (metadata r3) ''metageneration'' = JInt 3" using T3 s3 j by simp
  have u3: "check_preconditions_by_value o3 None None (Some ''2'') None
              = Inl precondition_failed"
    using T3 s3 g0(1) z t3 p2 by simp
  show ?thesis
    using r t0 s1 t1 u1 s2 h t2 u2 s3 j t3 u3 g0(1) p1 p2 by simp
qed

section \<open>Preconditions\<close>









section \<open>Deleting a revision\<close>

text \<open>
  C5. The claim: every operation, \<open>del_revision\<close> in particular and for an explicit
  generation as for the default one, keeps the current-generation pointer among the
  keys of a non-empty \<open>revisions\<close>. On the object that holds generations 1 and 2,
  with 2 current, \<open>del_revision\<close> for the request \<open>?generation=2\<close> removes
  generation 2 and returns \<open>False\<close>, and the pointer still says 2, which is no key
  any more: the request's generation is a string, and \<open>generation == self.generation\<close>
  compares it with an integer. The same deletion with the generation defaulted moves
  the pointer to 1.
\<close>

theorem del_revision_explicit_generation_dangles:
  "fst (del_revision two_revisions_object generation_2_request) = Inr False
   \<and> generation (snd (del_revision two_revisions_object generation_2_request)) = Some 2
   \<and> map fst (revisions (snd (del_revision two_revisions_object generation_2_request))) = [1]
   \<and> generation (snd (del_revision two_revisions_object plain_request)) = Some 1
   \<and> map fst (revisions (snd (del_revision two_revisions_object plain_request))) = [1]"
  by (simp add: del_revision_def two_revisions_object_def generation_2_request_def
        plain_request_simps pyval_of_generation_def py_int_2 Let_def)

section \<open>A failed checksum validation\<close>

text \<open>
  C2. The claim: when \<open>update_from_metadata\<close> would leave \<open>md5Hash\<close> different
  from the checksum of the payload, it fails and the metadata is as before the call.
  On the example revision, whose payload has the checksum
  \<open>MDEyMzQ1Njc4OWFiY2RlZg==\<close>, the update \<open>{'md5Hash': 'AAAA'}\<close> does fail with
  the mismatch error, but the revision it leaves stores \<open>AAAA\<close> and
  metageneration 2: \<open>self.metadata = tmp\<close> is assigned before
  \<open>_validate_hashes\<close> runs.
\<close>

theorem update_from_metadata_stores_mismatch:
  "fst (update_from_metadata example_env example_revision checksum_patch)
     = Inl (ErrorResponse ''Mismatched MD5 hash expected=%s, actual=%s'' 400)
   \<and> dget (metadata (snd (update_from_metadata example_env example_revision checksum_patch)))
         ''md5Hash'' = JStr ''AAAA''
   \<and> dget (metadata example_revision) ''md5Hash'' = JStr ''MDEyMzQ1Njc4OWFiY2RlZg==''
   \<and> dget (metadata (snd (update_from_metadata example_env example_revision checksum_patch)))
         ''metageneration'' = JInt 2
   \<and> dget (metadata example_revision) ''metageneration'' = JInt 1"
proof -
  obtain r self' where u: "update_from_metadata example_env example_revision checksum_patch = (r, self')"
    by (cases "update_from_metadata example_env example_revision checksum_patch")
  note c = example_revision_constructed [unfolded constructed_def]
  have mg: "py_add_one (dget_default (dict_update (metadata example_revision) checksum_patch)
              ''metageneration'' (JInt 0)) = Inr (JInt 2)"
    using c by (simp add: dget_default_def map_of_dict_update checksum_patch_def)
  have h: "dget_default (dict_update (metadata example_revision) checksum_patch) ''md5Hash'' (JStr [])
             = JStr ''AAAA''"
    by (simp add: dget_default_def map_of_dict_update checksum_patch_def)
  from update_from_metadata_result [OF u mg] c
  have "r = Inl (ErrorResponse ''Mismatched MD5 hash expected=%s, actual=%s'' 400)"
    by (simp add: h md5_hash_example)
  moreover from update_from_metadata_map_of(4) [OF u mg, of "''md5Hash''"]
  have "dget (metadata self') ''md5Hash'' = JStr ''AAAA''"
    by (simp add: dget_def map_of_dict_update checksum_patch_def)
  moreover from update_from_metadata_map_of(1) [OF u mg]
  have "dget (metadata self') ''metageneration'' = JInt 2" by (simp add: dget_def)
  ultimately show ?thesis using c u by (simp add: dget_def md5_hash_example)
qed

section \<open>A missing ACL entity\<close>

text \<open>
  C9. The claim: for an entity with no entry in the ACL, \<open>get_acl\<close> and
  \<open>delete_acl\<close> both fail with NotFound, \<open>delete_acl\<close> leaving the list as it
  was. On a revision with an empty ACL, \<open>get_acl\<close> raises the
  \<open>ErrorResponse\<close> "Entity ... not found in object ..." and \<open>delete_acl\<close> leaves
  the revision as it was, but what it raises is the \<open>KeyError\<close> of
  \<open>indexed.pop(entity)\<close>, no error response at all.
\<close>

theorem delete_acl_missing_entity_raises_KeyError:
  "delete_acl example_env empty_acl_revision ''user-nobody@example.com''
     = (Inl KeyError, empty_acl_revision)
   \<and> get_acl example_env empty_acl_revision ''user-nobody@example.com''
     = Inl (ErrorResponse ''Entity %s not found in object %s'' 400)"
proof -
  obtain r self' where u: "update_from_metadata example_env example_revision [(''acl'', JList [])] = (r, self')"
    by (cases "update_from_metadata example_env example_revision [(''acl'', JList [])]")
  note c = example_revision_constructed [unfolded constructed_def]
  have mg: "py_add_one (dget_default (dict_update (metadata example_revision) [(''acl'', JList [])])
              ''metageneration'' (JInt 0)) = Inr (JInt 2)"
    using c by (simp add: dget_default_def map_of_dict_update)
  from update_from_metadata_map_of(4) [OF u mg, of "''acl''"]
  have "dget_default (metadata empty_acl_revision) ''acl'' (JList []) = JList []"
    by (simp add: dget_default_def map_of_dict_update empty_acl_revision_def u)
  then show ?thesis
    by (simp add: delete_acl_def get_acl_def index_acl_def default_status_code_def)
qed

section \<open>Uploads into a bucket without versioning\<close>

text \<open>
  C4. For every sequence of successful \<open>insert\<close>, \<open>insert_multipart\<close> and
  \<open>insert_xml\<close> calls on an object whose bucket has versioning disabled, after
  each call \<open>revisions\<close> holds exactly one entry, the revision that the call
  created, and the generation of each revision is one more than the one before:
  starting from generation \<open>g\<close>, the call number \<open>i\<close> (from 0) leaves generation
  \<open>g + i + 1\<close>.
\<close>

theorem uploads_without_versioning_keep_one_revision:
  assumes "lookup_bucket e (bucket_name self) = Inr b" and "\<not> versioning_enabled b"
    and "generation self = Some g"
    and "run_uploads e self uploads = Some results"
    and "i < length results"
  shows "revisions (snd (results ! i)) = [(g + int i + 1, fst (results ! i))]
         \<and> v_generation (fst (results ! i)) = g + int i + 1
         \<and> generation (snd (results ! i)) = Some (g + int i + 1)"
  using assms
proof (induction uploads arbitrary: self g results i)
  case Nil
  then show ?case by simp
next
  case (Cons u us)
  from Cons.prems(4) obtain revision self' rest where
    u: "run_upload e self u = Some (Inr revision, self')"
    and rest: "run_uploads e self' us = Some rest"
    and results: "results = (revision, self') # rest"
    by (auto split: option.splits sum.splits prod.splits)
  from run_upload_Inr [OF u Cons.prems(1,2)] Cons.prems(3)
  have s: "generation self' = Some (g + 1)" "revisions self' = [(g + 1, revision)]"
    "v_generation revision = g + 1" "bucket_name self' = bucket_name self" by auto
  show ?case
  proof (cases i)
    case 0
    with s results show ?thesis by simp
  next
    case (Suc j)
    with Cons.prems(5) results have j: "j < length rest" by simp
    have b': "lookup_bucket e (bucket_name self') = Inr b" using s(4) Cons.prems(1) by simp
    from Cons.IH [OF b' Cons.prems(2) s(1) rest j] Suc results
    show ?thesis by (simp add: algebra_simps)
  qed
qed

theorem uploads_without_versioning_keep_one_revision_witness:
  "run_uploads example_env (GcsObject_init ''bucket'' ''object'') example_uploads \<noteq> None
   \<and> map (\<lambda>(revision, self). (v_generation revision, map fst (revisions self), generation self))
         (the (run_uploads example_env (GcsObject_init ''bucket'' ''object'') example_uploads))
       = [(1, [1], Some 1), (2, [2], Some 2), (3, [3], Some 3)]"
proof -
  obtain r1 o1 r2 o2 r3 o3 where
    run: "run_uploads example_env (GcsObject_init ''bucket'' ''object'') example_uploads
            = Some [(r1, o1), (r2, o2), (r3, o3)]"
    by (rule example_uploads_run)
  have b: "lookup_bucket example_env (bucket_name (GcsObject_init ''bucket'' ''object''))
             = Inr \<lparr>versioning_enabled = False, bucket_metadata = []\<rparr>"
    by (simp add: example_env_simps GcsObject_init_def)
  have v: "\<not> versioning_enabled \<lparr>versioning_enabled = False, bucket_metadata = []\<rparr>" by simp
  have g: "generation (GcsObject_init ''bucket'' ''object'') = Some 0"
    by (simp add: GcsObject_init_def)
  from uploads_without_versioning_keep_one_revision [OF b v g run, of 0]
    uploads_without_versioning_keep_one_revision [OF b v g run, of 1]
    uploads_without_versioning_keep_one_revision [OF b v g run, of 2]
  show ?thesis by (simp add: run)
qed

section \<open>A checksum declared in x-goog-hash\<close>

text \<open>
  C6, as amended. For every \<open>insert_xml\<close> request whose \<open>x-goog-hash\<close> header
  yields an md5 value, the value is validated against the payload. When the
  revision can be constructed and the declared value equals the checksum of its
  payload, the insert succeeds: the revision is returned and installed as the
  current generation, and its stored \<open>md5Hash\<close> is the caller-declared value.
  When the revision can be constructed and the declared value differs from that
  checksum, the insert fails with the mismatch error of \<open>_validate_hashes\<close>.
  Whenever the insert succeeds the stored \<open>md5Hash\<close> is the declared value and
  is the checksum of the stored payload, and whenever it fails no revision is
  installed.
\<close>

theorem insert_xml_validates_declared_md5:
  assumes "xml_md5hash (headers req ''x-goog-hash'') = Some h"
  shows "(\<forall>revision self'. insert_xml e self url req = (Inr revision, self') \<longrightarrow>
            dget (metadata revision) ''md5Hash'' = JStr h \<and> h = md5_hash e (media revision))
       \<and> (\<forall>err self'. insert_xml e self url req = (Inl err, self') \<longrightarrow>
            revisions self' = revisions self)
       \<and> (\<forall>g r0. generation self = Some g
              \<and> GcsObjectVersion_init e url (bucket_name self) (name self) (g + 1) req
                   (extract_media e req) = Inr r0 \<longrightarrow>
            (if h = md5_hash e (media r0)
             then \<exists>revision self'. insert_xml e self url req = (Inr revision, self')
                    \<and> dget (metadata revision) ''md5Hash'' = JStr h
                    \<and> generation self' = Some (g + 1)
                    \<and> map_of (revisions self') (g + 1) = Some revision
             else fst (insert_xml e self url req) = Inl mismatched_md5))"
proof (cases "generation self")
  case None
  then show ?thesis by (simp add: insert_xml_def increment_generation_def)
next
  case (Some g)
  show ?thesis
  proof (cases "GcsObjectVersion_init e url (bucket_name self) (name self) (g + 1) req
                  (extract_media e req)")
    case (Inl err)
    with Some show ?thesis by (simp add: insert_xml_def increment_generation_def Let_def)
  next
    case (Inr r0)
    obtain r3 where r3:
      "insert_xml e self url req =
         (if h \<noteq> md5_hash e (media r0)
          then (Inl mismatched_md5, self\<lparr>generation := Some (g + 1)\<rparr>)
          else install e (self\<lparr>generation := Some (g + 1)\<rparr>) (g + 1) r3)"
      "dget (metadata r3) ''md5Hash'' = JStr h" "media r3 = media r0"
      by (rule insert_xml_declared [OF assms Some Inr])
    show ?thesis
    proof (cases "h = md5_hash e (media r0)")
      case False
      with r3(1) Some Inr show ?thesis by simp
    next
      case True
      from GcsObjectVersion_init_bucket [OF Inr] obtain b where
        "lookup_bucket e (bucket_name (self\<lparr>generation := Some (g + 1)\<rparr>)) = Inr b" by auto
      from install_succeeds [OF this, of "g + 1" r3] obtain self' where
        i: "install e (self\<lparr>generation := Some (g + 1)\<rparr>) (g + 1) r3 = (Inr r3, self')" by blast
      from install_current [OF i] True r3 i Some Inr show ?thesis by simp
    qed
  qed
qed

text \<open>
  The claim as it was stated, that the declared value is stored and the insert
  succeeds even when it differs from the computed checksum, fails for the header
  \<open>md5=AAAA\<close> on the payload \<open>hello\<close>.
\<close>

theorem insert_xml_rejects_other_md5_counterexample:
  "xml_md5hash (headers (xml_request ''md5=AAAA'') ''x-goog-hash'') = Some ''AAAA''
   \<and> ''AAAA'' \<noteq> md5_hash example_env ''hello''
   \<and> insert_xml example_env (GcsObject_init ''bucket'' ''object'') example_url
         (xml_request ''md5=AAAA'')
       = (Inl mismatched_md5, (GcsObject_init ''bucket'' ''object'')\<lparr>generation := Some 1\<rparr>)"
proof -
  let ?o0 = "GcsObject_init ''bucket'' ''object''"
  let ?x = "xml_request ''md5=AAAA''"
  have h: "xml_md5hash (headers ?x ''x-goog-hash'') = Some ''AAAA''"
    using xml_md5hash_bad by (simp add: xml_request_def)
  have g0: "generation ?o0 = Some 0" "bucket_name ?o0 = ''bucket''"
    by (simp_all add: GcsObject_init_def)
  have c: "constructible example_env (bucket_name ?o0) ?x"
    unfolding g0 by (rule constructible_example) (simp_all add: xml_request_def)
  obtain r0 where r0:
    "GcsObjectVersion_init example_env example_url (bucket_name ?o0) (name ?o0) (0 + 1) ?x
       (extract_media example_env ?x) = Inr r0"
    "constructed example_env (bucket_name ?o0) (name ?o0) (0 + 1)
       (stored_payload example_env ?x (extract_media example_env ?x)) r0"
    by (rule constructible_succeeds [OF c])
  have m: "media r0 = ''hello''"
    using r0(2) by (simp add: constructed_def stored_payload_def xml_request_def example_env_simps)
  obtain r3 where
    "insert_xml example_env ?o0 example_url ?x =
       (if ''AAAA'' \<noteq> md5_hash example_env (media r0)
        then (Inl mismatched_md5, ?o0\<lparr>generation := Some (0 + 1)\<rparr>)
        else install example_env (?o0\<lparr>generation := Some (0 + 1)\<rparr>) (0 + 1) r3)"
    by (rule insert_xml_declared [OF h g0(1) r0(1)])
  then show ?thesis using h by (simp add: m md5_hash_example)
qed

theorem insert_xml_validates_declared_md5_witness:
  "xml_md5hash (headers (xml_request example_goog_hash) ''x-goog-hash'') = Some example_md5
   \<and> xml_md5hash (headers (xml_request ''md5=AAAA'') ''x-goog-hash'') = Some ''AAAA''
   \<and> generation (GcsObject_init ''bucket'' ''object'') = Some 0
   \<and> \<not> isl (GcsObjectVersion_init example_env example_url ''bucket'' ''object'' 1
               (xml_request example_goog_hash) ''hello'')
   \<and> \<not> isl (GcsObjectVersion_init example_env example_url ''bucket'' ''object'' 1
               (xml_request ''md5=AAAA'') ''hello'')
   \<and> \<not> isl (fst (insert_xml example_env (GcsObject_init ''bucket'' ''object'') example_url
                    (xml_request example_goog_hash)))
   \<and> dget (metadata (projr (fst (insert_xml example_env (GcsObject_init ''bucket'' ''object'')
                                    example_url (xml_request example_goog_hash)))))
        ''md5Hash'' = JStr example_md5
   \<and> map fst (revisions (snd (insert_xml example_env (GcsObject_init ''bucket'' ''object'')
                                  example_url (xml_request example_goog_hash)))) = [1]
   \<and> fst (insert_xml example_env (GcsObject_init ''bucket'' ''object'') example_url
             (xml_request ''md5=AAAA'')) = Inl mismatched_md5
   \<and> revisions (snd (insert_xml example_env (GcsObject_init ''bucket'' ''object'') example_url
                        (xml_request ''md5=AAAA''))) = []"
proof -
  let ?o0 = "GcsObject_init ''bucket'' ''object''"
  let ?x = "xml_request example_goog_hash"
  let ?y = "xml_request ''md5=AAAA''"
  have h: "xml_md5hash (headers ?x ''x-goog-hash'') = Some example_md5"
    using xml_md5hash_example by (simp add: xml_request_def)
  have h': "xml_md5hash (headers ?y ''x-goog-hash'') = Some ''AAAA''"
    using xml_md5hash_bad by (simp add: xml_request_def)
  have g0: "generation ?o0 = Some 0" "bucket_name ?o0 = ''bucket''" "name ?o0 = ''object''"
    "revisions ?o0 = []"
    by (simp_all add: GcsObject_init_def)
  have b: "lookup_bucket example_env (bucket_name ?o0)
             = Inr \<lparr>versioning_enabled = False, bucket_metadata = []\<rparr>"
    by (simp add: g0 example_env_simps)
  have c: "constructible example_env ''bucket'' ?x" "constructible example_env ''bucket'' ?y"
    by (rule constructible_example; simp add: xml_request_def)+
  obtain r0 where r0:
    "GcsObjectVersion_init example_env example_url ''bucket'' ''object'' (0 + 1) ?x
       (extract_media example_env ?x) = Inr r0"
    "constructed example_env ''bucket'' ''object'' (0 + 1)
       (stored_payload example_env ?x (extract_media example_env ?x)) r0"
    by (rule constructible_succeeds [OF c(1)])
  obtain r0' where r0':
    "GcsObjectVersion_init example_env example_url ''bucket'' ''object'' (0 + 1) ?y
       (extract_media example_env ?y) = Inr r0'"
    "constructed example_env ''bucket'' ''object'' (0 + 1)
       (stored_payload example_env ?y (extract_media example_env ?y)) r0'"
    by (rule constructible_succeeds [OF c(2)])
  have e: "extract_media example_env ?x = ''hello''" "extract_media example_env ?y = ''hello''"
    by (simp_all add: example_env_simps xml_request_def)
  have m: "example_md5 = md5_hash example_env (media r0)"
    "''AAAA'' \<noteq> md5_hash example_env (media r0')"
    by (simp_all add: md5_hash_example example_md5_def)
  from insert_xml_validates_declared_md5 [OF h, of example_env ?o0 example_url]
    r0(1) g0 m(1)
  obtain revision self' where s:
    "insert_xml example_env ?o0 example_url ?x = (Inr revision, self')"
    "dget (metadata revision) ''md5Hash'' = JStr example_md5"
    by (auto split: if_splits)
  from insert_xml_Inr [OF s(1) b] g0 have one: "map fst (revisions self') = [1]" by auto
  from insert_xml_validates_declared_md5 [OF h', of example_env ?o0 example_url]
    r0'(1) g0 m(2)
  have f: "fst (insert_xml example_env ?o0 example_url ?y) = Inl mismatched_md5"
    by (auto split: if_splits)
  then obtain self'' where f': "insert_xml example_env ?o0 example_url ?y = (Inl mismatched_md5, self'')"
    by (cases "insert_xml example_env ?o0 example_url ?y") auto
  from insert_xml_validates_declared_md5 [OF h', of example_env ?o0 example_url] f' g0
  have "revisions self'' = []" by simp
  with h h' g0 r0(1) r0'(1) e s one f f' show ?thesis by simp
qed

section \<open>The progress of a rewrite\<close>



section \<open>A continuation with a changed argument\<close>

text \<open>
  C1. The claim: a continuation whose request carries another value for a fixed
  argument than the initiating request fails with Precondition Failed, 412. On the
  example rewrite the first call has no \<open>ifGenerationMatch\<close> and returns a token;
  the continuation presents that token with \<open>ifGenerationMatch=7\<close> and is
  answered like an unchanged one, \<open>done\<close> false and 2097152 bytes: \<open>diff\<close> is
  computed from \<open>set(current_arguments)\<close> and \<open>set(original_arguments)\<close>, the
  sets of the keys of the two dictionaries, and the keys are the same for every
  request.
\<close>

theorem rewrite_step_accepts_changed_argument:
  "args plain_request ''ifGenerationMatch'' = None
   \<and> args (changed_request (returned_token first_call)) ''ifGenerationMatch'' = Some ''7''
   \<and> args (changed_request (returned_token first_call)) ''rewriteToken''
       = Some (returned_token first_call)
   \<and> \<not> isl (fst first_call)
   \<and> dget (projr (fst first_call)) ''rewriteToken'' = JStr (returned_token first_call)
   \<and> \<not> isl (fst (rewrite_step example_env (snd first_call) 0 example_url
                    (changed_request (returned_token first_call)) ''bucket'' ''copy''))
   \<and> dget (projr (fst (rewrite_step example_env (snd first_call) 0 example_url
                          (changed_request (returned_token first_call)) ''bucket'' ''copy'')))
        ''done'' = JBool False
   \<and> dget (projr (fst (rewrite_step example_env (snd first_call) 0 example_url
                          (changed_request (returned_token first_call)) ''bucket'' ''copy'')))
        ''totalBytesRewritten'' = JInt 2097152"
proof -
  obtain source :: gcs_object_version and res1 w1 rewrite1 where
    a: "media source = big_media"
      "map_of (metadata source) ''customerEncryption'' = None"
      "first_call = (Inr res1, w1)"
      "returned_token first_call
         = make_rewrite_token rewrite1 ''bucket'' ''copy'' (Some (v_generation source))"
      "bytes_rewritten rewrite1 = 1048576"
      "map_of (rewrite_operations (heap w1 0)) (returned_token first_call) = Some rewrite1"
      "get_revision_by_generation (heap w1 0) (actual_generation rewrite1) = Some source"
      "map fst (original_arguments rewrite1)
         = rewrite_fixed_args @ [''destination_bucket'', ''destination_object'']"
      "dget res1 ''rewriteToken'' = JStr (returned_token first_call)"
    using first_call_state by (elim exE conjE) (rule that)
  have n1: "returned_token first_call \<noteq> []"
    unfolding a(4) by (rule make_rewrite_token_not_Nil)
  let ?req = "changed_request (returned_token first_call)"
  have q: "headers ?req = (\<lambda>h. None)" "args ?req ''rewriteToken'' = Some (returned_token first_call)"
    "data ?req = ''{}''" "args ?req ''ifGenerationMatch'' = Some ''7''"
    by (simp_all add: changed_request_def)
  from continuation_returns [OF a(6) n1 a(8,7,1,2,5) q(1-3)]
  obtain res2 w2 where
    b: "rewrite_step example_env w1 0 example_url ?req ''bucket'' ''copy'' = (Inr res2, w2)"
      "dget res2 ''done'' = JBool False" "dget res2 ''totalBytesRewritten'' = JInt 2097152"
    by metis
  have w: "snd first_call = w1" by (simp add: a(3))
  have p: "\<not> isl (fst first_call)" "projr (fst first_call) = res1" by (simp_all add: a(3))
  show ?thesis
    using b(2,3) q a(9) by (simp add: w b(1) p plain_request_simps)
qed

section \<open>The token of a rewrite is used once\<close>

text \<open>
  C8, as amended. \<open>rewrite_step\<close> parses the body of the request before it looks
  at the token: a call whose body \<open>json.loads\<close> rejects raises \<open>ValueError\<close> and
  leaves every object, the table of rewrite operations included, as it was. For a
  call whose body parses and that presents a token that is not the empty string:
  when no operation is stored under the token, the call fails with Gone, 410, and
  changes nothing; when the object is allocated in the store and the operation
  stored under the token, if any, was stored under the token made for it (as
  \<open>rewrite_step\<close> stores every operation), then after the call, whether it
  returned a response, completed the rewrite or raised, no operation is stored
  under the token, and every later call that presents the same token with a body
  that parses fails with Gone, 410.
\<close>

theorem rewrite_step_consumes_token:
  "(json_loads e (data req) = None \<longrightarrow>
      rewrite_step e w self url req db dobj = (Inl ValueError, w))
   \<and> (json_loads e (data req) \<noteq> None \<and> args req ''rewriteToken'' = Some t \<and> t \<noteq> [] \<longrightarrow>
        (map_of (rewrite_operations (heap w self)) t = None \<longrightarrow>
           rewrite_step e w self url req db dobj = (Inl gone, w))
        \<and> (self < next_ref w
           \<and> (\<forall>rewrite. map_of (rewrite_operations (heap w self)) t = Some rewrite \<longrightarrow>
                (\<exists>db0 dobj0 g0. t = make_rewrite_token rewrite db0 dobj0 g0)) \<longrightarrow>
           map_of (rewrite_operations
                     (heap (snd (rewrite_step e w self url req db dobj)) self)) t = None
           \<and> (json_loads e (data req') \<noteq> None \<and> args req' ''rewriteToken'' = Some t \<longrightarrow>
                fst (rewrite_step e (snd (rewrite_step e w self url req db dobj)) self
                       url' req' db' dobj') = Inl gone)))"
proof (intro conjI impI)
  assume "json_loads e (data req) = None"
  then show "rewrite_step e w self url req db dobj = (Inl ValueError, w)"
    by (rule rewrite_step_unparsed)
next
  assume a: "json_loads e (data req) \<noteq> None \<and> args req ''rewriteToken'' = Some t \<and> t \<noteq> []"
    and "map_of (rewrite_operations (heap w self)) t = None"
  then show "rewrite_step e w self url req db dobj = (Inl gone, w)"
    using rewrite_step_unknown_token by blast
next
  assume a: "json_loads e (data req) \<noteq> None \<and> args req ''rewriteToken'' = Some t \<and> t \<noteq> []"
    and b: "self < next_ref w
           \<and> (\<forall>rewrite. map_of (rewrite_operations (heap w self)) t = Some rewrite \<longrightarrow>
                (\<exists>db0 dobj0 g0. t = make_rewrite_token rewrite db0 dobj0 g0))"
  from a b have j: "json_loads e (data req) \<noteq> None" and t: "args req ''rewriteToken'' = Some t"
    and n: "t \<noteq> []" and al: "self < next_ref w"
    and i: "\<forall>rewrite. map_of (rewrite_operations (heap w self)) t = Some rewrite \<longrightarrow>
                (\<exists>db0 dobj0 g0. t = make_rewrite_token rewrite db0 dobj0 g0)"
    by blast+
  show r: "map_of (rewrite_operations
                  (heap (snd (rewrite_step e w self url req db dobj)) self)) t = None"
    by (rule rewrite_step_removes [OF j t n al i])
  assume c: "json_loads e (data req') \<noteq> None \<and> args req' ''rewriteToken'' = Some t"
  then have "rewrite_step e (snd (rewrite_step e w self url req db dobj)) self url' req' db' dobj'
               = (Inl gone, snd (rewrite_step e w self url req db dobj))"
    using rewrite_step_unknown_token [OF _ _ n r] by blast
  then show "fst (rewrite_step e (snd (rewrite_step e w self url req db dobj)) self
                    url' req' db' dobj') = Inl gone" by simp
qed

text \<open>
  The claim as it was stated, that the operation is removed before any further
  processing and a second call with the token fails whether or not the first
  failed, fails on the example rewrite: a call that presents the token of the
  first call with a body that is no JSON raises \<open>ValueError\<close> and leaves the
  operation in the table, and the next call with the same token returns a
  response.
\<close>

theorem rewrite_token_survives_malformed_body_counterexample:
  "returned_token first_call \<noteq> []
   \<and> args (malformed_request (returned_token first_call)) ''rewriteToken''
       = Some (returned_token first_call)
   \<and> map_of (rewrite_operations (heap (snd first_call) 0)) (returned_token first_call) \<noteq> None
   \<and> rewrite_step example_env (snd first_call) 0 example_url
        (malformed_request (returned_token first_call)) ''bucket'' ''copy''
       = (Inl ValueError, snd first_call)
   \<and> \<not> isl (fst (rewrite_step example_env
                    (snd (rewrite_step example_env (snd first_call) 0 example_url
                            (malformed_request (returned_token first_call)) ''bucket'' ''copy''))
                    0 example_url (continuation_request (returned_token first_call))
                    ''bucket'' ''copy''))"
proof -
  obtain res2 w2 where a4: "second_call = (Inr res2, w2)"
    using second_call_state by (elim exE conjE) (rule that)
  obtain source :: gcs_object_version and res1' w1' rewrite1 where
    m: "returned_token first_call
          = make_rewrite_token rewrite1 ''bucket'' ''copy'' (Some (v_generation source))"
      "first_call = (Inr res1', w1')"
      "map_of (rewrite_operations (heap w1' 0)) (returned_token first_call) = Some rewrite1"
    using first_call_state by (elim exE conjE) (rule that)
  have a3: "returned_token first_call \<noteq> []"
    unfolding m(1) by (rule make_rewrite_token_not_Nil)
  have j: "json_loads example_env (data (malformed_request (returned_token first_call))) = None"
    by (simp add: malformed_request_def example_env_simps strip_def is_space_def)
  have f: "rewrite_step example_env (snd first_call) 0 example_url
             (malformed_request (returned_token first_call)) ''bucket'' ''copy''
           = (Inl ValueError, snd first_call)"
    by (rule rewrite_step_unparsed [OF j])
  have s: "\<not> isl (fst (rewrite_step example_env (snd first_call) 0 example_url
                          (continuation_request (returned_token first_call))
                          ''bucket'' ''copy''))"
    using a4 by (simp add: second_call_def)
  have k: "map_of (rewrite_operations (heap (snd first_call) 0)) (returned_token first_call)
             \<noteq> None"
    using m(3) by (simp add: m(2))
  show ?thesis
    unfolding f snd_conv using a3 s k by (simp add: malformed_request_def)
qed

theorem rewrite_step_consumes_token_witness:
  "json_loads example_env (data (malformed_request ''never'')) = None
   \<and> rewrite_step example_env rewrite_world 0 example_url (malformed_request ''never'')
        ''bucket'' ''copy'' = (Inl ValueError, rewrite_world)
   \<and> json_loads example_env (data (continuation_request ''never'')) \<noteq> None
   \<and> args (continuation_request ''never'') ''rewriteToken'' = Some ''never''
   \<and> map_of (rewrite_operations (heap rewrite_world 0)) ''never'' = None
   \<and> rewrite_step example_env rewrite_world 0 example_url (continuation_request ''never'')
        ''bucket'' ''copy'' = (Inl gone, rewrite_world)
   \<and> json_loads example_env (data (continuation_request (returned_token first_call))) \<noteq> None
   \<and> args (continuation_request (returned_token first_call)) ''rewriteToken''
       = Some (returned_token first_call)
   \<and> returned_token first_call \<noteq> []
   \<and> 0 < next_ref (snd first_call)
   \<and> (\<exists>rewrite db0 dobj0 g0.
         map_of (rewrite_operations (heap (snd first_call) 0)) (returned_token first_call)
           = Some rewrite
         \<and> returned_token first_call = make_rewrite_token rewrite db0 dobj0 g0)
   \<and> \<not> isl (fst second_call)
   \<and> map_of (rewrite_operations (heap (snd second_call) 0)) (returned_token first_call) = None
   \<and> fst (rewrite_step example_env (snd second_call) 0 example_url
             (continuation_request (returned_token first_call)) ''bucket'' ''copy'')
       = Inl gone"
proof -
  obtain source :: gcs_object_version and res1 w1 rewrite1 where
    a: "first_call = (Inr res1, w1)"
      "returned_token first_call
         = make_rewrite_token rewrite1 ''bucket'' ''copy'' (Some (v_generation source))"
      "map_of (rewrite_operations (heap w1 0)) (returned_token first_call) = Some rewrite1"
      "next_ref w1 = 1"
    using first_call_state by (elim exE conjE) (rule that)
  obtain res2 w2 where b: "second_call = (Inr res2, w2)"
    using second_call_state by (elim exE conjE) (rule that)
  have w: "snd first_call = w1" by (simp add: a(1))
  have n1: "returned_token first_call \<noteq> []"
    unfolding a(2) by (rule make_rewrite_token_not_Nil)
  have j0: "json_loads example_env (data (malformed_request ''never'')) = None"
    by (simp add: malformed_request_def example_env_simps strip_def is_space_def)
  have j: "\<And>t. json_loads example_env (data (continuation_request t)) \<noteq> None"
    using json_loads_example by (simp add: continuation_request_simps)
  have q: "\<And>t. args (continuation_request t) ''rewriteToken'' = Some t"
    by (simp add: continuation_request_def)
  have e: "map_of (rewrite_operations (heap rewrite_world 0)) ''never'' = None"
    by (simp add: rewrite_world_simps source_object_simps)
  have al: "0 < next_ref (snd first_call)" by (simp add: w a(4))
  have i: "\<forall>rewrite. map_of (rewrite_operations (heap (snd first_call) 0))
                        (returned_token first_call) = Some rewrite \<longrightarrow>
             (\<exists>db0 dobj0 g0. returned_token first_call = make_rewrite_token rewrite db0 dobj0 g0)"
    using a(2,3) unfolding w by auto
  have i': "\<exists>rewrite db0 dobj0 g0.
         map_of (rewrite_operations (heap (snd first_call) 0)) (returned_token first_call)
           = Some rewrite
         \<and> returned_token first_call = make_rewrite_token rewrite db0 dobj0 g0"
    using a(2,3) unfolding w by blast
  have x1: "rewrite_step example_env rewrite_world 0 example_url (malformed_request ''never'')
              ''bucket'' ''copy'' = (Inl ValueError, rewrite_world)"
    using rewrite_step_consumes_token
      [where e = example_env and req = "malformed_request ''never''" and w = rewrite_world
         and self = 0 and url = example_url and db = "''bucket''" and dobj = "''copy''"]
      j0 by blast
  have x2: "rewrite_step example_env rewrite_world 0 example_url (continuation_request ''never'')
              ''bucket'' ''copy'' = (Inl gone, rewrite_world)"
    using rewrite_step_consumes_token
      [where e = example_env and req = "continuation_request ''never''" and w = rewrite_world
         and self = 0 and url = example_url and db = "''bucket''" and dobj = "''copy''"
         and t = "''never''"]
      j [of "''never''"] q [of "''never''"] e by simp
  note T = rewrite_step_consumes_token
      [where e = example_env and req = "continuation_request (returned_token first_call)"
         and w = "snd first_call" and self = 0 and url = example_url and db = "''bucket''"
         and dobj = "''copy''" and t = "returned_token first_call"
         and req' = "continuation_request (returned_token first_call)"
         and url' = example_url and db' = "''bucket''" and dobj' = "''copy''",
       folded second_call_def]
  from T j [of "returned_token first_call"] q [of "returned_token first_call"] n1 al i
  have x3: "map_of (rewrite_operations (heap (snd second_call) 0)) (returned_token first_call)
              = None"
    "fst (rewrite_step example_env (snd second_call) 0 example_url
            (continuation_request (returned_token first_call)) ''bucket'' ''copy'') = Inl gone"
    by blast+
  have nb: "\<not> isl (fst second_call)" by (simp add: b)
  show ?thesis
    using j0 x1 j q e x2 n1 al i' nb x3 by simp
qed

end
